theory Spec2Isabelle
  imports Main
begin

section \<open>Data model\<close>

text \<open>
  A shallow embedding of \<^verbatim>\<open>src/optimizer/query_to_operator_transformer.cpp\<close>:
  the visitor that lowers a bound SQL statement to a tree of logical operators.
\<close>

text \<open>
  Modelled from the spec: the parser's syntax tree, the logical operators and the catalog
  are declared in headers that are not among the sources. Their types are written here
  after section 3 of the specification and from the accessors that the transformer
  calls (\<^verbatim>\<open>GetExpressionType\<close>, \<^verbatim>\<open>GetChildren\<close>, \<^verbatim>\<open>GetSelectTable\<close>, ...),
  one selector per accessor. Object identifiers are opaque numbers. Four accessors share
  their name with an accessor of another class and carry the class in their name here:
  \<open>GetTableRefName\<close> and \<open>GetTableAlias\<close> are \<^verbatim>\<open>TableRef::GetTableName\<close> and
  \<^verbatim>\<open>TableRef::GetAlias\<close>, \<open>GetSelectDepth\<close> is \<^verbatim>\<open>SelectStatement::GetDepth\<close>, and
  \<open>GetInsertSelect\<close> is \<^verbatim>\<open>InsertStatement::GetSelect\<close>.

  The embedding covers the lowering of SELECT, INSERT, DELETE and UPDATE with the
  predicate pipeline and the sub-query rewrite. The lowering of COPY and the statement
  kinds that the transformer accepts without building anything are left out.
\<close>

type_synonym db_oid_t = nat
type_synonym namespace_oid_t = nat
type_synonym table_oid_t = nat
type_synonym col_oid_t = nat

datatype ExpressionType =
    COMPARE_EQUAL | COMPARE_NOT_EQUAL | COMPARE_LESS_THAN | COMPARE_GREATER_THAN
  | COMPARE_LESS_THAN_OR_EQUAL_TO | COMPARE_GREATER_THAN_OR_EQUAL_TO | COMPARE_IN
  | OPERATOR_EXISTS | OPERATOR_IS_NOT_NULL | OPERATOR_NOT | OPERATOR_PLUS
  | CONJUNCTION_AND | CONJUNCTION_OR
  | COLUMN_VALUE | VALUE_CONSTANT | ROW_SUBQUERY
  | AGGREGATE_COUNT | AGGREGATE_SUM | AGGREGATE_MIN | AGGREGATE_MAX | AGGREGATE_AVG
  | STAR

text \<open>
  The dynamic class of an expression node decides which \<^verbatim>\<open>Visit\<close> overload
  \<^verbatim>\<open>Accept\<close> dispatches to. The transformer overrides the overloads for comparison
  and operator expressions only.
\<close>

datatype ExpressionClass =
    parser_ComparisonExpression | parser_OperatorExpression | parser_OtherExpression

datatype JoinType = INVALID_JOIN | LEFT_JOIN | RIGHT_JOIN | INNER_JOIN | OUTER_JOIN | SEMI_JOIN

datatype OrderType = kOrderAsc | kOrderDesc

datatype InsertType = INSERT_VALUES | INSERT_SELECT

record LimitDescription =
  GetLimit :: int
  GetOffset :: int

text \<open>
  Every expression node carries its kind, its ordered children, its depth (set by the
  binder), its alias, the table and column name that a \<^verbatim>\<open>ColumnValueExpression\<close> holds,
  and the sub-select that a \<^verbatim>\<open>SubqueryExpression\<close> holds (\<open>None\<close> for every other class).
  Pointers that may be null (\<^verbatim>\<open>GetSelectTable\<close>, \<^verbatim>\<open>GetSelectCondition\<close>, ...) are options.
\<close>

datatype AbstractExpression = AbstractExpression
    (GetExpressionType: ExpressionType)
    (GetChildren: "AbstractExpression list")
    (GetDepth: int)
    (GetAlias: string)
    (GetTableName: string)
    (GetColumnName: string)
    (GetClass: ExpressionClass)
    (GetSubselect: "SelectStatement option")
and SelectStatement = SelectStatement
    (GetSelectColumns: "AbstractExpression list")
    (IsSelectDistinct: bool)
    (GetSelectTable: "TableRef option")
    (GetSelectCondition: "AbstractExpression option")
    (GetSelectGroupBy: "GroupByDescription option")
    (GetSelectOrderBy: "OrderByDescription option")
    (GetSelectLimit: "LimitDescription option")
    (GetSelectDepth: int)
and GroupByDescription = GroupByDescription
    (GetColumns: "AbstractExpression list")
    (GetHaving: "AbstractExpression option")
and OrderByDescription = OrderByDescription
    (GetOrderByTypes: "OrderType list")
    (GetOrderByExpressions: "AbstractExpression list")
and TableRef = TableRef
    (GetTableAlias: string)
    (GetTableRefName: string)
    (GetDatabaseName: string)
    (GetSelect: "SelectStatement option")
    (GetList: "TableRef list")
    (GetJoin: "JoinDefinition option")
and JoinDefinition = JoinDefinition
    (GetJoinType: JoinType)
    (GetLeftTable: TableRef)
    (GetRightTable: TableRef)
    (GetJoinCondition: "AbstractExpression option")

record InsertStatement =
  GetInsertType :: InsertType
  GetInsertionTable :: TableRef
  GetInsertColumns :: "string list"
  GetValues :: "AbstractExpression list list"
  GetInsertSelect :: "SelectStatement option"

record DeleteStatement =
  GetDeletionTable :: TableRef
  GetDeleteCondition :: "AbstractExpression option"

record UpdateStatement =
  GetUpdateTable :: TableRef
  GetUpdateClauses :: "(string \<times> AbstractExpression) list"
  GetUpdateCondition :: "AbstractExpression option"

datatype AnnotatedExpression = AnnotatedExpression
    (GetExpr: AbstractExpression)
    (GetTableAliasSet: "string set")

datatype OrderByOrderingType = ASC | DESC

text \<open>
  The logical operators the transformer builds, each with the arguments of its
  \<^verbatim>\<open>Make\<close> call. \<open>LogicalGet_Make\<close> is \<^verbatim>\<open>LogicalGet::Make()\<close> without arguments, and
  \<open>LogicalAggregateAndGroupBy None\<close> is \<^verbatim>\<open>LogicalAggregateAndGroupBy::Make()\<close> without
  arguments.
\<close>

datatype LogicalOperator =
    LogicalGet db_oid_t namespace_oid_t table_oid_t "AnnotatedExpression list" string bool
  | LogicalGet_Make
  | LogicalQueryDerivedGet string "string \<rightharpoonup> AbstractExpression"
  | LogicalFilter "AnnotatedExpression list"
  | LogicalInnerJoin
  | LogicalOuterJoin "AbstractExpression option"
  | LogicalLeftJoin "AbstractExpression option"
  | LogicalRightJoin "AbstractExpression option"
  | LogicalSemiJoin "AbstractExpression option"
  | LogicalMarkJoin
  | LogicalSingleJoin
  | LogicalAggregateAndGroupBy "AbstractExpression list option"
  | LogicalDistinct
  | LogicalLimit int int "AbstractExpression list" "OrderByOrderingType list"
  | LogicalInsert db_oid_t namespace_oid_t table_oid_t "col_oid_t list" "AbstractExpression list list"
  | LogicalInsertSelect db_oid_t namespace_oid_t table_oid_t
  | LogicalDelete db_oid_t namespace_oid_t table_oid_t
  | LogicalUpdate db_oid_t namespace_oid_t string table_oid_t "(string \<times> AbstractExpression) list"

text \<open>
  An operator tree is held through a raw pointer; \<open>nullptr\<close> is the value of the output
  slot before anything was built.
\<close>

datatype OperatorExpression =
    nullptr
  | OperatorExpression LogicalOperator "OperatorExpression list"

fun PushChild :: "OperatorExpression \<Rightarrow> OperatorExpression \<Rightarrow> OperatorExpression" where
  "PushChild (OperatorExpression op children) child = OperatorExpression op (children @ [child])"
| "PushChild nullptr child = nullptr"

text \<open>
  Every way in which a call does not return normally is an error value: the three
  exception macros with their message, and the three ways of leaving defined behaviour
  (\<^verbatim>\<open>GetChild\<close> past the last child, which the parser library asserts against;
  \<^verbatim>\<open>Accept\<close> on a null condition; the cast of a node to \<^verbatim>\<open>SubqueryExpression\<close> when it
  holds no sub-select).
\<close>

datatype error =
    OPTIMIZER_EXCEPTION string
  | NOT_IMPLEMENTED_EXCEPTION string
  | CATALOG_EXCEPTION string
  | INDEX_OUT_OF_BOUNDS
  | NULL_POINTER
  | BAD_CAST

record Column =
  Name :: string
  Oid :: col_oid_t
  Nullable :: bool
  StoredExpression :: "AbstractExpression option"

record CatalogAccessor =
  GetDatabaseOid :: "string \<Rightarrow> db_oid_t"
  GetDefaultNamespace :: namespace_oid_t
  GetTableOid :: "string \<Rightarrow> table_oid_t"
  GetSchema :: "table_oid_t \<Rightarrow> Column list"

text \<open>
  The transformer's two mutable members: \<^verbatim>\<open>output_expr_\<close> and \<^verbatim>\<open>predicates_\<close>.
\<close>

record State =
  output_expr :: OperatorExpression
  predicates :: "AnnotatedExpression list"

definition GetChild :: "AbstractExpression \<Rightarrow> nat \<Rightarrow> error + AbstractExpression" where
  "GetChild expr index =
     (if index < length (GetChildren expr) then Inr (GetChildren expr ! index)
      else Inl INDEX_OUT_OF_BOUNDS)"

definition GetChildType :: "AbstractExpression \<Rightarrow> nat \<Rightarrow> error + ExpressionType" where
  "GetChildType expr index =
     (case GetChild expr index of Inl e \<Rightarrow> Inl e | Inr c \<Rightarrow> Inr (GetExpressionType c))"

definition SetChild :: "AbstractExpression \<Rightarrow> nat \<Rightarrow> AbstractExpression \<Rightarrow> AbstractExpression" where
  "SetChild expr index child =
     (case expr of AbstractExpression t cs d a tn cn cl ss \<Rightarrow>
        AbstractExpression t (cs[index := child]) d a tn cn cl ss)"

definition SetChildren :: "AbstractExpression \<Rightarrow> AbstractExpression list \<Rightarrow> AbstractExpression" where
  "SetChildren expr children =
     (case expr of AbstractExpression t cs d a tn cn cl ss \<Rightarrow>
        AbstractExpression t children d a tn cn cl ss)"

definition SetExpressionType :: "AbstractExpression \<Rightarrow> ExpressionType \<Rightarrow> AbstractExpression" where
  "SetExpressionType expr t' =
     (case expr of AbstractExpression t cs d a tn cn cl ss \<Rightarrow>
        AbstractExpression t' cs d a tn cn cl ss)"

subsection \<open>Sizes of syntax trees\<close>

lemma size_list_nth: "i < length xs \<Longrightarrow> f (xs ! i) \<le> size_list f xs"
  by (rule size_list_estimation' [OF nth_mem order_refl])

lemma size_child: "c \<in> set (GetChildren e) \<Longrightarrow> size c < size e"
proof (cases e)
  case (AbstractExpression t cs d a tn cn cl ss)
  assume "c \<in> set (GetChildren e)"
  then have "size c \<le> size_list size cs"
    using AbstractExpression by (simp add: size_list_estimation')
  then show ?thesis using AbstractExpression by simp
qed

section \<open>Predicate utilities\<close>

text \<open>
  \<^verbatim>\<open>SplitPredicates\<close> (lines 609-625) pushes onto the vector it is given: the vector is
  the second argument and the result.
\<close>

function SplitPredicates ::
  "AbstractExpression option \<Rightarrow> AbstractExpression list \<Rightarrow> AbstractExpression list" where
  "SplitPredicates None out = out"
| "SplitPredicates (Some expr) out =
     (if GetExpressionType expr = CONJUNCTION_AND
      then fold (\<lambda>child. SplitPredicates (Some child)) (GetChildren expr) out
      else out @ [expr])"
  by pat_completeness auto
termination
  by (relation "measure (\<lambda>(e, _). case e of None \<Rightarrow> 0 | Some x \<Rightarrow> size x)")
     (auto simp: size_child)

declare SplitPredicates.simps(2) [simp del]

text \<open>
  The decomposition as the specification words it: a conjunction gives the conjuncts of
  its children, in child order; any other expression is its own single conjunct.
\<close>

function conjuncts :: "AbstractExpression \<Rightarrow> AbstractExpression list" where
  "conjuncts expr =
     (if GetExpressionType expr = CONJUNCTION_AND
      then concat (map conjuncts (GetChildren expr))
      else [expr])"
  by pat_completeness auto
termination
  by (relation "measure size") (auto simp: size_child)

declare conjuncts.simps [simp del]

text \<open>\<^verbatim>\<open>GenerateTableAliasSet\<close> (lines 599-607) inserts into the set it is given.\<close>

function GenerateTableAliasSet :: "AbstractExpression \<Rightarrow> string set \<Rightarrow> string set" where
  "GenerateTableAliasSet expr table_alias_set =
     (if GetExpressionType expr = COLUMN_VALUE
      then insert (GetTableName expr) table_alias_set
      else fold GenerateTableAliasSet (GetChildren expr) table_alias_set)"
  by pat_completeness auto
termination
  by (relation "measure (\<lambda>(e, _). size e)") (auto simp: size_child)

declare GenerateTableAliasSet.simps [simp del]

text \<open>\<^verbatim>\<open>ExtractPredicates\<close> (lines 584-597) pushes one annotated conjunct per conjunct.\<close>

definition ExtractPredicates ::
  "AbstractExpression option \<Rightarrow> AnnotatedExpression list \<Rightarrow> AnnotatedExpression list" where
  "ExtractPredicates expr annotated_predicates =
     fold (\<lambda>predicate annotated.
             annotated @ [AnnotatedExpression predicate (GenerateTableAliasSet predicate {})])
       (SplitPredicates expr []) annotated_predicates"

section \<open>Aggregation analysis and admissibility checks\<close>

text \<open>
  Modelled from the spec: \<^verbatim>\<open>AbstractExpression::HasSubquery\<close> is not among the sources.
  The specification describes it as the flag that says whether a sub-query stands
  anywhere in the expression.
\<close>

function HasSubquery :: "AbstractExpression \<Rightarrow> bool" where
  "HasSubquery expr =
     (GetExpressionType expr = ROW_SUBQUERY \<or> list_ex HasSubquery (GetChildren expr))"
  by pat_completeness auto
termination
  by (relation "measure size") (auto simp: size_child)

declare HasSubquery.simps [simp del]

text \<open>
  Modelled from the spec: \<^verbatim>\<open>ExpressionUtil::GetAggregateExprs\<close> is not among the sources.
  The specification has it collect all aggregate sub-expressions of a select-list item;
  like the source's call it pushes onto the vector it is given. An aggregate
  sub-expression is one whose kind is one of the five aggregate kinds.
\<close>

definition IsAggregateExpression :: "ExpressionType \<Rightarrow> bool" where
  "IsAggregateExpression t =
     (t = AGGREGATE_COUNT \<or> t = AGGREGATE_SUM \<or> t = AGGREGATE_MIN \<or>
      t = AGGREGATE_MAX \<or> t = AGGREGATE_AVG)"

function GetAggregateExprs ::
  "AbstractExpression list \<Rightarrow> AbstractExpression \<Rightarrow> AbstractExpression list" where
  "GetAggregateExprs aggr_exprs expr =
     fold (\<lambda>child found. GetAggregateExprs found child) (GetChildren expr)
       (if IsAggregateExpression (GetExpressionType expr) then aggr_exprs @ [expr]
        else aggr_exprs)"
  by pat_completeness auto
termination
  by (relation "measure (\<lambda>(_, e). size e)") (auto simp: size_child)

declare GetAggregateExprs.simps [simp del]

text \<open>
  \<^verbatim>\<open>RequireAggregation\<close> (lines 438-463). The loop over the select list keeps the two
  flags \<^verbatim>\<open>has_aggregation\<close> and \<^verbatim>\<open>has_other_exprs\<close>.
\<close>

definition RequireAggregation_loop :: "AbstractExpression list \<Rightarrow> bool \<times> bool" where
  "RequireAggregation_loop select_columns =
     fold (\<lambda>expr (has_aggregation, has_other_exprs).
             if GetAggregateExprs [] expr \<noteq> [] then (True, has_other_exprs)
             else (has_aggregation, True))
       select_columns (False, False)"

definition aggregation_mix_message :: string where
  "aggregation_mix_message =
     ''Non aggregation expression must appear in the GROUP BY clause or be used in an aggregate function''"

definition RequireAggregation :: "SelectStatement \<Rightarrow> error + bool" where
  "RequireAggregation op =
     (if GetSelectGroupBy op \<noteq> None then Inr True
      else
        let (has_aggregation, has_other_exprs) = RequireAggregation_loop (GetSelectColumns op)
        in if has_aggregation \<and> has_other_exprs
           then Inl (OPTIMIZER_EXCEPTION aggregation_mix_message)
           else Inr has_aggregation)"

definition is_comparison_operator :: "ExpressionType \<Rightarrow> bool" where
  "is_comparison_operator expr_type =
     (expr_type = COMPARE_EQUAL \<or> expr_type = COMPARE_GREATER_THAN \<or>
      expr_type = COMPARE_GREATER_THAN_OR_EQUAL_TO \<or> expr_type = COMPARE_LESS_THAN \<or>
      expr_type = COMPARE_LESS_THAN_OR_EQUAL_TO)"

text \<open>
  \<^verbatim>\<open>IsSupportedConjunctivePredicate\<close> (lines 484-519). The conditions read the children
  in the source's short-circuit order, so that a missing child is an error exactly when
  the source reaches it.
\<close>

definition IsSupportedConjunctivePredicate :: "AbstractExpression \<Rightarrow> error + bool" where
  "IsSupportedConjunctivePredicate expr =
     (if \<not> HasSubquery expr then Inr True
      else
        let expr_type = GetExpressionType expr in
        case (if expr_type = COMPARE_IN then
                (case GetChildType expr 0 of
                   Inl e \<Rightarrow> Inl e
                 | Inr t0 \<Rightarrow>
                     if t0 \<noteq> ROW_SUBQUERY then
                       (case GetChildType expr 1 of
                          Inl e \<Rightarrow> Inl e
                        | Inr t1 \<Rightarrow> Inr (t1 = ROW_SUBQUERY))
                     else Inr False)
              else Inr False) of
          Inl e \<Rightarrow> Inl e
        | Inr subquery_with_in \<Rightarrow>
        if subquery_with_in then Inr True
        else
        case (if expr_type = OPERATOR_EXISTS then
                (case GetChildType expr 0 of
                   Inl e \<Rightarrow> Inl e
                 | Inr t0 \<Rightarrow> Inr (t0 = ROW_SUBQUERY))
              else Inr False) of
          Inl e \<Rightarrow> Inl e
        | Inr subquery_with_exist \<Rightarrow>
        if subquery_with_exist then Inr True
        else
        if is_comparison_operator expr_type then
          (case GetChild expr 0 of
             Inl e \<Rightarrow> Inl e
           | Inr c0 \<Rightarrow>
           case (if \<not> HasSubquery c0 then
                   (case GetChildType expr 1 of
                      Inl e \<Rightarrow> Inl e
                    | Inr t1 \<Rightarrow> Inr (t1 = ROW_SUBQUERY))
                 else Inr False) of
             Inl e \<Rightarrow> Inl e
           | Inr right_is_subquery \<Rightarrow>
           if right_is_subquery then Inr True
           else
           case GetChild expr 1 of
             Inl e \<Rightarrow> Inl e
           | Inr c1 \<Rightarrow> Inr (\<not> HasSubquery c1 \<and> GetExpressionType c0 = ROW_SUBQUERY))
        else Inr False)"

text \<open>
  \<^verbatim>\<open>IsSupportedSubSelect\<close> (lines 521-548). The loop over the conjuncts of the WHERE
  clause returns at the first correlated conjunct of another shape. The condition reads
  \<^verbatim>\<open>GetChild(1)\<close> first.
\<close>

fun IsSupportedSubSelect_loop :: "SelectStatement \<Rightarrow> AbstractExpression list \<Rightarrow> error + bool" where
  "IsSupportedSubSelect_loop op [] = Inr True"
| "IsSupportedSubSelect_loop op (pred # rest) =
     (if GetDepth pred < GetSelectDepth op then
        (if GetExpressionType pred \<noteq> COMPARE_EQUAL then Inr False
         else
           case GetChild pred 1 of
             Inl e \<Rightarrow> Inl e
           | Inr c1 \<Rightarrow>
           case GetChild pred 0 of
             Inl e \<Rightarrow> Inl e
           | Inr c0 \<Rightarrow>
             if \<not> ((GetDepth c1 = GetSelectDepth op \<and> GetExpressionType c0 = COLUMN_VALUE) \<or>
                     (GetDepth c0 = GetSelectDepth op \<and> GetExpressionType c1 = COLUMN_VALUE))
             then Inr False
             else IsSupportedSubSelect_loop op rest)
      else IsSupportedSubSelect_loop op rest)"

definition IsSupportedSubSelect :: "SelectStatement \<Rightarrow> error + bool" where
  "IsSupportedSubSelect op =
     (case RequireAggregation op of
        Inl e \<Rightarrow> Inl e
      | Inr require \<Rightarrow>
          if \<not> require then Inr True
          else IsSupportedSubSelect_loop op (SplitPredicates (GetSelectCondition op) []))"

text \<open>The check loop at the head of \<^verbatim>\<open>CollectPredicates\<close> (lines 472-476).\<close>

fun CheckSupported :: "AbstractExpression list \<Rightarrow> error + unit" where
  "CheckSupported [] = Inr ()"
| "CheckSupported (pred # rest) =
     (case IsSupportedConjunctivePredicate pred of
        Inl e \<Rightarrow> Inl e
      | Inr supported \<Rightarrow>
          if \<not> supported
          then Inl (NOT_IMPLEMENTED_EXCEPTION ''Predicate type not supported yet'')
          else CheckSupported rest)"

text \<open>
  The first test of \<^verbatim>\<open>Visit(ComparisonExpression)\<close> on an ordering or equality
  comparison: are both children row sub-queries (lines 416-417)?
\<close>

definition BothRowSubquery :: "AbstractExpression \<Rightarrow> error + bool" where
  "BothRowSubquery expr =
     (case GetChildType expr 0 of
        Inl e \<Rightarrow> Inl e
      | Inr t0 \<Rightarrow>
          if t0 = ROW_SUBQUERY
          then (case GetChildType expr 1 of
                  Inl e \<Rightarrow> Inl e
                | Inr t1 \<Rightarrow> Inr (t1 = ROW_SUBQUERY))
          else Inr False)"

section \<open>Alias map of a derived table\<close>

definition tolower :: "char \<Rightarrow> char" where
  "tolower c =
     (let n = (of_char c :: nat) in if 65 \<le> n \<and> n \<le> 90 then char_of (n + 32) else c)"

text \<open>\<^verbatim>\<open>ConstructSelectElementMap\<close> (lines 627-645): a later entry overwrites an earlier one.\<close>

definition ConstructSelectElementMap ::
  "AbstractExpression list \<Rightarrow> (string \<rightharpoonup> AbstractExpression)" where
  "ConstructSelectElementMap select_list =
     fold (\<lambda>expr res.
             if GetAlias expr \<noteq> [] then res(map tolower (GetAlias expr) \<mapsto> expr)
             else if GetExpressionType expr = COLUMN_VALUE
                  then res(map tolower (GetColumnName expr) \<mapsto> expr)
                  else res)
       select_list Map.empty"

section \<open>The visitor\<close>

subsection \<open>Size bounds for the termination argument\<close>

lemma size_children: "size_list size (GetChildren e) < size e"
  by (cases e) simp

lemma size_GetSelectTable: "GetSelectTable op = Some t \<Longrightarrow> size t < size op"
  by (cases op) simp

lemma size_GetSelectCondition: "GetSelectCondition op = Some c \<Longrightarrow> size c < size op"
  by (cases op) simp

lemma size_GetHaving:
  "GetSelectGroupBy op = Some g \<Longrightarrow> GetHaving g = Some h \<Longrightarrow> size h < size op"
  by (cases op; cases g) simp

lemma size_GetSelect: "GetSelect node = Some s \<Longrightarrow> size s < size node"
  by (cases node) simp

lemma size_GetJoin: "GetJoin node = Some j \<Longrightarrow> size j < size node"
  by (cases node) simp

lemma size_GetList: "size_list size (GetList node) < size node"
  by (cases node) simp

lemma size_GetList_nth: "i < length (GetList node) \<Longrightarrow> size (GetList node ! i) < size node"
  using size_list_nth [of i "GetList node" size] size_GetList [of node] by simp

lemma size_GetList_first:
  "Suc 0 < length (GetList node) \<Longrightarrow> size (GetList node ! 0) < size node"
  using size_GetList_nth [of 0 node] by (cases "GetList node") auto

lemma size_GetLeftTable: "size (GetLeftTable j) < size j"
  by (cases j) simp

lemma size_GetRightTable: "size (GetRightTable j) < size j"
  by (cases j) simp

lemma size_GetJoinCondition: "GetJoinCondition j = Some c \<Longrightarrow> size c < size j"
  by (cases j) simp

lemma size_GetSubselect: "GetSubselect e = Some s \<Longrightarrow> size s < size e"
  by (cases e) simp

lemma size_GetChild: "GetChild e i = Inr c \<Longrightarrow> size c < size e"
  by (auto simp: GetChild_def size_child split: if_splits)

lemma size_GetChild_GetSubselect:
  "GetChild e i = Inr c \<Longrightarrow> GetSubselect c = Some s \<Longrightarrow> size s < size e"
  using size_GetChild [of e i c] size_GetSubselect [of c s] by simp

lemma size_list_update:
  "i < length xs \<Longrightarrow> size_list f (xs[i := y]) + f (xs ! i) = size_list f xs + f y"
  by (induction xs arbitrary: i) (auto split: nat.splits)

lemma size_SetExpressionType [simp]: "size (SetExpressionType e t) = size e"
  by (cases e) (simp add: SetExpressionType_def)

lemma size_SetChild:
  assumes "GetChild e i = Inr c" and "size c' < size c"
  shows "size (SetChild e i c') < size e"
proof (cases e)
  case (AbstractExpression t cs d a tn cn cl ss)
  from assms(1) have i: "i < length cs" and c: "c = cs ! i"
    using AbstractExpression by (auto simp: GetChild_def split: if_splits)
  from size_list_update [OF i, of size c'] assms(2) c
  have "size_list size (cs[i := c']) < size_list size cs" by simp
  then show ?thesis using AbstractExpression by (simp add: SetChild_def)
qed

lemma size_GetSelectColumns_nth:
  "i < length (GetSelectColumns s) \<Longrightarrow> size (GetSelectColumns s ! i) < size s"
  using size_list_nth [of i "GetSelectColumns s" size] by (cases s) simp

lemmas size_bounds = size_children size_GetSelectTable size_GetSelectCondition size_GetHaving
  size_GetSelect size_GetJoin size_GetList size_GetList_nth size_GetList_first
  size_GetLeftTable size_GetRightTable size_GetJoinCondition size_GetChild_GetSubselect

subsection \<open>The mutually recursive visit functions\<close>

definition sort_directions :: "OrderType list \<Rightarrow> OrderByOrderingType list" where
  "sort_directions types = map (\<lambda>type. if type = kOrderAsc then ASC else DESC) types"

text \<open>
  \<open>wrap op st\<close> is the recurring pair of statements
  \<^verbatim>\<open>auto e = new OperatorExpression(op, {output_expr_}); output_expr_ = e;\<close>.
\<close>

definition wrap :: "LogicalOperator \<Rightarrow> State \<Rightarrow> State" where
  "wrap op st = st\<lparr>output_expr := OperatorExpression op [output_expr st]\<rparr>"

text \<open>
  The visitor threads the two members through every call as a \<open>State\<close>; an exception is
  the result \<open>Inl\<close>.

  \<^item> \<open>Visit_SelectStatement\<close> is \<^verbatim>\<open>Visit(parser::SelectStatement *)\<close>, lines 38-119. A vector
    that was moved from is empty.
  \<^item> \<open>Visit_TableRef\<close> is \<^verbatim>\<open>Visit(parser::TableRef *)\<close>, lines 165-208, and
    \<open>Visit_TableRef_loop\<close> its range-for loop over \<^verbatim>\<open>node->GetList()\<close>, lines 191-196, with
    \<^verbatim>\<open>prev_expr\<close> as an argument.
  \<^item> \<open>Visit_JoinDefinition\<close> is \<^verbatim>\<open>Visit(parser::JoinDefinition *)\<close>, lines 121-163.
  \<^item> \<open>CollectPredicates\<close>, lines 465-482, returns the annotated predicates that the source
    pushes onto the vector behind its out-parameter; the caller appends them to the vector
    it passed (the member \<^verbatim>\<open>predicates_\<close> or a local vector).
  \<^item> The visit of an expression rewrites the expression in place; here it returns the
    rewritten expression. \<open>Visit_ComparisonExpression\<close> is lines 401-424 and
    \<open>Visit_OperatorExpression\<close> lines 426-436.
  \<^item> \<open>GenerateSubqueryTree\<close>, lines 550-582, returns \<open>None\<close> where the source returns false
    (it has changed nothing then) and the rewritten parent expression with the new state
    where the source returns true.

  Modelled from the spec: \<^verbatim>\<open>AbstractExpression::Accept\<close>, \<^verbatim>\<open>AcceptChildren\<close> and the visit
  overloads that the transformer inherits are not among the sources. After the
  specification, \<open>Accept\<close> dispatches on the class of the node, \<open>AcceptChildren\<close> visits the
  children in order, and for every expression class but the two the transformer
  overrides the visit walks the children.
\<close>

function
  Visit_SelectStatement :: "CatalogAccessor \<Rightarrow> SelectStatement \<Rightarrow> State \<Rightarrow> error + State" and
  Visit_TableRef :: "CatalogAccessor \<Rightarrow> TableRef \<Rightarrow> State \<Rightarrow> error + State" and
  Visit_TableRef_loop ::
    "CatalogAccessor \<Rightarrow> TableRef list \<Rightarrow> OperatorExpression \<Rightarrow> State
      \<Rightarrow> error + OperatorExpression \<times> State" and
  Visit_JoinDefinition :: "CatalogAccessor \<Rightarrow> JoinDefinition \<Rightarrow> State \<Rightarrow> error + State" and
  CollectPredicates ::
    "CatalogAccessor \<Rightarrow> AbstractExpression \<Rightarrow> State
      \<Rightarrow> error + State \<times> AnnotatedExpression list" and
  Accept ::
    "CatalogAccessor \<Rightarrow> AbstractExpression \<Rightarrow> State \<Rightarrow> error + AbstractExpression \<times> State" and
  Visit_ComparisonExpression ::
    "CatalogAccessor \<Rightarrow> AbstractExpression \<Rightarrow> State \<Rightarrow> error + AbstractExpression \<times> State" and
  Visit_OperatorExpression ::
    "CatalogAccessor \<Rightarrow> AbstractExpression \<Rightarrow> State \<Rightarrow> error + AbstractExpression \<times> State" and
  AcceptChildren ::
    "CatalogAccessor \<Rightarrow> AbstractExpression \<Rightarrow> State \<Rightarrow> error + AbstractExpression \<times> State" and
  AcceptChildren_loop ::
    "CatalogAccessor \<Rightarrow> AbstractExpression list \<Rightarrow> State
      \<Rightarrow> error + AbstractExpression list \<times> State" and
  GenerateSubqueryTree ::
    "CatalogAccessor \<Rightarrow> AbstractExpression \<Rightarrow> nat \<Rightarrow> bool \<Rightarrow> State
      \<Rightarrow> error + (AbstractExpression \<times> State) option"
where
  "Visit_SelectStatement accessor op st0 =
     (let pre_predicates = predicates st0;
          st = st0\<lparr>predicates := []\<rparr> in
      case (case GetSelectTable op of
              Some table \<Rightarrow> Visit_TableRef accessor table st
            | None \<Rightarrow> Inr (st\<lparr>output_expr := OperatorExpression LogicalGet_Make []\<rparr>)) of
        Inl e \<Rightarrow> Inl e
      | Inr st \<Rightarrow>
      case (case GetSelectCondition op of
              Some cond \<Rightarrow>
                (case CollectPredicates accessor cond st of
                   Inl e \<Rightarrow> Inl e
                 | Inr (st, pushed) \<Rightarrow> Inr (st\<lparr>predicates := predicates st @ pushed\<rparr>))
            | None \<Rightarrow> Inr st) of
        Inl e \<Rightarrow> Inl e
      | Inr st \<Rightarrow>
      let st = (if predicates st \<noteq> []
                then (wrap (LogicalFilter (predicates st)) st)\<lparr>predicates := []\<rparr>
                else st) in
      case RequireAggregation op of
        Inl e \<Rightarrow> Inl e
      | Inr require \<Rightarrow>
      case (if require then
              (case GetSelectGroupBy op of
                 None \<Rightarrow> Inr (wrap (LogicalAggregateAndGroupBy None) st)
               | Some group_by \<Rightarrow>
                   let st = wrap (LogicalAggregateAndGroupBy (Some (GetColumns group_by))) st in
                   case (case GetHaving group_by of
                           Some having_expr \<Rightarrow> CollectPredicates accessor having_expr st
                         | None \<Rightarrow> Inr (st, [])) of
                     Inl e \<Rightarrow> Inl e
                   | Inr (st, having) \<Rightarrow>
                       Inr (if having \<noteq> [] then wrap (LogicalFilter having) st else st))
            else Inr st) of
        Inl e \<Rightarrow> Inl e
      | Inr st \<Rightarrow>
      let st = (if IsSelectDistinct op then wrap LogicalDistinct st else st);
          st = (case GetSelectLimit op of
                  Some limit \<Rightarrow>
                    if GetLimit limit \<noteq> - 1 then
                      (case GetSelectOrderBy op of
                         Some order_info \<Rightarrow>
                           wrap (LogicalLimit (GetOffset limit) (GetLimit limit)
                                   (GetOrderByExpressions order_info)
                                   (sort_directions (GetOrderByTypes order_info))) st
                       | None \<Rightarrow> wrap (LogicalLimit (GetOffset limit) (GetLimit limit) [] []) st)
                    else st
                | None \<Rightarrow> st)
      in Inr (st\<lparr>predicates := pre_predicates\<rparr>))"
| "Visit_TableRef accessor node st =
     (case GetSelect node of
        Some select \<Rightarrow>
          (let table_alias = map tolower (GetTableAlias node);
               alias_to_expr_map = ConstructSelectElementMap (GetSelectColumns select) in
           case Visit_SelectStatement accessor select st of
             Inl e \<Rightarrow> Inl e
           | Inr st \<Rightarrow> Inr (wrap (LogicalQueryDerivedGet table_alias alias_to_expr_map) st))
      | None \<Rightarrow>
      case GetJoin node of
        Some join \<Rightarrow> Visit_JoinDefinition accessor join st
      | None \<Rightarrow>
      if length (GetList node) > 1 then
        (case Visit_TableRef accessor (GetList node ! 0) st of
           Inl e \<Rightarrow> Inl e
         | Inr st \<Rightarrow>
         case Visit_TableRef_loop accessor (GetList node) (output_expr st) st of
           Inl e \<Rightarrow> Inl e
         | Inr (prev_expr, st) \<Rightarrow> Inr (st\<lparr>output_expr := prev_expr\<rparr>))
      else
        let node = (if length (GetList node) = 1 then GetList node ! 0 else node) in
        Inr (st\<lparr>output_expr := OperatorExpression
               (LogicalGet (GetDatabaseOid accessor (GetDatabaseName node))
                  (GetDefaultNamespace accessor)
                  (GetTableOid accessor (GetTableRefName node)) [] (GetTableAlias node) False)
               []\<rparr>))"
| "Visit_TableRef_loop accessor [] prev_expr st = Inr (prev_expr, st)"
| "Visit_TableRef_loop accessor (list_elem # rest) prev_expr st =
     (case Visit_TableRef accessor list_elem st of
        Inl e \<Rightarrow> Inl e
      | Inr st \<Rightarrow>
          Visit_TableRef_loop accessor rest
            (OperatorExpression LogicalInnerJoin [prev_expr, output_expr st]) st)"
| "Visit_JoinDefinition accessor node st =
     (case Visit_TableRef accessor (GetLeftTable node) st of
        Inl e \<Rightarrow> Inl e
      | Inr st \<Rightarrow>
      let left_expr = output_expr st in
      case Visit_TableRef accessor (GetRightTable node) st of
        Inl e \<Rightarrow> Inl e
      | Inr st \<Rightarrow>
      let right_expr = output_expr st in
      case GetJoinType node of
        INNER_JOIN \<Rightarrow>
          (case GetJoinCondition node of
             None \<Rightarrow> Inl NULL_POINTER
           | Some cond \<Rightarrow>
             case CollectPredicates accessor cond st of
               Inl e \<Rightarrow> Inl e
             | Inr (st, pushed) \<Rightarrow>
                 Inr (st\<lparr>predicates := predicates st @ pushed,
                         output_expr := OperatorExpression LogicalInnerJoin [left_expr, right_expr]\<rparr>))
      | OUTER_JOIN \<Rightarrow>
          Inr (st\<lparr>output_expr := OperatorExpression
                 (LogicalOuterJoin (GetJoinCondition node)) [left_expr, right_expr]\<rparr>)
      | LEFT_JOIN \<Rightarrow>
          Inr (st\<lparr>output_expr := OperatorExpression
                 (LogicalLeftJoin (GetJoinCondition node)) [left_expr, right_expr]\<rparr>)
      | RIGHT_JOIN \<Rightarrow>
          Inr (st\<lparr>output_expr := OperatorExpression
                 (LogicalRightJoin (GetJoinCondition node)) [left_expr, right_expr]\<rparr>)
      | SEMI_JOIN \<Rightarrow>
          Inr (st\<lparr>output_expr := OperatorExpression
                 (LogicalSemiJoin (GetJoinCondition node)) [left_expr, right_expr]\<rparr>)
      | INVALID_JOIN \<Rightarrow> Inl (OPTIMIZER_EXCEPTION ''Join type invalid''))"
| "CollectPredicates accessor expr st =
     (case CheckSupported (SplitPredicates (Some expr) []) of
        Inl e \<Rightarrow> Inl e
      | Inr _ \<Rightarrow>
      case Accept accessor expr st of
        Inl e \<Rightarrow> Inl e
      | Inr (expr, st) \<Rightarrow> Inr (st, ExtractPredicates (Some expr) []))"
| "Accept accessor expr st =
     (case GetClass expr of
        parser_ComparisonExpression \<Rightarrow> Visit_ComparisonExpression accessor expr st
      | parser_OperatorExpression \<Rightarrow> Visit_OperatorExpression accessor expr st
      | parser_OtherExpression \<Rightarrow> AcceptChildren accessor expr st)"
| "Visit_ComparisonExpression accessor expr st =
     (let expr_type = GetExpressionType expr in
      case (if expr_type = COMPARE_IN then
              (case GenerateSubqueryTree accessor expr 1 False st of
                 Inl e \<Rightarrow> Inl e
               | Inr rewritten \<Rightarrow>
                   Inr (case rewritten of
                          None \<Rightarrow> (expr, st)
                        | Some (expr, st) \<Rightarrow> (SetExpressionType expr COMPARE_EQUAL, st)))
            else if is_comparison_operator expr_type then
              (case BothRowSubquery expr of
                 Inl e \<Rightarrow> Inl e
               | Inr both \<Rightarrow>
               if both
               then Inl (NOT_IMPLEMENTED_EXCEPTION ''Do not support comparison between sub-select'')
               else
               case GenerateSubqueryTree accessor expr 0 True st of
                 Inl e \<Rightarrow> Inl e
               | Inr rewritten0 \<Rightarrow>
               case rewritten0 of
                 Some (expr, st) \<Rightarrow> Inr (expr, st)
               | None \<Rightarrow>
               case GenerateSubqueryTree accessor expr 1 True st of
                 Inl e \<Rightarrow> Inl e
               | Inr rewritten1 \<Rightarrow>
                   Inr (case rewritten1 of None \<Rightarrow> (expr, st) | Some (expr, st) \<Rightarrow> (expr, st)))
            else Inr (expr, st)) of
        Inl e \<Rightarrow> Inl e
      | Inr (expr, st) \<Rightarrow> AcceptChildren accessor expr st)"
| "Visit_OperatorExpression accessor expr st =
     (case (if GetExpressionType expr = OPERATOR_EXISTS then
              (case GenerateSubqueryTree accessor expr 0 False st of
                 Inl e \<Rightarrow> Inl e
               | Inr rewritten \<Rightarrow>
                   Inr (case rewritten of
                          None \<Rightarrow> (expr, st)
                        | Some (expr, st) \<Rightarrow> (SetExpressionType expr OPERATOR_IS_NOT_NULL, st)))
            else Inr (expr, st)) of
        Inl e \<Rightarrow> Inl e
      | Inr (expr, st) \<Rightarrow> AcceptChildren accessor expr st)"
| "AcceptChildren accessor expr st =
     (case AcceptChildren_loop accessor (GetChildren expr) st of
        Inl e \<Rightarrow> Inl e
      | Inr (children, st) \<Rightarrow> Inr (SetChildren expr children, st))"
| "AcceptChildren_loop accessor [] st = Inr ([], st)"
| "AcceptChildren_loop accessor (child # rest) st =
     (case Accept accessor child st of
        Inl e \<Rightarrow> Inl e
      | Inr (child, st) \<Rightarrow>
      case AcceptChildren_loop accessor rest st of
        Inl e \<Rightarrow> Inl e
      | Inr (rest, st) \<Rightarrow> Inr (child # rest, st))"
| "GenerateSubqueryTree accessor expr child_id single_join st =
     (case GetChild expr child_id of
        Inl e \<Rightarrow> Inl e
      | Inr subquery_expr \<Rightarrow>
      if GetExpressionType subquery_expr \<noteq> ROW_SUBQUERY then Inr None
      else
      case GetSubselect subquery_expr of
        None \<Rightarrow> Inl BAD_CAST
      | Some sub_select \<Rightarrow>
      case IsSupportedSubSelect sub_select of
        Inl e \<Rightarrow> Inl e
      | Inr supported \<Rightarrow>
      if \<not> supported then Inl (NOT_IMPLEMENTED_EXCEPTION ''Sub-select not supported'')
      else
      if length (GetSelectColumns sub_select) \<noteq> 1
      then Inl (NOT_IMPLEMENTED_EXCEPTION ''Array in predicates not supported'')
      else
      let op_expr = OperatorExpression
                      (if single_join then LogicalSingleJoin else LogicalMarkJoin)
                      [output_expr st] in
      case Visit_SelectStatement accessor sub_select st of
        Inl e \<Rightarrow> Inl e
      | Inr st \<Rightarrow>
      let op_expr = PushChild op_expr (output_expr st);
          st = st\<lparr>output_expr := op_expr\<rparr> in
      Inr (Some (SetChild expr child_id (GetSelectColumns sub_select ! 0), st)))"
  by pat_completeness auto

text \<open>
  Termination: every call goes to a strictly smaller piece of syntax, or to the same
  expression in a function of lower rank. The expression that \<open>GenerateSubqueryTree\<close>
  hands back is smaller than the one it was given: a sub-query node was replaced by
  one column of its own select list.
\<close>

definition visit_measure where
  "visit_measure x =
     (case x of
        Inl (Inl (Inl (_, op, _))) \<Rightarrow> (size op, 0::nat)
      | Inl (Inl (Inr (_, node, _))) \<Rightarrow> (size node, 0)
      | Inl (Inr (Inl (_, elems, _, _))) \<Rightarrow> (size_list size elems, 0)
      | Inl (Inr (Inr (Inl (_, node, _)))) \<Rightarrow> (size node, 0)
      | Inl (Inr (Inr (Inr (_, expr, _)))) \<Rightarrow> (size expr, 4)
      | Inr (Inl (Inl (_, expr, _))) \<Rightarrow> (size expr, 3)
      | Inr (Inl (Inr (Inl (_, expr, _)))) \<Rightarrow> (size expr, 2)
      | Inr (Inl (Inr (Inr (_, expr, _)))) \<Rightarrow> (size expr, 2)
      | Inr (Inr (Inl (_, expr, _))) \<Rightarrow> (size expr, 1)
      | Inr (Inr (Inr (Inl (_, children, _)))) \<Rightarrow> (size_list size children, 0)
      | Inr (Inr (Inr (Inr (_, expr, _, _, _)))) \<Rightarrow> (size expr, 1))"

lemma GenerateSubqueryTree_size:
  assumes "Visit_SelectStatement_Visit_TableRef_Visit_TableRef_loop_Visit_JoinDefinition_CollectPredicates_Accept_Visit_ComparisonExpression_Visit_OperatorExpression_AcceptChildren_AcceptChildren_loop_GenerateSubqueryTree_dom
      (Inr (Inr (Inr (Inr (accessor, expr, child_id, single_join, st)))))"
    and "GenerateSubqueryTree accessor expr child_id single_join st = Inr (Some (expr', st'))"
  shows "size expr' < size expr"
proof -
  from assms(2) obtain c s where c: "GetChild expr child_id = Inr c"
    and s: "GetSubselect c = Some s" and n: "length (GetSelectColumns s) = 1"
    and e: "expr' = SetChild expr child_id (GetSelectColumns s ! 0)"
    unfolding GenerateSubqueryTree.psimps [OF assms(1)]
    by (auto simp: Let_def split: sum.splits if_splits option.splits)
  from n have "size (GetSelectColumns s ! 0) < size s"
    by (intro size_GetSelectColumns_nth) simp
  with size_GetSubselect [OF s] have "size (GetSelectColumns s ! 0) < size c" by simp
  from size_SetChild [OF c this] e show ?thesis by simp
qed

termination Visit_SelectStatement
  apply (relation "inv_image (less_than <*lex*> less_than) visit_measure")
  apply (intro wf_inv_image wf_lex_prod wf_less_than)
  apply (simp_all add: visit_measure_def size_bounds)
  subgoal premises prems for accessor expr st x b xa y
  proof -
    note d1F = GenerateSubqueryTree_size [OF prems(6)]
    note d0T = GenerateSubqueryTree_size [OF prems(5) [of False]]
    note d1T = GenerateSubqueryTree_size [OF prems(4) [of False]]
    have "size xa \<le> size expr"
      using prems(1,2,3)
      by (auto split: if_splits sum.splits option.splits
               intro: less_imp_le [OF d1F] less_imp_le [OF d0T] less_imp_le [OF d1T])
    then show ?thesis using prems(3) [symmetric] by auto
  qed
  subgoal premises prems for accessor expr st b x y
  proof -
    note d = GenerateSubqueryTree_size [OF prems(3)]
    have "size x \<le> size expr"
      using prems(1,2)
      by (auto split: if_splits sum.splits option.splits intro: less_imp_le [OF d])
    then show ?thesis using prems(2) [symmetric] by auto
  qed
  done

lemmas Visit_simps =
  Visit_SelectStatement.simps Visit_TableRef.simps Visit_TableRef_loop.simps
  Visit_JoinDefinition.simps CollectPredicates.simps Accept.simps
  Visit_ComparisonExpression.simps Visit_OperatorExpression.simps AcceptChildren.simps
  AcceptChildren_loop.simps GenerateSubqueryTree.simps

declare Visit_simps [simp del]

section \<open>Data modification statements\<close>

subsection \<open>INSERT (lines 218-301)\<close>

definition more_expressions_message :: string where
  "more_expressions_message = ''ERROR:  INSERT has more expressions than target columns''"

definition more_target_columns_message :: string where
  "more_target_columns_message = ''ERROR:  INSERT has more target columns than expressions''"

text \<open>The two not-null messages differ in the blanks after \<^verbatim>\<open>ERROR:\<close>, as in the source.\<close>

definition not_null_message_values :: "string \<Rightarrow> string" where
  "not_null_message_values column_name =
     ''ERROR:  null value in column '' @ [CHR 0x22] @ column_name @ [CHR 0x22] @
     '' violates not-null constraint''"

definition not_null_message_columns :: "string \<Rightarrow> string" where
  "not_null_message_columns column_name =
     ''ERROR: null value in column '' @ [CHR 0x22] @ column_name @ [CHR 0x22] @
     '' violates not-null constraint''"

definition does_not_exist_message :: "string \<Rightarrow> string \<Rightarrow> string" where
  "does_not_exist_message col table_name =
     ''ERROR:  column '' @ [CHR 0x22] @ col @ [CHR 0x22] @ '' of relation '' @
     [CHR 0x22] @ table_name @ [CHR 0x22] @ '' does not exist''"

text \<open>
  Without a column list (lines 240-256). The inner loop runs \<^verbatim>\<open>i\<close> from the size of the
  row up to the number of columns; here it runs over the columns from that position on.
\<close>

fun CheckMissingColumns :: "Column list \<Rightarrow> error + unit" where
  "CheckMissingColumns [] = Inr ()"
| "CheckMissingColumns (column # rest) =
     (if \<not> Nullable column \<and> StoredExpression column = None
      then Inl (CATALOG_EXCEPTION (not_null_message_values (Name column)))
      else CheckMissingColumns rest)"

fun CheckValues :: "Column list \<Rightarrow> AbstractExpression list list \<Rightarrow> error + unit" where
  "CheckValues column_objects [] = Inr ()"
| "CheckValues column_objects (values # rest) =
     (if length values > length column_objects
      then Inl (CATALOG_EXCEPTION more_expressions_message)
      else
        case (if length values < length column_objects
              then CheckMissingColumns (drop (length values) column_objects)
              else Inr ()) of
          Inl e \<Rightarrow> Inl e
        | Inr _ \<Rightarrow> CheckValues column_objects rest)"

text \<open>With a column list (lines 258-296): the size of each tuple.\<close>

fun CheckTupleSizes :: "nat \<Rightarrow> AbstractExpression list list \<Rightarrow> error + unit" where
  "CheckTupleSizes num_columns [] = Inr ()"
| "CheckTupleSizes num_columns (tuple # rest) =
     (if length tuple > num_columns then Inl (CATALOG_EXCEPTION more_expressions_message)
      else if length tuple < num_columns then Inl (CATALOG_EXCEPTION more_target_columns_message)
      else CheckTupleSizes num_columns rest)"

text \<open>
  Modelled from the spec: \<^verbatim>\<open>Schema::GetColumn(name)\<close> is not among the sources. The
  specification says that it raises on an unknown name; \<open>None\<close> is that exception, which
  the transformer catches.
\<close>

definition GetColumn :: "Column list \<Rightarrow> string \<Rightarrow> Column option" where
  "GetColumn schema name = find (\<lambda>column. Name column = name) schema"

text \<open>
  The set \<^verbatim>\<open>specified\<close> is a \<^verbatim>\<open>std::unordered_set\<close>; it is a list without repetition
  here. The order in which the source copies it into \<^verbatim>\<open>col_ids\<close> is not specified, so the
  theorems below speak of the set of its elements only.
\<close>

fun ResolveColumns ::
  "Column list \<Rightarrow> string \<Rightarrow> string list \<Rightarrow> col_oid_t list \<Rightarrow> error + col_oid_t list" where
  "ResolveColumns schema table_name [] specified = Inr specified"
| "ResolveColumns schema table_name (col # rest) specified =
     (case GetColumn schema col of
        Some column_object \<Rightarrow>
          ResolveColumns schema table_name rest (List.insert (Oid column_object) specified)
      | None \<Rightarrow> Inl (CATALOG_EXCEPTION (does_not_exist_message col table_name)))"

fun CheckUnspecifiedColumns :: "col_oid_t list \<Rightarrow> Column list \<Rightarrow> error + unit" where
  "CheckUnspecifiedColumns specified [] = Inr ()"
| "CheckUnspecifiedColumns specified (column # rest) =
     (if Oid column \<notin> set specified \<and> \<not> Nullable column \<and> StoredExpression column = None
      then Inl (CATALOG_EXCEPTION (not_null_message_columns (Name column)))
      else CheckUnspecifiedColumns specified rest)"

definition Visit_InsertStatement ::
  "CatalogAccessor \<Rightarrow> InsertStatement \<Rightarrow> State \<Rightarrow> error + State" where
  "Visit_InsertStatement accessor op st =
     (let target_table = GetInsertionTable op;
          target_table_id = GetTableOid accessor (GetTableRefName target_table);
          target_db_id = GetDatabaseOid accessor (GetDatabaseName target_table);
          target_ns_id = GetDefaultNamespace accessor in
      if GetInsertType op = INSERT_SELECT then
        (let insert_expr =
               OperatorExpression (LogicalInsertSelect target_db_id target_ns_id target_table_id) [] in
         case GetInsertSelect op of
           None \<Rightarrow> Inl NULL_POINTER
         | Some select \<Rightarrow>
           case Visit_SelectStatement accessor select st of
             Inl e \<Rightarrow> Inl e
           | Inr st \<Rightarrow> Inr (st\<lparr>output_expr := PushChild insert_expr (output_expr st)\<rparr>))
      else
        let column_objects = GetSchema accessor target_table_id in
        case (if GetInsertColumns op = [] then
                (case CheckValues column_objects (GetValues op) of
                   Inl e \<Rightarrow> Inl e
                 | Inr _ \<Rightarrow> Inr (map Oid column_objects))
              else
                let num_columns = length (GetInsertColumns op) in
                case CheckTupleSizes num_columns (GetValues op) of
                  Inl e \<Rightarrow> Inl e
                | Inr _ \<Rightarrow>
                let schema = GetSchema accessor target_table_id in
                case ResolveColumns schema (GetTableRefName target_table) (GetInsertColumns op) [] of
                  Inl e \<Rightarrow> Inl e
                | Inr specified \<Rightarrow>
                case CheckUnspecifiedColumns specified schema of
                  Inl e \<Rightarrow> Inl e
                | Inr _ \<Rightarrow> Inr specified) of
          Inl e \<Rightarrow> Inl e
        | Inr col_ids \<Rightarrow>
            Inr (st\<lparr>output_expr := OperatorExpression
                   (LogicalInsert target_db_id target_ns_id target_table_id col_ids (GetValues op))
                   []\<rparr>))"

subsection \<open>DELETE (lines 303-325) and UPDATE (lines 335-359)\<close>

definition Visit_DeleteStatement :: "CatalogAccessor \<Rightarrow> DeleteStatement \<Rightarrow> State \<Rightarrow> State" where
  "Visit_DeleteStatement accessor op st =
     (let target_table = GetDeletionTable op;
          target_db_id = GetDatabaseOid accessor (GetDatabaseName target_table);
          target_table_id = GetTableOid accessor (GetTableRefName target_table);
          target_ns_id = GetDefaultNamespace accessor;
          target_table_alias = GetTableAlias target_table;
          delete_expr = OperatorExpression (LogicalDelete target_db_id target_ns_id target_table_id) [];
          table_scan =
            (case GetDeleteCondition op of
               Some cond \<Rightarrow>
                 OperatorExpression
                   (LogicalGet target_db_id target_ns_id target_table_id
                      (ExtractPredicates (Some cond) []) target_table_alias True) []
             | None \<Rightarrow>
                 OperatorExpression
                   (LogicalGet target_db_id target_ns_id target_table_id [] target_table_alias True) [])
      in st\<lparr>output_expr := PushChild delete_expr table_scan\<rparr>)"

definition Visit_UpdateStatement :: "CatalogAccessor \<Rightarrow> UpdateStatement \<Rightarrow> State \<Rightarrow> State" where
  "Visit_UpdateStatement accessor op st =
     (let target_table = GetUpdateTable op;
          target_db_id = GetDatabaseOid accessor (GetDatabaseName target_table);
          target_table_id = GetTableOid accessor (GetTableRefName target_table);
          target_ns_id = GetDefaultNamespace accessor;
          target_table_alias = GetTableAlias target_table;
          update_expr = OperatorExpression
            (LogicalUpdate target_db_id target_ns_id target_table_alias target_table_id
               (GetUpdateClauses op)) [];
          table_scan =
            (case GetUpdateCondition op of
               Some cond \<Rightarrow>
                 OperatorExpression
                   (LogicalGet target_db_id target_ns_id target_table_id
                      (ExtractPredicates (Some cond) []) target_table_alias True) []
             | None \<Rightarrow>
                 OperatorExpression
                   (LogicalGet target_db_id target_ns_id target_table_id [] target_table_alias True) [])
      in st\<lparr>output_expr := PushChild update_expr table_scan\<rparr>)"

section \<open>Constructors for examples\<close>

text \<open>
  The constructors of the parser's expression classes, as the examples below use them:
  each fixes the class and, for column references and sub-queries, the kind.
\<close>

definition ColumnValueExpression :: "string \<Rightarrow> string \<Rightarrow> int \<Rightarrow> AbstractExpression" where
  "ColumnValueExpression table_name column_name depth =
     AbstractExpression COLUMN_VALUE [] depth [] table_name column_name parser_OtherExpression None"

definition ConstantValueExpression :: "int \<Rightarrow> AbstractExpression" where
  "ConstantValueExpression depth =
     AbstractExpression VALUE_CONSTANT [] depth [] [] [] parser_OtherExpression None"

definition ComparisonExpression ::
  "ExpressionType \<Rightarrow> AbstractExpression list \<Rightarrow> int \<Rightarrow> AbstractExpression" where
  "ComparisonExpression cmp_type children depth =
     AbstractExpression cmp_type children depth [] [] [] parser_ComparisonExpression None"

definition ConjunctionExpression ::
  "ExpressionType \<Rightarrow> AbstractExpression list \<Rightarrow> int \<Rightarrow> AbstractExpression" where
  "ConjunctionExpression cmp_type children depth =
     AbstractExpression cmp_type children depth [] [] [] parser_OtherExpression None"

definition SubqueryExpression :: "SelectStatement \<Rightarrow> int \<Rightarrow> AbstractExpression" where
  "SubqueryExpression subselect depth =
     AbstractExpression ROW_SUBQUERY [] depth [] [] [] parser_OtherExpression (Some subselect)"

definition AggregateExpression ::
  "ExpressionType \<Rightarrow> AbstractExpression list \<Rightarrow> int \<Rightarrow> AbstractExpression" where
  "AggregateExpression agg_type children depth =
     AbstractExpression agg_type children depth [] [] [] parser_OtherExpression None"

lemmas expression_constructors =
  ColumnValueExpression_def ConstantValueExpression_def ComparisonExpression_def
  ConjunctionExpression_def SubqueryExpression_def AggregateExpression_def

definition BaseTable :: "string \<Rightarrow> string \<Rightarrow> string \<Rightarrow> TableRef" where
  "BaseTable alias table_name database_name = TableRef alias table_name database_name None [] None"

text \<open>
  The recursive utilities at a node that is written out: what the examples evaluate.
\<close>

lemma SplitPredicates_node:
  "SplitPredicates (Some (AbstractExpression t cs d a tn cn cl ss)) out =
     (if t = CONJUNCTION_AND then fold (\<lambda>child. SplitPredicates (Some child)) cs out
      else out @ [AbstractExpression t cs d a tn cn cl ss])"
  by (subst SplitPredicates.simps) simp

lemma GenerateTableAliasSet_node:
  "GenerateTableAliasSet (AbstractExpression t cs d a tn cn cl ss) table_alias_set =
     (if t = COLUMN_VALUE then insert tn table_alias_set
      else fold GenerateTableAliasSet cs table_alias_set)"
  by (subst GenerateTableAliasSet.simps) simp

lemma HasSubquery_node:
  "HasSubquery (AbstractExpression t cs d a tn cn cl ss) =
     (t = ROW_SUBQUERY \<or> list_ex HasSubquery cs)"
  by (subst HasSubquery.simps) simp

lemma GetAggregateExprs_node:
  "GetAggregateExprs aggr_exprs (AbstractExpression t cs d a tn cn cl ss) =
     fold (\<lambda>child found. GetAggregateExprs found child) cs
       (if IsAggregateExpression t then aggr_exprs @ [AbstractExpression t cs d a tn cn cl ss]
        else aggr_exprs)"
  by (subst GetAggregateExprs.simps) simp

lemma conjuncts_node:
  "conjuncts (AbstractExpression t cs d a tn cn cl ss) =
     (if t = CONJUNCTION_AND then concat (map conjuncts cs)
      else [AbstractExpression t cs d a tn cn cl ss])"
  by (subst conjuncts.simps) simp

lemmas evaluation =
  expression_constructors BaseTable_def SplitPredicates_node GenerateTableAliasSet_node
  HasSubquery_node GetAggregateExprs_node ExtractPredicates_def IsAggregateExpression_def
  RequireAggregation_def RequireAggregation_loop_def is_comparison_operator_def
  IsSupportedConjunctivePredicate_def IsSupportedSubSelect_def BothRowSubquery_def
  GetChild_def GetChildType_def SetChild_def SetChildren_def SetExpressionType_def
  wrap_def sort_directions_def Visit_simps Let_def

text \<open>A catalog with the two tables \<open>t\<close> and \<open>u\<close>, for the examples.\<close>

definition example_accessor :: CatalogAccessor where
  "example_accessor =
     \<lparr>GetDatabaseOid = (\<lambda>name. 1),
      GetDefaultNamespace = 2,
      GetTableOid = (\<lambda>name. if name = ''t'' then 10 else if name = ''u'' then 11 else 0),
      GetSchema = (\<lambda>table.
        if table = 10 then
          [\<lparr>Name = ''a'', Oid = 1, Nullable = False, StoredExpression = None\<rparr>,
           \<lparr>Name = ''b'', Oid = 2, Nullable = True, StoredExpression = None\<rparr>,
           \<lparr>Name = ''c'', Oid = 3, Nullable = False,
            StoredExpression = Some (ConstantValueExpression 0)\<rparr>]
        else if table = 11 then
          [\<lparr>Name = ''b'', Oid = 1, Nullable = False, StoredExpression = None\<rparr>]
        else [])\<rparr>"

definition initial_state :: State where
  "initial_state = \<lparr>output_expr = nullptr, predicates = []\<rparr>"

text \<open>\<^verbatim>\<open>SELECT a FROM t WHERE a = 1\<close>, bound at depth 0.\<close>

definition example_where :: AbstractExpression where
  "example_where =
     ComparisonExpression COMPARE_EQUAL
       [ColumnValueExpression ''t'' ''a'' 0, ConstantValueExpression (- 1)] 0"

definition example_select :: SelectStatement where
  "example_select =
     SelectStatement [ColumnValueExpression ''t'' ''a'' 0] False
       (Some (BaseTable ''t'' ''t'' ''db'')) (Some example_where) None None None 0"

text \<open>\<^verbatim>\<open>SELECT b FROM u\<close> as a sub-select, bound at depth 1.\<close>

definition example_subselect :: SelectStatement where
  "example_subselect =
     SelectStatement [ColumnValueExpression ''u'' ''b'' 1] False
       (Some (BaseTable ''u'' ''u'' ''db'')) None None None None 1"

text \<open>\<^verbatim>\<open>a IN (SELECT b FROM u)\<close> in a query on \<open>t\<close>.\<close>

definition in_subquery :: AbstractExpression where
  "in_subquery =
     ComparisonExpression COMPARE_IN
       [ColumnValueExpression ''t'' ''a'' 0, SubqueryExpression example_subselect 1] 0"

text \<open>An INSERT with VALUES into the table \<open>t\<close>.\<close>

definition insert_into_t :: "string list \<Rightarrow> AbstractExpression list list \<Rightarrow> InsertStatement" where
  "insert_into_t columns rows =
     \<lparr>GetInsertType = INSERT_VALUES, GetInsertionTable = BaseTable ''t'' ''t'' ''db'',
      GetInsertColumns = columns, GetValues = rows, GetInsertSelect = None\<rparr>"

lemmas insert_evaluation =
  insert_into_t_def example_accessor_def initial_state_def BaseTable_def
  ConstantValueExpression_def Visit_InsertStatement_def Let_def GetColumn_def
  more_expressions_message_def more_target_columns_message_def not_null_message_values_def
  not_null_message_columns_def does_not_exist_message_def

section \<open>Auxiliary facts\<close>

text \<open>A computation that stops at the first error returns only if each of its steps does.\<close>

lemma case_sum_Inr_iff:
  "(case x of Inl e \<Rightarrow> Inl e | Inr y \<Rightarrow> f y) = Inr z \<longleftrightarrow> (\<exists>y. x = Inr y \<and> f y = Inr z)"
  by (cases x) auto

section \<open>Invariants of the visit\<close>

subsection \<open>Accessors after an update\<close>

lemma GetExpressionType_SetChildren [simp]:
  "GetExpressionType (SetChildren expr children) = GetExpressionType expr"
  by (cases expr) (simp add: SetChildren_def)

lemma GetExpressionType_SetExpressionType [simp]:
  "GetExpressionType (SetExpressionType expr t) = t"
  by (cases expr) (simp add: SetExpressionType_def)

lemma SetChildren_same [simp]: "SetChildren expr (GetChildren expr) = expr"
  by (cases expr) (simp add: SetChildren_def)

lemma GetExpressionType_SetChild [simp]:
  "GetExpressionType (SetChild expr i c) = GetExpressionType expr"
  by (cases expr) (simp add: SetChild_def)

lemma GetChildren_SetChildren [simp]: "GetChildren (SetChildren expr children) = children"
  by (cases expr) (simp add: SetChildren_def)

subsection \<open>Conjuncts\<close>

text \<open>
  \<open>SplitPredicates\<close> appends the conjuncts of the expression, and \<open>ExtractPredicates\<close>
  annotates each of them with the table aliases that it mentions.
\<close>

lemma fold_append_conjuncts:
  assumes "\<And>c out. c \<in> set cs \<Longrightarrow> f c out = out @ g c"
  shows "fold f cs out = out @ concat (map g cs)"
  using assms by (induction cs arbitrary: out) simp_all

lemma SplitPredicates_Some: "SplitPredicates (Some expr) out = out @ conjuncts expr"
proof (induction expr arbitrary: out rule: conjuncts.induct)
  case (1 expr)
  show ?case
  proof (cases "GetExpressionType expr = CONJUNCTION_AND")
    case True
    have "fold (\<lambda>child. SplitPredicates (Some child)) (GetChildren expr) out
            = out @ concat (map conjuncts (GetChildren expr))"
      by (rule fold_append_conjuncts) (simp add: "1.IH" [OF True])
    with True show ?thesis
      by (simp add: SplitPredicates.simps(2) conjuncts.simps [of expr])
  next
    case False
    then show ?thesis
      by (simp add: SplitPredicates.simps(2) conjuncts.simps [of expr])
  qed
qed

lemma conjuncts_no_and: "p \<in> set (conjuncts expr) \<Longrightarrow> GetExpressionType p \<noteq> CONJUNCTION_AND"
proof (induction expr rule: conjuncts.induct)
  case (1 expr)
  then show ?case
    by (cases "GetExpressionType expr = CONJUNCTION_AND")
       (auto simp: conjuncts.simps [of expr])
qed

lemma fold_snoc_map: "fold (\<lambda>x acc. acc @ [f x]) xs acc = acc @ map f xs"
  by (induction xs arbitrary: acc) simp_all

lemma ExtractPredicates_conjuncts:
  "map GetExpr (ExtractPredicates expr []) = SplitPredicates expr []"
  by (simp add: ExtractPredicates_def fold_snoc_map comp_def)

definition annotate :: "AbstractExpression \<Rightarrow> AnnotatedExpression" where
  "annotate predicate = AnnotatedExpression predicate (GenerateTableAliasSet predicate {})"

lemma ExtractPredicates_annotate:
  "ExtractPredicates (Some expr) [] = map annotate (conjuncts expr)"
  by (simp add: ExtractPredicates_def fold_snoc_map SplitPredicates_Some annotate_def)

subsection \<open>The steps of the visit of a SELECT statement and of a sub-query\<close>

lemma Visit_SelectStatement_predicates:
  "Visit_SelectStatement accessor op st = Inr st' \<Longrightarrow> predicates st' = predicates st"
  unfolding Visit_SelectStatement.simps [of accessor op st] Let_def case_sum_Inr_iff
  by auto

lemma Visit_SelectStatement_steps:
  assumes "Visit_SelectStatement accessor op st0 = Inr st'"
  obtains b ba bb agg where
      "(case GetSelectTable op of
            None \<Rightarrow>
              Inr (st0\<lparr>predicates := [], output_expr := OperatorExpression LogicalGet_Make []\<rparr>)
            | Some table \<Rightarrow> Visit_TableRef accessor table (st0\<lparr>predicates := []\<rparr>)) =
           Inr b"
      "(case GetSelectCondition op of None \<Rightarrow> Inr b
            | Some cond \<Rightarrow>
                (case CollectPredicates accessor cond b of Inl x \<Rightarrow> Inl x
                 | Inr (st, pushed) \<Rightarrow>
                    Inr (st\<lparr>predicates := predicates st @ pushed\<rparr>))) =
           Inr ba"
      "RequireAggregation op = Inr bb"
      "(if bb then
              (case GetSelectGroupBy op of
                 None \<Rightarrow> Inr (wrap (LogicalAggregateAndGroupBy None)
                   (if predicates ba \<noteq> []
                    then (wrap (LogicalFilter (predicates ba)) ba)\<lparr>predicates := []\<rparr>
                    else ba))
               | Some group_by \<Rightarrow>
                   (case (case GetHaving group_by of
                           Some having_expr \<Rightarrow> CollectPredicates accessor having_expr
                             (wrap (LogicalAggregateAndGroupBy (Some (GetColumns group_by)))
                               (if predicates ba \<noteq> []
                                then (wrap (LogicalFilter (predicates ba)) ba)\<lparr>predicates := []\<rparr>
                                else ba))
                         | None \<Rightarrow> Inr (wrap (LogicalAggregateAndGroupBy (Some (GetColumns group_by)))
                               (if predicates ba \<noteq> []
                                then (wrap (LogicalFilter (predicates ba)) ba)\<lparr>predicates := []\<rparr>
                                else ba), [])) of
                     Inl e \<Rightarrow> Inl e
                   | Inr (st, having) \<Rightarrow>
                       Inr (if having \<noteq> [] then wrap (LogicalFilter having) st else st)))
            else Inr (if predicates ba \<noteq> []
                    then (wrap (LogicalFilter (predicates ba)) ba)\<lparr>predicates := []\<rparr>
                    else ba)) = Inr agg"
      "st' = (let st = (if IsSelectDistinct op then wrap LogicalDistinct agg else agg);
          st = (case GetSelectLimit op of
                  Some limit \<Rightarrow>
                    if GetLimit limit \<noteq> - 1 then
                      (case GetSelectOrderBy op of
                         Some order_info \<Rightarrow>
                           wrap (LogicalLimit (GetOffset limit) (GetLimit limit)
                                   (GetOrderByExpressions order_info)
                                   (sort_directions (GetOrderByTypes order_info))) st
                       | None \<Rightarrow> wrap (LogicalLimit (GetOffset limit) (GetLimit limit) [] []) st)
                    else st
                | None \<Rightarrow> st)
      in st\<lparr>predicates := predicates st0\<rparr>)"
  using assms
  unfolding Visit_SelectStatement.simps [of accessor op st0] Let_def case_sum_Inr_iff
  apply (elim exE conjE)
  apply (erule (3) that)
  apply simp
  done

lemma GenerateSubqueryTree_Some:
  assumes "GenerateSubqueryTree accessor expr child_id single_join st = Inr (Some (expr', st'))"
  obtains subquery_expr sub_select sub_st where
    "GetChild expr child_id = Inr subquery_expr"
    "GetExpressionType subquery_expr = ROW_SUBQUERY"
    "GetSubselect subquery_expr = Some sub_select"
    "IsSupportedSubSelect sub_select = Inr True"
    "length (GetSelectColumns sub_select) = 1"
    "Visit_SelectStatement accessor sub_select st = Inr sub_st"
    "expr' = SetChild expr child_id (GetSelectColumns sub_select ! 0)"
    "st' = sub_st\<lparr>output_expr := OperatorExpression
             (if single_join then LogicalSingleJoin else LogicalMarkJoin)
             [output_expr st, output_expr sub_st]\<rparr>"
  using assms
  unfolding GenerateSubqueryTree.simps [of accessor expr child_id single_join st] Let_def
  by (auto split: sum.splits option.splits if_splits)

lemma GenerateSubqueryTree_None:
  "GenerateSubqueryTree accessor expr child_id single_join st = Inr None \<longleftrightarrow>
     (\<exists>subquery_expr. GetChild expr child_id = Inr subquery_expr
        \<and> GetExpressionType subquery_expr \<noteq> ROW_SUBQUERY)"
  unfolding GenerateSubqueryTree.simps [of accessor expr child_id single_join st] Let_def
  by (auto split: sum.splits option.splits if_splits)

subsection \<open>Joins added on top of a tree\<close>

text \<open>
  \<open>joins_over base tree\<close>: the tree is \<open>base\<close>, or a mark join or single join whose first
  child is such a tree. This is what the visit of an expression may do to the output:
  each sub-query it rewrites puts one join between the output so far and the tree of
  the sub-select.
\<close>

fun joins_over :: "OperatorExpression \<Rightarrow> OperatorExpression \<Rightarrow> bool" where
  "joins_over base (OperatorExpression op [below, subquery]) =
     (OperatorExpression op [below, subquery] = base \<or>
      (op = LogicalMarkJoin \<or> op = LogicalSingleJoin) \<and> joins_over base below)"
| "joins_over base tree = (tree = base)"


lemma joins_over_refl [simp]: "joins_over base base"
  by (cases "(base, base)" rule: joins_over.cases) auto

lemma joins_over_trans:
  "joins_over b c \<Longrightarrow> joins_over a b \<Longrightarrow> joins_over a c"
  by (induction b c rule: joins_over.induct) auto

definition adds_joins :: "State \<Rightarrow> State \<Rightarrow> bool" where
  "adds_joins st st' \<longleftrightarrow> joins_over (output_expr st) (output_expr st') \<and> predicates st' = predicates st"

lemma adds_joins_refl [simp]: "adds_joins st st"
  by (simp add: adds_joins_def)

lemma adds_joins_trans: "adds_joins a b \<Longrightarrow> adds_joins b c \<Longrightarrow> adds_joins a c"
  by (auto simp: adds_joins_def intro: joins_over_trans)

subsection \<open>The predicates held in an operator tree\<close>

text \<open>
  The operators that hold a list of predicates are the scan and the filter;
  \<open>emitted_predicates\<close> collects the lists of a whole tree, and the tree is \<open>decomposed\<close>
  when none of these predicates has a \<open>CONJUNCTION_AND\<close> root.
\<close>

fun GetPredicates :: "LogicalOperator \<Rightarrow> AnnotatedExpression list" where
  "GetPredicates (LogicalGet database_oid namespace_oid table_oid preds alias is_for_update) = preds"
| "GetPredicates (LogicalFilter preds) = preds"
| "GetPredicates _ = []"

fun emitted_predicates :: "OperatorExpression \<Rightarrow> AnnotatedExpression list" where
  "emitted_predicates nullptr = []"
| "emitted_predicates (OperatorExpression op children) =
     GetPredicates op @ concat (map emitted_predicates children)"

definition conjunctive :: "AnnotatedExpression list \<Rightarrow> bool" where
  "conjunctive preds = list_all (\<lambda>p. GetExpressionType (GetExpr p) \<noteq> CONJUNCTION_AND) preds"

lemma conjunctive_simps [simp]:
  "conjunctive []"
  "conjunctive (ps @ qs) \<longleftrightarrow> conjunctive ps \<and> conjunctive qs"
  by (simp_all add: conjunctive_def)

lemma conjunctive_ExtractPredicates [simp]: "conjunctive (ExtractPredicates expr [])"
proof -
  have "list_all (\<lambda>p. GetExpressionType p \<noteq> CONJUNCTION_AND) (map GetExpr (ExtractPredicates expr []))"
    unfolding ExtractPredicates_conjuncts
    by (cases expr) (auto simp: SplitPredicates_Some list_all_iff dest: conjuncts_no_and)
  then show ?thesis by (simp add: conjunctive_def list_all_iff)
qed

definition decomposed :: "OperatorExpression \<Rightarrow> bool" where
  "decomposed tree = conjunctive (emitted_predicates tree)"

lemma decomposed_wrap:
  "decomposed (output_expr (wrap op st)) \<longleftrightarrow> conjunctive (GetPredicates op) \<and> decomposed (output_expr st)"
  by (simp add: wrap_def decomposed_def)

lemma decomposed_node:
  "decomposed (OperatorExpression op children) \<longleftrightarrow>
     conjunctive (GetPredicates op) \<and> list_all decomposed children"
  by (auto simp: decomposed_def conjunctive_def list_all_iff)

subsection \<open>What every visit preserves\<close>

text \<open>
  By induction along the calls of the visitor: the visit of a SELECT statement restores
  the accumulator and builds a decomposed tree; the visit of a table reference or of a
  join keeps the accumulator and the output decomposed; the visit of an expression only
  adds joins on top of the output, leaves the accumulator as it is and keeps the output
  decomposed; and the predicates that \<open>CollectPredicates\<close> pushes are decomposed.
\<close>

lemmas Visit_induct = Visit_SelectStatement_Visit_TableRef_Visit_TableRef_loop_Visit_JoinDefinition_CollectPredicates_Accept_Visit_ComparisonExpression_Visit_OperatorExpression_AcceptChildren_AcceptChildren_loop_GenerateSubqueryTree.induct

lemma visit_invariants:
  shows "\<forall>st'. Visit_SelectStatement accessor op st0 = Inr st' \<longrightarrow>
           predicates st' = predicates st0 \<and> decomposed (output_expr st')"
    and "\<forall>st'. Visit_TableRef accessor node st1 = Inr st' \<longrightarrow> conjunctive (predicates st1) \<longrightarrow>
           conjunctive (predicates st') \<and> decomposed (output_expr st')"
    and "\<forall>prev' st'. Visit_TableRef_loop accessor nodes prev st2 = Inr (prev', st') \<longrightarrow>
           conjunctive (predicates st2) \<and> decomposed prev \<longrightarrow>
           conjunctive (predicates st') \<and> decomposed prev'"
    and "\<forall>st'. Visit_JoinDefinition accessor join st3 = Inr st' \<longrightarrow> conjunctive (predicates st3) \<longrightarrow>
           conjunctive (predicates st') \<and> decomposed (output_expr st')"
    and "\<forall>st' pushed. CollectPredicates accessor e5 st5 = Inr (st', pushed) \<longrightarrow>
           adds_joins st5 st' \<and> conjunctive pushed
           \<and> (decomposed (output_expr st5) \<longrightarrow> decomposed (output_expr st'))"
    and "\<forall>e' st'. Accept accessor e6 st6 = Inr (e', st') \<longrightarrow>
           adds_joins st6 st' \<and> (decomposed (output_expr st6) \<longrightarrow> decomposed (output_expr st'))"
    and "\<forall>e' st'. Visit_ComparisonExpression accessor e7 st7 = Inr (e', st') \<longrightarrow>
           adds_joins st7 st' \<and> (decomposed (output_expr st7) \<longrightarrow> decomposed (output_expr st'))"
    and "\<forall>e' st'. Visit_OperatorExpression accessor e8 st8 = Inr (e', st') \<longrightarrow>
           adds_joins st8 st' \<and> (decomposed (output_expr st8) \<longrightarrow> decomposed (output_expr st'))"
    and "\<forall>e' st'. AcceptChildren accessor e9 st9 = Inr (e', st') \<longrightarrow>
           adds_joins st9 st' \<and> (decomposed (output_expr st9) \<longrightarrow> decomposed (output_expr st'))"
    and "\<forall>es' st'. AcceptChildren_loop accessor es st10 = Inr (es', st') \<longrightarrow>
           adds_joins st10 st' \<and> (decomposed (output_expr st10) \<longrightarrow> decomposed (output_expr st'))"
    and "\<forall>e' st'. GenerateSubqueryTree accessor e11 child_id single_join st11 = Inr (Some (e', st'))
           \<longrightarrow> adds_joins st11 st' \<and> (decomposed (output_expr st11) \<longrightarrow> decomposed (output_expr st'))"
proof (induction accessor op st0 and accessor node st1 and accessor nodes prev st2
         and accessor join st3 and accessor e5 st5 and accessor e6 st6 and accessor e7 st7
         and accessor e8 st8 and accessor e9 st9 and accessor es st10
         and accessor e11 child_id single_join st11 rule: Visit_induct)
  case (1 accessor op st0)
  show ?case
  proof (intro allI impI)
    fix st'
    assume run: "Visit_SelectStatement accessor op st0 = Inr st'"
    from run obtain b ba bb agg where
      from_eq: "(case GetSelectTable op of
            None \<Rightarrow>
              Inr (st0\<lparr>predicates := [], output_expr := OperatorExpression LogicalGet_Make []\<rparr>)
            | Some table \<Rightarrow> Visit_TableRef accessor table (st0\<lparr>predicates := []\<rparr>)) =
           Inr b"
      and where_eq: "(case GetSelectCondition op of None \<Rightarrow> Inr b
            | Some cond \<Rightarrow>
                (case CollectPredicates accessor cond b of Inl x \<Rightarrow> Inl x
                 | Inr (st, pushed) \<Rightarrow>
                    Inr (st\<lparr>predicates := predicates st @ pushed\<rparr>))) =
           Inr ba"
      and require: "RequireAggregation op = Inr bb"
      and agg_eq: "(if bb then
              (case GetSelectGroupBy op of
                 None \<Rightarrow> Inr (wrap (LogicalAggregateAndGroupBy None)
                   (if predicates ba \<noteq> []
                    then (wrap (LogicalFilter (predicates ba)) ba)\<lparr>predicates := []\<rparr>
                    else ba))
               | Some group_by \<Rightarrow>
                   (case (case GetHaving group_by of
                           Some having_expr \<Rightarrow> CollectPredicates accessor having_expr
                             (wrap (LogicalAggregateAndGroupBy (Some (GetColumns group_by)))
                               (if predicates ba \<noteq> []
                                then (wrap (LogicalFilter (predicates ba)) ba)\<lparr>predicates := []\<rparr>
                                else ba))
                         | None \<Rightarrow> Inr (wrap (LogicalAggregateAndGroupBy (Some (GetColumns group_by)))
                               (if predicates ba \<noteq> []
                                then (wrap (LogicalFilter (predicates ba)) ba)\<lparr>predicates := []\<rparr>
                                else ba), [])) of
                     Inl e \<Rightarrow> Inl e
                   | Inr (st, having) \<Rightarrow>
                       Inr (if having \<noteq> [] then wrap (LogicalFilter having) st else st)))
            else Inr (if predicates ba \<noteq> []
                    then (wrap (LogicalFilter (predicates ba)) ba)\<lparr>predicates := []\<rparr>
                    else ba)) = Inr agg"
      and st': "st' = (let st = (if IsSelectDistinct op then wrap LogicalDistinct agg else agg);
          st = (case GetSelectLimit op of
                  Some limit \<Rightarrow>
                    if GetLimit limit \<noteq> - 1 then
                      (case GetSelectOrderBy op of
                         Some order_info \<Rightarrow>
                           wrap (LogicalLimit (GetOffset limit) (GetLimit limit)
                                   (GetOrderByExpressions order_info)
                                   (sort_directions (GetOrderByTypes order_info))) st
                       | None \<Rightarrow> wrap (LogicalLimit (GetOffset limit) (GetLimit limit) [] []) st)
                    else st
                | None \<Rightarrow> st)
      in st\<lparr>predicates := predicates st0\<rparr>)"
      by (rule Visit_SelectStatement_steps)
    have final: "decomposed (output_expr st') = decomposed (output_expr agg)"
      unfolding st' Let_def by (simp add: decomposed_wrap split: option.splits)
    have from_ok: "conjunctive (predicates b) \<and> decomposed (output_expr b)"
      using from_eq "1.IH"(1) [OF refl refl]
      by (auto simp: decomposed_node split: option.splits)
    have where_ok: "conjunctive (predicates ba) \<and> decomposed (output_expr ba)"
      using where_eq "1.IH"(2) [OF refl refl from_eq] from_ok
      by (auto simp: adds_joins_def case_sum_Inr_iff split: option.splits)
    let ?filtered = "if predicates ba \<noteq> []
                    then (wrap (LogicalFilter (predicates ba)) ba)\<lparr>predicates := []\<rparr>
                    else ba"
    have filtered_ok: "decomposed (output_expr ?filtered)"
      using where_ok by (simp add: decomposed_wrap)
    have "decomposed (output_expr agg)"
    proof (cases bb)
      case False
      with agg_eq filtered_ok show ?thesis by auto
    next
      case True
      show ?thesis
      proof (cases "GetSelectGroupBy op")
        case None
        with agg_eq True filtered_ok show ?thesis by (auto simp: decomposed_wrap)
      next
        case (Some group_by)
        show ?thesis
        proof (cases "GetHaving group_by")
          case None
          with agg_eq True Some filtered_ok show ?thesis by (auto simp: decomposed_wrap)
        next
          case having: (Some having_expr)
          note IH = "1.IH"(3) [OF refl refl from_eq where_eq refl require True Some refl having]
          from agg_eq True Some having IH filtered_ok show ?thesis
            by (auto simp: decomposed_wrap case_sum_Inr_iff split: if_splits)
        qed
      qed
    qed
    with final have "decomposed (output_expr st')" by simp
    with Visit_SelectStatement_predicates [OF run]
    show "predicates st' = predicates st0 \<and> decomposed (output_expr st')" by simp
  qed
next
  case (2 accessor node st)
  show ?case
  proof (intro allI impI)
    fix st'
    assume run: "Visit_TableRef accessor node st = Inr st'" and ok: "conjunctive (predicates st)"
    show "conjunctive (predicates st') \<and> decomposed (output_expr st')"
    proof (cases "GetSelect node")
      case (Some select)
      with run "2.IH"(4) [OF Some refl refl] ok show ?thesis
        by (auto simp: Visit_TableRef.simps [of accessor node st] Let_def case_sum_Inr_iff
              decomposed_node wrap_def)
    next
      case None
      show ?thesis
      proof (cases "GetJoin node")
        case (Some join)
        with run None "2.IH"(3) [OF None Some] ok show ?thesis
          by (auto simp: Visit_TableRef.simps [of accessor node st])
      next
        case no_join: None
        show ?thesis
        proof (cases "1 < length (GetList node)")
          case False
          with run None no_join ok show ?thesis
            by (auto simp: Visit_TableRef.simps [of accessor node st] Let_def decomposed_node)
        next
          case True
          with run None no_join obtain b prev' where
            first: "Visit_TableRef accessor (GetList node ! 0) st = Inr b"
            and loop': "\<exists>s. Visit_TableRef_loop accessor (GetList node) (output_expr b) b = Inr (prev', s)
                 \<and> st' = s\<lparr>output_expr := prev'\<rparr>"
            by (auto simp: Visit_TableRef.simps [of accessor node st] case_sum_Inr_iff)
          from "2.IH"(1) [OF None no_join True] first ok
          have b_ok: "conjunctive (predicates b) \<and> decomposed (output_expr b)" by simp
          from loop' "2.IH"(2) [OF None no_join True first] b_ok show ?thesis by auto
        qed
      qed
    qed
  qed
next
  case (3 accessor prev_expr st)
  show ?case by (simp add: Visit_TableRef_loop.simps)
next
  case (4 accessor list_elem rest prev_expr st)
  show ?case
  proof (intro allI impI)
    fix prev' st'
    assume run: "Visit_TableRef_loop accessor (list_elem # rest) prev_expr st = Inr (prev', st')"
      and ok: "conjunctive (predicates st) \<and> decomposed prev_expr"
    from run obtain b where first: "Visit_TableRef accessor list_elem st = Inr b"
      and rest: "Visit_TableRef_loop accessor rest
            (OperatorExpression LogicalInnerJoin [prev_expr, output_expr b]) b = Inr (prev', st')"
      by (auto simp: Visit_TableRef_loop.simps case_sum_Inr_iff)
    from "4.IH"(1) first ok have "conjunctive (predicates b) \<and> decomposed (output_expr b)" by simp
    with "4.IH"(2) [OF first] rest ok
    show "conjunctive (predicates st') \<and> decomposed prev'"
      by (simp add: decomposed_node)
  qed
next
  case (5 accessor node st)
  show ?case
  proof (intro allI impI)
    fix st'
    assume run: "Visit_JoinDefinition accessor node st = Inr st'" and ok: "conjunctive (predicates st)"
    from run obtain b ba where
      left: "Visit_TableRef accessor (GetLeftTable node) st = Inr b"
      and right: "Visit_TableRef accessor (GetRightTable node) b = Inr ba"
      by (auto simp: Visit_JoinDefinition.simps [of accessor node st] Let_def case_sum_Inr_iff)
    from "5.IH"(1) left ok have b_ok: "conjunctive (predicates b) \<and> decomposed (output_expr b)"
      by simp
    from "5.IH"(2) [OF left refl] right b_ok
    have ba_ok: "conjunctive (predicates ba) \<and> decomposed (output_expr ba)" by simp
    show "conjunctive (predicates st') \<and> decomposed (output_expr st')"
    proof (cases "GetJoinType node = INNER_JOIN")
      case False
      with run left right b_ok ba_ok show ?thesis
        by (cases "GetJoinType node")
           (auto simp: Visit_JoinDefinition.simps [of accessor node st] Let_def decomposed_node)
    next
      case True
      with run left right obtain cond s pushed where
        cond: "GetJoinCondition node = Some cond"
        and collect: "CollectPredicates accessor cond ba = Inr (s, pushed)"
        and st': "st' = s\<lparr>predicates := predicates s @ pushed,
                         output_expr := OperatorExpression LogicalInnerJoin [output_expr b, output_expr ba]\<rparr>"
        by (auto simp: Visit_JoinDefinition.simps [of accessor node st] Let_def case_sum_Inr_iff
              split: option.splits)
      from "5.IH"(3) [OF left refl right refl True cond] collect ba_ok b_ok st'
      show ?thesis
        by (auto simp: adds_joins_def decomposed_node)
    qed
  qed
next
  case (6 accessor expr st)
  then show ?case
    by (auto simp: CollectPredicates.simps case_sum_Inr_iff)
next
  case (7 accessor expr st)
  then show ?case
    by (cases "GetClass expr") (auto simp: Accept.simps)
next
  case (8 accessor expr st)
  show ?case
  proof (intro allI impI)
    fix e' st'
    assume run: "Visit_ComparisonExpression accessor expr st = Inr (e', st')"
    then obtain e1 st1 where
      first: "(if GetExpressionType expr = COMPARE_IN then
              (case GenerateSubqueryTree accessor expr 1 False st of
                 Inl e \<Rightarrow> Inl e
               | Inr rewritten \<Rightarrow>
                   Inr (case rewritten of
                          None \<Rightarrow> (expr, st)
                        | Some (expr, st) \<Rightarrow> (SetExpressionType expr COMPARE_EQUAL, st)))
            else if is_comparison_operator (GetExpressionType expr) then
              (case BothRowSubquery expr of
                 Inl e \<Rightarrow> Inl e
               | Inr both \<Rightarrow>
               if both
               then Inl (NOT_IMPLEMENTED_EXCEPTION ''Do not support comparison between sub-select'')
               else
               case GenerateSubqueryTree accessor expr 0 True st of
                 Inl e \<Rightarrow> Inl e
               | Inr rewritten0 \<Rightarrow>
               case rewritten0 of
                 Some (expr, st) \<Rightarrow> Inr (expr, st)
               | None \<Rightarrow>
               case GenerateSubqueryTree accessor expr 1 True st of
                 Inl e \<Rightarrow> Inl e
               | Inr rewritten1 \<Rightarrow>
                   Inr (case rewritten1 of None \<Rightarrow> (expr, st) | Some (expr, st) \<Rightarrow> (expr, st)))
            else Inr (expr, st)) = Inr (e1, st1)"
      and rest: "AcceptChildren accessor e1 st1 = Inr (e', st')"
      by (auto simp: Visit_ComparisonExpression.simps [of accessor expr st] Let_def case_sum_Inr_iff)
    have "adds_joins st st1 \<and> (decomposed (output_expr st) \<longrightarrow> decomposed (output_expr st1))"
      using first "8.IH"(1,2,3)
      by (auto split: if_splits option.splits sum.splits)
    moreover have "adds_joins st1 st' \<and> (decomposed (output_expr st1) \<longrightarrow> decomposed (output_expr st'))"
      using "8.IH"(4) [OF refl first refl] rest by simp
    ultimately show "adds_joins st st' \<and> (decomposed (output_expr st) \<longrightarrow> decomposed (output_expr st'))"
      by (auto intro: adds_joins_trans)
  qed
next
  case (9 accessor expr st)
  show ?case
  proof (intro allI impI)
    fix e' st'
    assume run: "Visit_OperatorExpression accessor expr st = Inr (e', st')"
    then obtain e1 st1 where
      first: "(if GetExpressionType expr = OPERATOR_EXISTS then
              (case GenerateSubqueryTree accessor expr 0 False st of
                 Inl e \<Rightarrow> Inl e
               | Inr rewritten \<Rightarrow>
                   Inr (case rewritten of
                          None \<Rightarrow> (expr, st)
                        | Some (expr, st) \<Rightarrow> (SetExpressionType expr OPERATOR_IS_NOT_NULL, st)))
            else Inr (expr, st)) = Inr (e1, st1)"
      and rest: "AcceptChildren accessor e1 st1 = Inr (e', st')"
      by (auto simp: Visit_OperatorExpression.simps [of accessor expr st] case_sum_Inr_iff)
    have "adds_joins st st1 \<and> (decomposed (output_expr st) \<longrightarrow> decomposed (output_expr st1))"
      using first "9.IH"(1)
      by (auto split: if_splits option.splits sum.splits)
    moreover have "adds_joins st1 st' \<and> (decomposed (output_expr st1) \<longrightarrow> decomposed (output_expr st'))"
      using "9.IH"(2) [OF first refl] rest by simp
    ultimately show "adds_joins st st' \<and> (decomposed (output_expr st) \<longrightarrow> decomposed (output_expr st'))"
      by (auto intro: adds_joins_trans)
  qed
next
  case (10 accessor expr st)
  then show ?case
    by (auto simp: AcceptChildren.simps case_sum_Inr_iff)
next
  case (11 accessor st)
  show ?case by (simp add: AcceptChildren_loop.simps)
next
  case (12 accessor child rest st)
  show ?case
  proof (intro allI impI)
    fix es' st'
    assume "AcceptChildren_loop accessor (child # rest) st = Inr (es', st')"
    then obtain c1 st1 rest' where a: "Accept accessor child st = Inr (c1, st1)"
      and b: "AcceptChildren_loop accessor rest st1 = Inr (rest', st')"
      by (auto simp: AcceptChildren_loop.simps case_sum_Inr_iff)
    from "12.IH"(1) a
    have "adds_joins st st1 \<and> (decomposed (output_expr st) \<longrightarrow> decomposed (output_expr st1))" by simp
    moreover from "12.IH"(2) [OF a refl] b
    have "adds_joins st1 st' \<and> (decomposed (output_expr st1) \<longrightarrow> decomposed (output_expr st'))" by simp
    ultimately show "adds_joins st st' \<and> (decomposed (output_expr st) \<longrightarrow> decomposed (output_expr st'))"
      by (auto intro: adds_joins_trans)
  qed
next
  case (13 accessor expr child_id single_join st)
  show ?case
  proof (intro allI impI)
    fix e' st'
    assume run: "GenerateSubqueryTree accessor expr child_id single_join st = Inr (Some (e', st'))"
    from run obtain subquery_expr sub_select sub_st where
      facts: "GetChild expr child_id = Inr subquery_expr"
        "GetExpressionType subquery_expr = ROW_SUBQUERY"
        "GetSubselect subquery_expr = Some sub_select"
        "IsSupportedSubSelect sub_select = Inr True"
        "length (GetSelectColumns sub_select) = 1"
      and sub: "Visit_SelectStatement accessor sub_select st = Inr sub_st"
      and st': "st' = sub_st\<lparr>output_expr := OperatorExpression
             (if single_join then LogicalSingleJoin else LogicalMarkJoin)
             [output_expr st, output_expr sub_st]\<rparr>"
      by (rule GenerateSubqueryTree_Some)
    from "13.IH" [OF facts(1) _ facts(3,4) _ _ refl] facts(2,5) sub
    have "predicates sub_st = predicates st \<and> decomposed (output_expr sub_st)" by simp
    with st' show "adds_joins st st' \<and> (decomposed (output_expr st) \<longrightarrow> decomposed (output_expr st'))"
      by (auto simp: adds_joins_def decomposed_node)
  qed
qed

subsection \<open>The visit of an expression, conjunct by conjunct\<close>

text \<open>
  The visit changes the kind of a node in two cases only, and never to or from
  \<open>CONJUNCTION_AND\<close>; so the conjuncts of the visited expression are the visited
  conjuncts of the expression, in order.
\<close>

lemma AcceptChildren_keeps_type:
  "AcceptChildren accessor expr st = Inr (expr', st') \<Longrightarrow>
     GetExpressionType expr' = GetExpressionType expr"
  by (auto simp: AcceptChildren.simps case_sum_Inr_iff)

lemma Accept_kind:
  assumes "Accept accessor expr st = Inr (expr', st')"
  shows "GetExpressionType expr' = GetExpressionType expr
       \<or> GetExpressionType expr = COMPARE_IN \<and> GetExpressionType expr' = COMPARE_EQUAL
       \<or> GetExpressionType expr = OPERATOR_EXISTS \<and> GetExpressionType expr' = OPERATOR_IS_NOT_NULL"
proof (cases "GetClass expr")
  case parser_ComparisonExpression
  with assms show ?thesis
    by (auto simp: Accept.simps Visit_ComparisonExpression.simps [of accessor expr st] Let_def
          case_sum_Inr_iff
          dest!: AcceptChildren_keeps_type elim!: GenerateSubqueryTree_Some
          split: if_splits option.splits)
next
  case parser_OperatorExpression
  with assms show ?thesis
    by (auto simp: Accept.simps Visit_OperatorExpression.simps [of accessor expr st]
          case_sum_Inr_iff
          dest!: AcceptChildren_keeps_type elim!: GenerateSubqueryTree_Some
          split: if_splits option.splits)
next
  case parser_OtherExpression
  with assms show ?thesis
    by (auto simp: Accept.simps dest!: AcceptChildren_keeps_type)
qed

lemma Accept_conjunction:
  "GetExpressionType expr = CONJUNCTION_AND \<Longrightarrow>
     Accept accessor expr st = AcceptChildren accessor expr st"
  by (cases "GetClass expr")
     (simp_all add: Accept.simps Visit_ComparisonExpression.simps Visit_OperatorExpression.simps
        is_comparison_operator_def)

lemma AcceptChildren_loop_append:
  "AcceptChildren_loop accessor (xs @ ys) st =
     (case AcceptChildren_loop accessor xs st of
        Inl e \<Rightarrow> Inl e
      | Inr (xs', st) \<Rightarrow>
          (case AcceptChildren_loop accessor ys st of
             Inl e \<Rightarrow> Inl e
           | Inr (ys', st) \<Rightarrow> Inr (xs' @ ys', st)))"
  by (induction xs arbitrary: st)
     (auto simp: AcceptChildren_loop.simps split: sum.splits)

lemma AcceptChildren_loop_conjuncts:
  assumes "AcceptChildren_loop accessor cs st = Inr (cs', st')"
      and "\<And>c st c' st'. c \<in> set cs \<Longrightarrow> Accept accessor c st = Inr (c', st') \<Longrightarrow>
             AcceptChildren_loop accessor (conjuncts c) st = Inr (conjuncts c', st')"
  shows "AcceptChildren_loop accessor (concat (map conjuncts cs)) st =
           Inr (concat (map conjuncts cs'), st')"
  using assms
proof (induction cs arbitrary: st cs')
  case Nil
  then show ?case by (simp add: AcceptChildren_loop.simps)
next
  case (Cons c cs)
  from Cons.prems(1) obtain c' s rest' where
    c: "Accept accessor c st = Inr (c', s)"
    and rest: "AcceptChildren_loop accessor cs s = Inr (rest', st')"
    and cs': "cs' = c' # rest'"
    by (auto simp: AcceptChildren_loop.simps case_sum_Inr_iff)
  from Cons.prems(2) [OF _ c]
  have "AcceptChildren_loop accessor (conjuncts c) st = Inr (conjuncts c', s)" by simp
  moreover from Cons.IH [OF rest] Cons.prems(2)
  have "AcceptChildren_loop accessor (concat (map conjuncts cs)) s =
          Inr (concat (map conjuncts rest'), st')" by simp
  ultimately show ?case
    by (simp add: AcceptChildren_loop_append cs')
qed

lemma Accept_conjuncts:
  "Accept accessor expr st = Inr (expr', st') \<Longrightarrow>
     AcceptChildren_loop accessor (conjuncts expr) st = Inr (conjuncts expr', st')"
proof (induction expr arbitrary: st expr' st' rule: conjuncts.induct)
  case (1 expr)
  show ?case
  proof (cases "GetExpressionType expr = CONJUNCTION_AND")
    case True
    from "1.prems" True obtain cs' where
      loop: "AcceptChildren_loop accessor (GetChildren expr) st = Inr (cs', st')"
      and expr': "expr' = SetChildren expr cs'"
      by (auto simp: Accept_conjunction AcceptChildren.simps case_sum_Inr_iff)
    have "AcceptChildren_loop accessor (concat (map conjuncts (GetChildren expr))) st =
            Inr (concat (map conjuncts cs'), st')"
      using loop by (rule AcceptChildren_loop_conjuncts) (rule "1.IH" [OF True])
    with True expr' show ?thesis
      by (simp add: conjuncts.simps [of expr] conjuncts.simps [of "SetChildren expr cs'"])
  next
    case False
    with Accept_kind [OF "1.prems"] have "GetExpressionType expr' \<noteq> CONJUNCTION_AND" by auto
    with False "1.prems" show ?thesis
      by (simp add: conjuncts.simps [of expr] conjuncts.simps [of expr'] AcceptChildren_loop.simps)
  qed
qed

subsection \<open>Expressions without a sub-query\<close>

text \<open>
  The visit of an expression that holds no sub-query changes nothing, if it returns; it
  returns when every comparison it reaches has its two operands and every
  \<open>OPERATOR_EXISTS\<close> its operand (\<^verbatim>\<open>GetChild\<close> past the last child is the only way to
  fail there).
\<close>

lemma HasSubquery_child:
  "\<not> HasSubquery expr \<Longrightarrow> c \<in> set (GetChildren expr) \<Longrightarrow> \<not> HasSubquery c"
  by (subst (asm) HasSubquery.simps) (auto simp: list_ex_iff)

lemma HasSubquery_GetChild:
  "\<not> HasSubquery expr \<Longrightarrow> GetChild expr i = Inr c \<Longrightarrow> GetExpressionType c \<noteq> ROW_SUBQUERY"
  using HasSubquery_child [of expr c] HasSubquery.simps [of c]
  by (auto simp: GetChild_def split: if_splits)

lemma GenerateSubqueryTree_no_subquery:
  "\<not> HasSubquery expr \<Longrightarrow>
     GenerateSubqueryTree accessor expr i single_join st =
       (case GetChild expr i of Inl e \<Rightarrow> Inl e | Inr c \<Rightarrow> Inr None)"
  by (auto simp: GenerateSubqueryTree.simps dest: HasSubquery_GetChild split: sum.splits)

function operands_present :: "AbstractExpression \<Rightarrow> bool" where
  "operands_present expr \<longleftrightarrow>
     (GetClass expr = parser_ComparisonExpression
        \<and> (GetExpressionType expr = COMPARE_IN \<or> is_comparison_operator (GetExpressionType expr))
        \<longrightarrow> 2 \<le> length (GetChildren expr))
   \<and> (GetClass expr = parser_OperatorExpression \<and> GetExpressionType expr = OPERATOR_EXISTS
        \<longrightarrow> 1 \<le> length (GetChildren expr))
   \<and> list_all operands_present (GetChildren expr)"
  by pat_completeness auto
termination
  by (relation "measure size") (auto simp: size_child)

declare operands_present.simps [simp del]

lemma operands_present_node:
  "operands_present (AbstractExpression t cs d a tn cn cl ss) \<longleftrightarrow>
     (cl = parser_ComparisonExpression \<and> (t = COMPARE_IN \<or> is_comparison_operator t)
        \<longrightarrow> 2 \<le> length cs)
   \<and> (cl = parser_OperatorExpression \<and> t = OPERATOR_EXISTS \<longrightarrow> 1 \<le> length cs)
   \<and> list_all operands_present cs"
  by (subst operands_present.simps) simp

lemma Accept_no_subquery_step:
  assumes "\<not> HasSubquery expr"
  shows "\<forall>r. Accept accessor expr st = Inr r \<longrightarrow> AcceptChildren accessor expr st = Inr r"
    and "operands_present expr \<Longrightarrow> Accept accessor expr st = AcceptChildren accessor expr st"
proof -
  note gen = GenerateSubqueryTree_no_subquery [OF assms]
  show "\<forall>r. Accept accessor expr st = Inr r \<longrightarrow> AcceptChildren accessor expr st = Inr r"
    by (cases "GetClass expr")
       (auto simp: Accept.simps Visit_ComparisonExpression.simps [of accessor expr st]
          Visit_OperatorExpression.simps [of accessor expr st] Let_def gen
          split: if_splits sum.splits)
  assume "operands_present expr"
  then have two: "GetClass expr = parser_ComparisonExpression \<Longrightarrow>
        GetExpressionType expr = COMPARE_IN \<or> is_comparison_operator (GetExpressionType expr) \<Longrightarrow>
        2 \<le> length (GetChildren expr)"
    and one: "GetClass expr = parser_OperatorExpression \<Longrightarrow> GetExpressionType expr = OPERATOR_EXISTS
        \<Longrightarrow> 1 \<le> length (GetChildren expr)"
    by (subst (asm) operands_present.simps, simp)+
  have first: "GetExpressionType (GetChildren expr ! 0) \<noteq> ROW_SUBQUERY" if "1 \<le> length (GetChildren expr)"
    using HasSubquery_GetChild [OF assms, of 0] that
    by (cases "GetChildren expr") (auto simp: GetChild_def)
  show "Accept accessor expr st = AcceptChildren accessor expr st"
  proof (cases "GetClass expr")
    case parser_ComparisonExpression
    show ?thesis
      using two [OF parser_ComparisonExpression] first
      by (auto simp: Accept.simps parser_ComparisonExpression
            Visit_ComparisonExpression.simps [of accessor expr st] Let_def gen
            BothRowSubquery_def GetChildType_def GetChild_def)
  next
    case parser_OperatorExpression
    show ?thesis
      using one [OF parser_OperatorExpression]
      by (auto simp: Accept.simps parser_OperatorExpression
            Visit_OperatorExpression.simps [of accessor expr st] gen GetChild_def)
  next
    case parser_OtherExpression
    then show ?thesis by (simp add: Accept.simps)
  qed
qed

lemma AcceptChildren_loop_unchanged:
  assumes "\<And>c st c' st'. c \<in> set cs \<Longrightarrow> Accept accessor c st = Inr (c', st') \<Longrightarrow> c' = c \<and> st' = st"
      and "AcceptChildren_loop accessor cs st = Inr (cs', st')"
  shows "cs' = cs \<and> st' = st"
  using assms
proof (induction cs arbitrary: cs')
  case Nil
  then show ?case by (simp add: AcceptChildren_loop.simps)
next
  case (Cons c cs)
  from Cons.prems(2) obtain c' s rest' where
    c: "Accept accessor c st = Inr (c', s)"
    and rest: "AcceptChildren_loop accessor cs s = Inr (rest', st')"
    and cs': "cs' = c' # rest'"
    by (auto simp: AcceptChildren_loop.simps case_sum_Inr_iff)
  from Cons.prems(1) [OF _ c] have same: "c' = c" "s = st" by simp_all
  from Cons.IH [OF Cons.prems(1)] rest same have "rest' = cs \<and> st' = st" by simp
  with cs' same show ?case by simp
qed

lemma AcceptChildren_loop_returns:
  assumes "\<And>c st. c \<in> set cs \<Longrightarrow> Accept accessor c st = Inr (c, st)"
  shows "AcceptChildren_loop accessor cs st = Inr (cs, st)"
  using assms by (induction cs) (simp_all add: AcceptChildren_loop.simps)

lemma Accept_no_subquery:
  "\<not> HasSubquery expr \<Longrightarrow>
     (\<forall>expr' st'. Accept accessor expr st = Inr (expr', st') \<longrightarrow> expr' = expr \<and> st' = st)
   \<and> (operands_present expr \<longrightarrow> Accept accessor expr st = Inr (expr, st))"
proof (induction expr arbitrary: st rule: measure_induct_rule [of size])
  case (less expr)
  note free = HasSubquery_child [OF less.prems]
  have unchanged: "expr' = expr \<and> st' = st" if "Accept accessor expr st = Inr (expr', st')" for expr' st'
  proof -
    from Accept_no_subquery_step(1) [OF less.prems, of accessor st, rule_format, OF that]
    obtain cs' where loop: "AcceptChildren_loop accessor (GetChildren expr) st = Inr (cs', st')"
      and expr': "expr' = SetChildren expr cs'"
      by (auto simp: AcceptChildren.simps case_sum_Inr_iff)
    have "cs' = GetChildren expr \<and> st' = st"
      using _ loop
    proof (rule AcceptChildren_loop_unchanged)
      fix c s c' s'
      assume "c \<in> set (GetChildren expr)" and "Accept accessor c s = Inr (c', s')"
      with less.IH [OF size_child free] show "c' = c \<and> s' = s" by blast
    qed
    with expr' show ?thesis by simp
  qed
  have returns: "Accept accessor expr st = Inr (expr, st)" if present: "operands_present expr"
  proof -
    from present have children: "\<forall>c \<in> set (GetChildren expr). operands_present c"
      by (subst (asm) operands_present.simps) (simp add: list_all_iff)
    have "AcceptChildren_loop accessor (GetChildren expr) st = Inr (GetChildren expr, st)"
    proof (rule AcceptChildren_loop_returns)
      fix c s
      assume "c \<in> set (GetChildren expr)"
      with less.IH [OF size_child free] children show "Accept accessor c s = Inr (c, s)" by blast
    qed
    then show ?thesis
      by (simp add: Accept_no_subquery_step(2) [OF less.prems present] AcceptChildren.simps)
  qed
  from unchanged returns show ?case by blast
qed

section \<open>Claim C1: the implicit join\<close>

definition TableGet :: "CatalogAccessor \<Rightarrow> TableRef \<Rightarrow> OperatorExpression" where
  "TableGet accessor node =
     OperatorExpression
       (LogicalGet (GetDatabaseOid accessor (GetDatabaseName node)) (GetDefaultNamespace accessor)
          (GetTableOid accessor (GetTableRefName node)) [] (GetTableAlias node) False) []"

definition InnerJoin :: "OperatorExpression \<Rightarrow> OperatorExpression \<Rightarrow> OperatorExpression" where
  "InnerJoin left_expr right_expr = OperatorExpression LogicalInnerJoin [left_expr, right_expr]"

text \<open>
  The loop of the implicit join runs over every entry of the list, the first included:
  over base tables it joins the first table with itself before it joins the others.
\<close>

lemma Visit_TableRef_loop_base_tables:
  "Visit_TableRef_loop accessor (map (\<lambda>(a, n, d). BaseTable a n d) tables) prev_expr st =
     Inr (foldl (\<lambda>prev (a, n, d). InnerJoin prev (TableGet accessor (BaseTable a n d)))
            prev_expr tables,
          if tables = [] then st
          else st\<lparr>output_expr := TableGet accessor (case last tables of (a, n, d) \<Rightarrow> BaseTable a n d)\<rparr>)"
proof (induction tables arbitrary: prev_expr st)
  case Nil
  show ?case by (simp add: Visit_simps)
next
  case (Cons t tables)
  obtain a n d where t: "t = (a, n, d)" by (cases t)
  have visit: "Visit_TableRef accessor (BaseTable a n d) st =
      Inr (st\<lparr>output_expr := TableGet accessor (BaseTable a n d)\<rparr>)" for st
    by (simp add: Visit_TableRef.simps BaseTable_def TableGet_def)
  show ?case
    by (simp add: t Visit_TableRef_loop.simps visit Cons.IH InnerJoin_def)
qed

text \<open>
  Claim C1 does not hold of the code. For the list \<open>t1, t2, t3\<close> the claim has the tree
  \<open>InnerJoin (InnerJoin (Get t1) (Get t2)) (Get t3)\<close> with three scans and two joins.
  The code visits the first entry, and then its loop visits every entry of the list
  again, the first one too: the tree it builds has four scans and three joins, with
  \<open>t1\<close> joined to itself at the bottom.
\<close>

theorem implicit_join_visits_first_entry_twice:
  "Visit_TableRef accessor
     (TableRef a n d None [BaseTable a1 n1 d1, BaseTable a2 n2 d2, BaseTable a3 n3 d3] None) st
   = Inr (st\<lparr>output_expr :=
        InnerJoin
          (InnerJoin
             (InnerJoin (TableGet accessor (BaseTable a1 n1 d1))
                        (TableGet accessor (BaseTable a1 n1 d1)))
             (TableGet accessor (BaseTable a2 n2 d2)))
          (TableGet accessor (BaseTable a3 n3 d3))\<rparr>)"
  by (simp add: Visit_simps TableGet_def InnerJoin_def BaseTable_def Let_def)

section \<open>Claim C2: the order of the operators above the FROM clause\<close>

text \<open>The layers, each as a function of the tree below it.\<close>

definition Filter_layer :: "AnnotatedExpression list \<Rightarrow> OperatorExpression \<Rightarrow> OperatorExpression" where
  "Filter_layer conjuncts_found below =
     (if conjuncts_found \<noteq> [] then OperatorExpression (LogicalFilter conjuncts_found) [below]
      else below)"

definition Aggregate_layer ::
  "bool \<Rightarrow> GroupByDescription option \<Rightarrow> OperatorExpression \<Rightarrow> OperatorExpression" where
  "Aggregate_layer require group_by below =
     (if require
      then OperatorExpression (LogicalAggregateAndGroupBy (map_option GetColumns group_by)) [below]
      else below)"

definition Distinct_layer :: "bool \<Rightarrow> OperatorExpression \<Rightarrow> OperatorExpression" where
  "Distinct_layer is_distinct below =
     (if is_distinct then OperatorExpression LogicalDistinct [below] else below)"

definition Limit_layer ::
  "LimitDescription option \<Rightarrow> OrderByDescription option \<Rightarrow> OperatorExpression
     \<Rightarrow> OperatorExpression" where
  "Limit_layer limit order_by below =
     (case limit of
        None \<Rightarrow> below
      | Some l \<Rightarrow>
          if GetLimit l \<noteq> - 1
          then OperatorExpression
                 (LogicalLimit (GetOffset l) (GetLimit l)
                    (case order_by of None \<Rightarrow> [] | Some order_info \<Rightarrow> GetOrderByExpressions order_info)
                    (case order_by of None \<Rightarrow> []
                     | Some order_info \<Rightarrow> sort_directions (GetOrderByTypes order_info)))
                 [below]
          else below)"


lemma filter_step:
  "(if predicates s \<noteq> [] then (wrap (LogicalFilter (predicates s)) s)\<lparr>predicates := []\<rparr> else s)
     = s\<lparr>predicates := [], output_expr := Filter_layer (predicates s) (output_expr s)\<rparr>"
  by (simp add: wrap_def Filter_layer_def)

lemma distinct_step:
  "(if is_distinct then wrap LogicalDistinct s else s)
     = s\<lparr>output_expr := Distinct_layer is_distinct (output_expr s)\<rparr>"
  by (simp add: wrap_def Distinct_layer_def)

lemma limit_step:
  "(case limit of
      Some l \<Rightarrow>
        if GetLimit l \<noteq> - 1 then
          (case order_by of
             Some order_info \<Rightarrow>
               wrap (LogicalLimit (GetOffset l) (GetLimit l)
                       (GetOrderByExpressions order_info)
                       (sort_directions (GetOrderByTypes order_info))) s
           | None \<Rightarrow> wrap (LogicalLimit (GetOffset l) (GetLimit l) [] []) s)
        else s
    | None \<Rightarrow> s)
     = s\<lparr>output_expr := Limit_layer limit order_by (output_expr s)\<rparr>"
  by (simp add: wrap_def Limit_layer_def split: option.splits)

lemma aggregate_step:
  assumes "(if require then
              (case group_by of
                 None \<Rightarrow> Inr (wrap (LogicalAggregateAndGroupBy None) s)
               | Some g \<Rightarrow>
                   case (case GetHaving g of
                           Some having_expr \<Rightarrow>
                             CollectPredicates accessor having_expr
                               (wrap (LogicalAggregateAndGroupBy (Some (GetColumns g))) s)
                         | None \<Rightarrow> Inr (wrap (LogicalAggregateAndGroupBy (Some (GetColumns g))) s, [])) of
                     Inl e \<Rightarrow> Inl e
                   | Inr (st, having) \<Rightarrow>
                       Inr (if having \<noteq> [] then wrap (LogicalFilter having) st else st))
            else Inr s) = Inr agg_st"
  shows "\<exists>having_st having.
      (case (if require then Option.bind group_by GetHaving else None) of
         Some having_expr \<Rightarrow>
           CollectPredicates accessor having_expr
             (s\<lparr>output_expr := Aggregate_layer require group_by (output_expr s)\<rparr>)
           = Inr (having_st, having)
       | None \<Rightarrow>
           having = [] \<and>
           having_st = s\<lparr>output_expr := Aggregate_layer require group_by (output_expr s)\<rparr>)
    \<and> agg_st = having_st\<lparr>output_expr := Filter_layer having (output_expr having_st)\<rparr>"
proof (cases require)
  case False
  with assms show ?thesis by (simp add: Aggregate_layer_def Filter_layer_def)
next
  case True
  show ?thesis
  proof (cases group_by)
    case None
    with assms True show ?thesis
      by (simp add: Aggregate_layer_def Filter_layer_def wrap_def)
  next
    case (Some g)
    show ?thesis
    proof (cases "GetHaving g")
      case None
      with assms True Some show ?thesis
        by (simp add: Aggregate_layer_def Filter_layer_def wrap_def)
    next
      case having_expr: (Some having_expr)
      with assms True Some obtain having_st having where
        "CollectPredicates accessor having_expr
           (wrap (LogicalAggregateAndGroupBy (Some (GetColumns g))) s) = Inr (having_st, having)"
        and "agg_st = (if having \<noteq> [] then wrap (LogicalFilter having) having_st else having_st)"
        by (auto simp: case_sum_Inr_iff)
      with True Some having_expr show ?thesis
        by (simp add: Aggregate_layer_def Filter_layer_def wrap_def)
    qed
  qed
qed

text \<open>
  What \<open>CollectPredicates\<close> returns: it visits the conjuncts of the expression in order,
  which only adds joins on top of the output, and pushes each visited conjunct with its
  table aliases. Conjuncts without a sub-query are pushed as they stand.
\<close>

lemma CollectPredicates_result:
  assumes "CollectPredicates accessor expr st = Inr (st', pushed)"
  obtains visited where
    "AcceptChildren_loop accessor (conjuncts expr) st = Inr (visited, st')"
    "pushed = map annotate visited"
    "joins_over (output_expr st) (output_expr st')"
    "predicates st' = predicates st"
    "\<not> HasSubquery expr \<Longrightarrow> visited = conjuncts expr \<and> st' = st"
proof -
  from assms obtain expr' where visit: "Accept accessor expr st = Inr (expr', st')"
    and pushed: "pushed = ExtractPredicates (Some expr') []"
    by (auto simp: CollectPredicates.simps case_sum_Inr_iff)
  show thesis
  proof (rule that [of "conjuncts expr'"])
    show "AcceptChildren_loop accessor (conjuncts expr) st = Inr (conjuncts expr', st')"
      using visit by (rule Accept_conjuncts)
    show "pushed = map annotate (conjuncts expr')"
      by (simp add: pushed ExtractPredicates_annotate)
    from visit_invariants(6) [of accessor expr st] visit
    show "joins_over (output_expr st) (output_expr st')" and "predicates st' = predicates st"
      by (simp_all add: adds_joins_def)
    show "conjuncts expr' = conjuncts expr \<and> st' = st" if "\<not> HasSubquery expr"
      using Accept_no_subquery [OF that, of accessor st] visit by simp
  qed
qed

lemma Visit_SelectStatement_layers:
  assumes "Visit_SelectStatement accessor op st = Inr st'"
  shows "\<exists>from_st where_st require having_st having.
      (case GetSelectTable op of
         Some table \<Rightarrow> Visit_TableRef accessor table (st\<lparr>predicates := []\<rparr>) = Inr from_st
       | None \<Rightarrow> from_st = st\<lparr>predicates := [], output_expr := OperatorExpression LogicalGet_Make []\<rparr>)
    \<and> (case GetSelectCondition op of
         Some cond \<Rightarrow>
           (\<exists>s pushed. CollectPredicates accessor cond from_st = Inr (s, pushed)
              \<and> where_st = s\<lparr>predicates := predicates s @ pushed\<rparr>)
       | None \<Rightarrow> where_st = from_st)
    \<and> RequireAggregation op = Inr require
    \<and> (case (if require then Option.bind (GetSelectGroupBy op) GetHaving else None) of
         Some having_expr \<Rightarrow>
           CollectPredicates accessor having_expr
             (where_st\<lparr>predicates := [],
                output_expr := Aggregate_layer require (GetSelectGroupBy op)
                  (Filter_layer (predicates where_st) (output_expr where_st))\<rparr>)
           = Inr (having_st, having)
       | None \<Rightarrow>
           having = [] \<and>
           output_expr having_st = Aggregate_layer require (GetSelectGroupBy op)
             (Filter_layer (predicates where_st) (output_expr where_st)))
    \<and> output_expr st' =
        Limit_layer (GetSelectLimit op) (GetSelectOrderBy op)
          (Distinct_layer (IsSelectDistinct op)
             (Filter_layer having (output_expr having_st)))"
  using assms
  unfolding Visit_SelectStatement.simps [of accessor op st] Let_def
    filter_step distinct_step limit_step case_sum_Inr_iff
  apply (elim exE conjE)
  apply (drule aggregate_step)
  apply (elim exE conjE)
  subgoal for from_st where_st require agg_st having_st having
    apply (rule exI [of _ from_st])
    apply (rule exI [of _ where_st])
    apply (rule exI [of _ require])
    apply (rule exI [of _ having_st])
    apply (rule exI [of _ having])
    apply (intro conjI)
    subgoal by (auto split: option.splits)
    subgoal by (auto simp: case_sum_Inr_iff split: option.splits)
    subgoal by simp
    subgoal by (auto split: option.splits)
    subgoal by auto
    done
  done



text \<open>
  Claim C2. When the visit of a SELECT statement returns, its output is built from the
  bottom in this order.

  \<^item> The tree of the FROM clause, the output in \<open>from_st\<close>.
  \<^item> The conjuncts of the WHERE clause are visited in order from there. The visit adds
    the joins of their sub-queries on top of the tree and gives \<open>where_conjuncts\<close>; a
    clause without sub-queries leaves the tree as it is and its conjuncts as they stand.
  \<^item> A Filter that holds the predicate accumulator, which is the join predicates of the
    FROM clause followed by the visited conjuncts of the WHERE clause; it is there when
    the accumulator is not empty.
  \<^item> The aggregation, when \<open>RequireAggregation\<close> says so.
  \<^item> The conjuncts of the HAVING clause are visited from there, which again only adds
    joins; then a Filter that holds the visited conjuncts, when there are any.
  \<^item> Distinct, when the select is distinct.
  \<^item> Limit, which is there if and only if the statement has a limit clause whose limit
    is not \<open>- 1\<close>.
\<close>

theorem select_wrapping_order:
  assumes "Visit_SelectStatement accessor op st = Inr st'"
  shows "\<exists>from_st where_st where_conjuncts require below_having having_st having_conjuncts.
      (case GetSelectTable op of
         Some table \<Rightarrow> Visit_TableRef accessor table (st\<lparr>predicates := []\<rparr>) = Inr from_st
       | None \<Rightarrow> from_st = st\<lparr>predicates := [], output_expr := OperatorExpression LogicalGet_Make []\<rparr>)
    \<and> (case GetSelectCondition op of
         Some cond \<Rightarrow>
           AcceptChildren_loop accessor (conjuncts cond) from_st = Inr (where_conjuncts, where_st)
           \<and> (\<not> HasSubquery cond \<longrightarrow> where_conjuncts = conjuncts cond \<and> where_st = from_st)
       | None \<Rightarrow> where_conjuncts = [] \<and> where_st = from_st)
    \<and> joins_over (output_expr from_st) (output_expr where_st)
    \<and> predicates where_st = predicates from_st
    \<and> RequireAggregation op = Inr require
    \<and> below_having =
          Aggregate_layer require (GetSelectGroupBy op)
            (Filter_layer (predicates from_st @ map annotate where_conjuncts) (output_expr where_st))
    \<and> (case (if require then Option.bind (GetSelectGroupBy op) GetHaving else None) of
         Some having_expr \<Rightarrow>
           AcceptChildren_loop accessor (conjuncts having_expr)
             \<lparr>output_expr = below_having, predicates = []\<rparr> = Inr (having_conjuncts, having_st)
           \<and> (\<not> HasSubquery having_expr \<longrightarrow>
                 having_conjuncts = conjuncts having_expr \<and> output_expr having_st = below_having)
       | None \<Rightarrow> having_conjuncts = [] \<and> output_expr having_st = below_having)
    \<and> joins_over below_having (output_expr having_st)
    \<and> output_expr st' =
        Limit_layer (GetSelectLimit op) (GetSelectOrderBy op)
          (Distinct_layer (IsSelectDistinct op)
             (Filter_layer (map annotate having_conjuncts) (output_expr having_st)))"
proof -
  from Visit_SelectStatement_layers [OF assms]
  obtain from_st s require having_st having where
    from_eq: "(case GetSelectTable op of
         Some table \<Rightarrow> Visit_TableRef accessor table (st\<lparr>predicates := []\<rparr>) = Inr from_st
       | None \<Rightarrow> from_st = st\<lparr>predicates := [], output_expr := OperatorExpression LogicalGet_Make []\<rparr>)"
    and where_eq: "(case GetSelectCondition op of
         Some cond \<Rightarrow>
           (\<exists>s' pushed. CollectPredicates accessor cond from_st = Inr (s', pushed)
              \<and> s = s'\<lparr>predicates := predicates s' @ pushed\<rparr>)
       | None \<Rightarrow> s = from_st)"
    and require: "RequireAggregation op = Inr require"
    and having_eq: "(case (if require then Option.bind (GetSelectGroupBy op) GetHaving else None) of
         Some having_expr \<Rightarrow>
           CollectPredicates accessor having_expr
             (s\<lparr>predicates := [],
                output_expr := Aggregate_layer require (GetSelectGroupBy op)
                  (Filter_layer (predicates s) (output_expr s))\<rparr>)
           = Inr (having_st, having)
       | None \<Rightarrow>
           having = [] \<and>
           output_expr having_st = Aggregate_layer require (GetSelectGroupBy op)
             (Filter_layer (predicates s) (output_expr s)))"
    and top: "output_expr st' =
        Limit_layer (GetSelectLimit op) (GetSelectOrderBy op)
          (Distinct_layer (IsSelectDistinct op)
             (Filter_layer having (output_expr having_st)))"
    by blast
  obtain where_st where_conjuncts where
    where_visit: "(case GetSelectCondition op of
         Some cond \<Rightarrow>
           AcceptChildren_loop accessor (conjuncts cond) from_st = Inr (where_conjuncts, where_st)
           \<and> (\<not> HasSubquery cond \<longrightarrow> where_conjuncts = conjuncts cond \<and> where_st = from_st)
       | None \<Rightarrow> where_conjuncts = [] \<and> where_st = from_st)"
    and where_joins: "joins_over (output_expr from_st) (output_expr where_st)"
    and where_predicates: "predicates where_st = predicates from_st"
    and s: "s = where_st\<lparr>predicates := predicates from_st @ map annotate where_conjuncts\<rparr>"
  proof (cases "GetSelectCondition op")
    case None
    with where_eq that [of "[]" from_st] show thesis by simp
  next
    case (Some cond)
    with where_eq obtain s' pushed where
      collect: "CollectPredicates accessor cond from_st = Inr (s', pushed)"
      and s: "s = s'\<lparr>predicates := predicates s' @ pushed\<rparr>"
      by auto
    from collect show thesis
    proof (rule CollectPredicates_result)
      fix visited
      assume "AcceptChildren_loop accessor (conjuncts cond) from_st = Inr (visited, s')"
        "pushed = map annotate visited"
        "joins_over (output_expr from_st) (output_expr s')"
        "predicates s' = predicates from_st"
        "\<not> HasSubquery cond \<Longrightarrow> visited = conjuncts cond \<and> s' = from_st"
      with Some s show thesis
        by (intro that [of visited s']) auto
    qed
  qed
  define below_having where "below_having =
    Aggregate_layer require (GetSelectGroupBy op)
      (Filter_layer (predicates from_st @ map annotate where_conjuncts) (output_expr where_st))"
  have having_state: "s\<lparr>predicates := [],
                output_expr := Aggregate_layer require (GetSelectGroupBy op)
                  (Filter_layer (predicates s) (output_expr s))\<rparr>
      = \<lparr>output_expr = below_having, predicates = []\<rparr>"
    by (simp add: s below_having_def)
  have below: "Aggregate_layer require (GetSelectGroupBy op)
             (Filter_layer (predicates s) (output_expr s)) = below_having"
    by (simp add: s below_having_def)
  obtain having_conjuncts where
    having_visit: "(case (if require then Option.bind (GetSelectGroupBy op) GetHaving else None) of
         Some having_expr \<Rightarrow>
           AcceptChildren_loop accessor (conjuncts having_expr)
             \<lparr>output_expr = below_having, predicates = []\<rparr> = Inr (having_conjuncts, having_st)
           \<and> (\<not> HasSubquery having_expr \<longrightarrow>
                 having_conjuncts = conjuncts having_expr \<and> output_expr having_st = below_having)
       | None \<Rightarrow> having_conjuncts = [] \<and> output_expr having_st = below_having)"
    and having_joins: "joins_over below_having (output_expr having_st)"
    and having: "having = map annotate having_conjuncts"
  proof (cases "if require then Option.bind (GetSelectGroupBy op) GetHaving else None")
    case None
    with having_eq that [of "[]"] show thesis by (simp add: below)
  next
    case (Some having_expr)
    with having_eq have
      "CollectPredicates accessor having_expr \<lparr>output_expr = below_having, predicates = []\<rparr>
         = Inr (having_st, having)"
      by (simp add: having_state)
    then show thesis
    proof (rule CollectPredicates_result)
      fix visited
      assume "AcceptChildren_loop accessor (conjuncts having_expr)
                \<lparr>output_expr = below_having, predicates = []\<rparr> = Inr (visited, having_st)"
        "having = map annotate visited"
        "joins_over (output_expr \<lparr>output_expr = below_having, predicates = []\<rparr>) (output_expr having_st)"
        "\<not> HasSubquery having_expr \<Longrightarrow>
           visited = conjuncts having_expr \<and> having_st = \<lparr>output_expr = below_having, predicates = []\<rparr>"
      with Some show thesis
        by (intro that [of visited]) auto
    qed
  qed
  from from_eq where_visit where_joins where_predicates require below_having_def
    having_visit having_joins top [unfolded having]
  show ?thesis by blast
qed

text \<open>
  \<^verbatim>\<open>SELECT DISTINCT a FROM t WHERE a IN (SELECT b FROM u) GROUP BY a HAVING a = 1 ORDER BY a LIMIT 5\<close>:
  the mark join of the sub-query sits between the scan of \<open>t\<close> and the Filter of the WHERE
  clause, which holds the rewritten conjunct.
\<close>

definition layered_select :: SelectStatement where
  "layered_select =
     SelectStatement [ColumnValueExpression ''t'' ''a'' 0] True
       (Some (BaseTable ''t'' ''t'' ''db'')) (Some in_subquery)
       (Some (GroupByDescription [ColumnValueExpression ''t'' ''a'' 0] (Some example_where)))
       (Some (OrderByDescription [kOrderAsc] [ColumnValueExpression ''t'' ''a'' 0]))
       (Some \<lparr>GetLimit = 5, GetOffset = 0\<rparr>) 0"

definition rewritten_in_subquery :: AbstractExpression where
  "rewritten_in_subquery =
     ComparisonExpression COMPARE_EQUAL
       [ColumnValueExpression ''t'' ''a'' 0, ColumnValueExpression ''u'' ''b'' 1] 0"

definition layered_tree :: OperatorExpression where
  "layered_tree =
     OperatorExpression (LogicalLimit 0 5 [ColumnValueExpression ''t'' ''a'' 0] [ASC])
       [OperatorExpression LogicalDistinct
          [OperatorExpression (LogicalFilter [AnnotatedExpression example_where {''t''}])
             [OperatorExpression
                (LogicalAggregateAndGroupBy (Some [ColumnValueExpression ''t'' ''a'' 0]))
                [OperatorExpression
                   (LogicalFilter [AnnotatedExpression rewritten_in_subquery {''u'', ''t''}])
                   [OperatorExpression LogicalMarkJoin
                      [OperatorExpression (LogicalGet 1 2 10 [] ''t'' False) [],
                       OperatorExpression (LogicalGet 1 2 11 [] ''u'' False) []]]]]]]"

theorem select_wrapping_order_witness:
  "Visit_SelectStatement example_accessor layered_select initial_state
     = Inr \<lparr>output_expr = layered_tree, predicates = []\<rparr>
   \<and> (\<exists>from_st where_st where_conjuncts below_having (having_st :: State).
        Visit_TableRef example_accessor (BaseTable ''t'' ''t'' ''db'') initial_state = Inr from_st
      \<and> AcceptChildren_loop example_accessor [in_subquery] from_st = Inr (where_conjuncts, where_st)
      \<and> joins_over (output_expr from_st) (output_expr where_st)
      \<and> predicates where_st = predicates from_st
      \<and> below_having =
          OperatorExpression (LogicalAggregateAndGroupBy (Some [ColumnValueExpression ''t'' ''a'' 0]))
            [Filter_layer (predicates from_st @ map annotate where_conjuncts) (output_expr where_st)]
      \<and> output_expr having_st = below_having
      \<and> layered_tree =
          OperatorExpression (LogicalLimit 0 5 [ColumnValueExpression ''t'' ''a'' 0] [ASC])
            [OperatorExpression LogicalDistinct
               [OperatorExpression (LogicalFilter [annotate example_where])
                  [output_expr having_st]]])"
proof -
  have run: "Visit_SelectStatement example_accessor layered_select initial_state
     = Inr \<lparr>output_expr = layered_tree, predicates = []\<rparr>"
    by (simp add: layered_select_def layered_tree_def rewritten_in_subquery_def in_subquery_def
          example_subselect_def example_where_def example_accessor_def initial_state_def
          evaluation)
  have fields: "GetSelectTable layered_select = Some (BaseTable ''t'' ''t'' ''db'')"
    "GetSelectCondition layered_select = Some in_subquery"
    "GetSelectGroupBy layered_select
       = Some (GroupByDescription [ColumnValueExpression ''t'' ''a'' 0] (Some example_where))"
    "IsSelectDistinct layered_select"
    "GetSelectLimit layered_select = Some \<lparr>GetLimit = 5, GetOffset = 0\<rparr>"
    "GetSelectOrderBy layered_select
       = Some (OrderByDescription [kOrderAsc] [ColumnValueExpression ''t'' ''a'' 0])"
    by (simp_all add: layered_select_def)
  have require: "RequireAggregation layered_select = Inr True"
    by (simp add: layered_select_def RequireAggregation_def)
  have clauses: "conjuncts in_subquery = [in_subquery]" "HasSubquery in_subquery"
    "conjuncts example_where = [example_where]" "\<not> HasSubquery example_where"
    by (simp_all add: in_subquery_def example_where_def expression_constructors
          conjuncts_node HasSubquery_node)
  from select_wrapping_order [OF run]
  obtain from_st where_st where_conjuncts require below_having having_st having_conjuncts where
    a1: "(case GetSelectTable layered_select of
         Some table \<Rightarrow>
           Visit_TableRef example_accessor table (initial_state\<lparr>predicates := []\<rparr>) = Inr from_st
       | None \<Rightarrow> from_st = initial_state\<lparr>predicates := [],
                    output_expr := OperatorExpression LogicalGet_Make []\<rparr>)"
    and a2: "(case GetSelectCondition layered_select of
         Some cond \<Rightarrow>
           AcceptChildren_loop example_accessor (conjuncts cond) from_st
             = Inr (where_conjuncts, where_st)
           \<and> (\<not> HasSubquery cond \<longrightarrow> where_conjuncts = conjuncts cond \<and> where_st = from_st)
       | None \<Rightarrow> where_conjuncts = [] \<and> where_st = from_st)"
    and a3: "joins_over (output_expr from_st) (output_expr where_st)"
    and a4: "predicates where_st = predicates from_st"
    and a5: "RequireAggregation layered_select = Inr require"
    and a6: "below_having =
          Aggregate_layer require (GetSelectGroupBy layered_select)
            (Filter_layer (predicates from_st @ map annotate where_conjuncts) (output_expr where_st))"
    and a7: "(case (if require then Option.bind (GetSelectGroupBy layered_select) GetHaving else None) of
         Some having_expr \<Rightarrow>
           AcceptChildren_loop example_accessor (conjuncts having_expr)
             \<lparr>output_expr = below_having, predicates = []\<rparr> = Inr (having_conjuncts, having_st)
           \<and> (\<not> HasSubquery having_expr \<longrightarrow>
                 having_conjuncts = conjuncts having_expr \<and> output_expr having_st = below_having)
       | None \<Rightarrow> having_conjuncts = [] \<and> output_expr having_st = below_having)"
    and a8: "joins_over below_having (output_expr having_st)"
    and a9: "output_expr \<lparr>output_expr = layered_tree, predicates = []\<rparr> =
        Limit_layer (GetSelectLimit layered_select) (GetSelectOrderBy layered_select)
          (Distinct_layer (IsSelectDistinct layered_select)
             (Filter_layer (map annotate having_conjuncts) (output_expr having_st)))"
    apply (elim exE conjE)
    apply (rule that)
    apply assumption+
    done
  from a5 require have required: "require" by simp
  have b1: "Visit_TableRef example_accessor (BaseTable ''t'' ''t'' ''db'') initial_state = Inr from_st"
    using a1 by (simp add: fields initial_state_def)
  have b2: "AcceptChildren_loop example_accessor [in_subquery] from_st = Inr (where_conjuncts, where_st)"
    using a2 by (simp add: fields clauses)
  have b6: "below_having =
          OperatorExpression (LogicalAggregateAndGroupBy (Some [ColumnValueExpression ''t'' ''a'' 0]))
            [Filter_layer (predicates from_st @ map annotate where_conjuncts) (output_expr where_st)]"
    using a6 required by (simp add: fields Aggregate_layer_def)
  have b7: "having_conjuncts = [example_where]" "output_expr having_st = below_having"
    using a7 required by (simp_all add: fields clauses)
  have b9: "layered_tree =
          OperatorExpression (LogicalLimit 0 5 [ColumnValueExpression ''t'' ''a'' 0] [ASC])
            [OperatorExpression LogicalDistinct
               [OperatorExpression (LogicalFilter [annotate example_where])
                  [output_expr having_st]]]"
    using a9
    by (simp add: fields b7(1) Limit_layer_def Distinct_layer_def Filter_layer_def
          sort_directions_def)
  have "\<exists>from_st where_st where_conjuncts below_having (having_st :: State).
        Visit_TableRef example_accessor (BaseTable ''t'' ''t'' ''db'') initial_state = Inr from_st
      \<and> AcceptChildren_loop example_accessor [in_subquery] from_st = Inr (where_conjuncts, where_st)
      \<and> joins_over (output_expr from_st) (output_expr where_st)
      \<and> predicates where_st = predicates from_st
      \<and> below_having =
          OperatorExpression (LogicalAggregateAndGroupBy (Some [ColumnValueExpression ''t'' ''a'' 0]))
            [Filter_layer (predicates from_st @ map annotate where_conjuncts) (output_expr where_st)]
      \<and> output_expr having_st = below_having
      \<and> layered_tree =
          OperatorExpression (LogicalLimit 0 5 [ColumnValueExpression ''t'' ''a'' 0] [ASC])
            [OperatorExpression LogicalDistinct
               [OperatorExpression (LogicalFilter [annotate example_where])
                  [output_expr having_st]]]"
    by (intro exI conjI) (rule b1 b2 a3 a4 b6 b7(2) b9)+
  with run show ?thesis by (rule conjI)
qed

section \<open>Claim C3: when a SELECT requires aggregation\<close>

lemma RequireAggregation_loop_fold:
  "fold (\<lambda>expr (has_aggregation, has_other_exprs).
           if GetAggregateExprs [] expr \<noteq> [] then (True, has_other_exprs)
           else (has_aggregation, True))
     select_columns (a, b)
   = (a \<or> (\<exists>e \<in> set select_columns. GetAggregateExprs [] e \<noteq> []),
      b \<or> (\<exists>e \<in> set select_columns. GetAggregateExprs [] e = []))"
  by (induction select_columns arbitrary: a b) auto

lemma RequireAggregation_loop_flags:
  "RequireAggregation_loop select_columns
   = ((\<exists>e \<in> set select_columns. GetAggregateExprs [] e \<noteq> []),
      (\<exists>e \<in> set select_columns. GetAggregateExprs [] e = []))"
  by (simp add: RequireAggregation_loop_def RequireAggregation_loop_fold)

text \<open>
  Claim C3. \<open>RequireAggregation\<close> returns true whenever a GROUP BY clause is present.
  Otherwise, with the cases read in the order in which the specification lists them, it
  returns false when no item of the select list contains an aggregate (an empty select
  list is such a list), returns true when every item contains one, and raises the
  aggregation-mix error in the remaining case, which is that some item contains an
  aggregate and some item does not. It raises that error in no other case, and no other
  error.
\<close>

theorem RequireAggregation_cases:
  "RequireAggregation op =
     (if GetSelectGroupBy op \<noteq> None then Inr True
      else if \<forall>e \<in> set (GetSelectColumns op). GetAggregateExprs [] e = [] then Inr False
      else if \<forall>e \<in> set (GetSelectColumns op). GetAggregateExprs [] e \<noteq> [] then Inr True
      else Inl (OPTIMIZER_EXCEPTION aggregation_mix_message))
   \<and> (GetSelectGroupBy op = None \<and> GetSelectColumns op \<noteq> []
        \<and> (\<forall>e \<in> set (GetSelectColumns op). GetAggregateExprs [] e \<noteq> [])
      \<longrightarrow> RequireAggregation op = Inr True)
   \<and> (RequireAggregation op = Inl (OPTIMIZER_EXCEPTION aggregation_mix_message)
        \<longleftrightarrow> GetSelectGroupBy op = None
          \<and> (\<exists>e \<in> set (GetSelectColumns op). GetAggregateExprs [] e \<noteq> [])
          \<and> (\<exists>e \<in> set (GetSelectColumns op). GetAggregateExprs [] e = []))
   \<and> (\<forall>err. RequireAggregation op = Inl err
        \<longrightarrow> err = OPTIMIZER_EXCEPTION aggregation_mix_message)"
proof -
  have nonempty: "\<exists>e \<in> set (GetSelectColumns op). GetAggregateExprs [] e \<noteq> []"
    if "GetSelectColumns op \<noteq> []"
      and "\<forall>e \<in> set (GetSelectColumns op). GetAggregateExprs [] e \<noteq> []"
    using that by (cases "GetSelectColumns op") auto
  show ?thesis
    using nonempty
    by (auto simp: RequireAggregation_def RequireAggregation_loop_flags)
qed

text \<open>
  \<^verbatim>\<open>SELECT a FROM t GROUP BY a\<close>, \<^verbatim>\<open>SELECT a FROM t\<close>, \<^verbatim>\<open>SELECT count(a) FROM t\<close>,
  \<^verbatim>\<open>SELECT count(a), a FROM t\<close>, and a statement with an empty select list.
\<close>

theorem RequireAggregation_cases_witness:
  "RequireAggregation
     (SelectStatement [ColumnValueExpression ''t'' ''a'' 0] False (Some (BaseTable ''t'' ''t'' ''db''))
        None (Some (GroupByDescription [ColumnValueExpression ''t'' ''a'' 0] None)) None None 0)
     = Inr True
   \<and> RequireAggregation
     (SelectStatement [ColumnValueExpression ''t'' ''a'' 0] False (Some (BaseTable ''t'' ''t'' ''db''))
        None None None None 0)
     = Inr False
   \<and> RequireAggregation
     (SelectStatement [AggregateExpression AGGREGATE_COUNT [ColumnValueExpression ''t'' ''a'' 0] 0]
        False (Some (BaseTable ''t'' ''t'' ''db'')) None None None None 0)
     = Inr True
   \<and> RequireAggregation
     (SelectStatement [AggregateExpression AGGREGATE_COUNT [ColumnValueExpression ''t'' ''a'' 0] 0,
                       ColumnValueExpression ''t'' ''a'' 0]
        False (Some (BaseTable ''t'' ''t'' ''db'')) None None None None 0)
     = Inl (OPTIMIZER_EXCEPTION aggregation_mix_message)
   \<and> RequireAggregation (SelectStatement [] False None None None None None 0) = Inr False"
proof -
  note cases = RequireAggregation_cases [THEN conjunct1]
  have "RequireAggregation
     (SelectStatement [ColumnValueExpression ''t'' ''a'' 0] False (Some (BaseTable ''t'' ''t'' ''db''))
        None (Some (GroupByDescription [ColumnValueExpression ''t'' ''a'' 0] None)) None None 0)
     = Inr True"
    by (subst cases) simp
  moreover have "RequireAggregation
     (SelectStatement [ColumnValueExpression ''t'' ''a'' 0] False (Some (BaseTable ''t'' ''t'' ''db''))
        None None None None 0)
     = Inr False"
    by (subst cases) (simp add: evaluation)
  moreover have "RequireAggregation
     (SelectStatement [AggregateExpression AGGREGATE_COUNT [ColumnValueExpression ''t'' ''a'' 0] 0]
        False (Some (BaseTable ''t'' ''t'' ''db'')) None None None None 0)
     = Inr True"
    by (subst cases) (simp add: evaluation)
  moreover have "RequireAggregation
     (SelectStatement [AggregateExpression AGGREGATE_COUNT [ColumnValueExpression ''t'' ''a'' 0] 0,
                       ColumnValueExpression ''t'' ''a'' 0]
        False (Some (BaseTable ''t'' ''t'' ''db'')) None None None None 0)
     = Inl (OPTIMIZER_EXCEPTION aggregation_mix_message)"
    by (subst cases) (simp add: evaluation)
  moreover have "RequireAggregation (SelectStatement [] False None None None None None 0) = Inr False"
    by (subst cases) simp
  ultimately show ?thesis by (intro conjI)
qed

section \<open>Claim C4: INSERT ... VALUES with a column list\<close>

lemma CheckTupleSizes_result:
  "CheckTupleSizes num_columns rows =
     (case find (\<lambda>tuple. length tuple \<noteq> num_columns) rows of
        None \<Rightarrow> Inr ()
      | Some tuple \<Rightarrow>
          Inl (CATALOG_EXCEPTION
                (if length tuple > num_columns then more_expressions_message
                 else more_target_columns_message)))"
  by (induction rows) auto

lemma ResolveColumns_result:
  "ResolveColumns schema table_name columns specified =
     (case find (\<lambda>col. GetColumn schema col = None) columns of
        None \<Rightarrow>
          Inr (fold (\<lambda>col. List.insert (Oid (the (GetColumn schema col)))) columns specified)
      | Some col \<Rightarrow> Inl (CATALOG_EXCEPTION (does_not_exist_message col table_name)))"
  by (induction columns arbitrary: specified) (auto split: option.splits)

lemma set_fold_insert:
  "set (fold (\<lambda>x. List.insert (f x)) xs ys) = f ` set xs \<union> set ys"
  by (induction xs arbitrary: ys) auto

lemma distinct_fold_insert:
  "distinct ys \<Longrightarrow> distinct (fold (\<lambda>x. List.insert (f x)) xs ys)"
  by (induction xs arbitrary: ys) simp_all

lemma CheckUnspecifiedColumns_result:
  "CheckUnspecifiedColumns specified schema =
     (case find (\<lambda>column. Oid column \<notin> set specified \<and> \<not> Nullable column
                    \<and> StoredExpression column = None) schema of
        None \<Rightarrow> Inr ()
      | Some column \<Rightarrow> Inl (CATALOG_EXCEPTION (not_null_message_columns (Name column))))"
  by (induction schema) auto

text \<open>
  Claim C4, as stated, fails where two of its conditions hold together: the checks run
  in order and the first one that fails decides the error. With the single target column
  \<open>a\<close>, a first row of no value and a second row of two values, some row is wider than
  the column list, and the statement fails with "more target columns than expressions",
  not with the too-many-values error.
\<close>

theorem insert_narrow_row_before_wide_row:
  "(\<exists>row \<in> set (GetValues (insert_into_t [''a'']
        [[], [ConstantValueExpression (- 1), ConstantValueExpression (- 1)]])).
      length row > length (GetInsertColumns (insert_into_t [''a'']
        [[], [ConstantValueExpression (- 1), ConstantValueExpression (- 1)]])))
   \<and> Visit_InsertStatement example_accessor
        (insert_into_t [''a''] [[], [ConstantValueExpression (- 1), ConstantValueExpression (- 1)]])
        initial_state
      = Inl (CATALOG_EXCEPTION more_target_columns_message)
   \<and> more_target_columns_message \<noteq> more_expressions_message"
  by (simp add: insert_evaluation)

text \<open>
  Claim C4, amended. For an INSERT with VALUES and a column list the checks run in this
  order, and the first that fails decides the result: the first row whose size is not
  the number of named columns fails the statement, with the too-many-values error when
  it is wider and with "more target columns than expressions" when it is narrower; then
  the first named column that the schema does not have fails it with a "does not exist"
  error; then the first column of the schema that is outside the specified set, not
  nullable and without a default expression fails it with a not-null violation. When
  none of these is found the statement gives an Insert whose \<open>col_ids\<close> are, without
  repetition, the identifiers of the named columns.
\<close>

theorem insert_values_with_columns:
  assumes "GetInsertType op = INSERT_VALUES" and "GetInsertColumns op \<noteq> []"
      and "table_name = GetTableRefName (GetInsertionTable op)"
      and "table = GetTableOid accessor table_name"
      and "schema = GetSchema accessor table"
      and "specified = (\<lambda>col. Oid (the (GetColumn schema col))) ` set (GetInsertColumns op)"
  shows
    "case find (\<lambda>tuple. length tuple \<noteq> length (GetInsertColumns op)) (GetValues op) of
       Some tuple \<Rightarrow>
         Visit_InsertStatement accessor op st =
           Inl (CATALOG_EXCEPTION
                 (if length tuple > length (GetInsertColumns op) then more_expressions_message
                  else more_target_columns_message))
     | None \<Rightarrow>
     (case find (\<lambda>col. GetColumn schema col = None) (GetInsertColumns op) of
        Some col \<Rightarrow>
          Visit_InsertStatement accessor op st =
            Inl (CATALOG_EXCEPTION (does_not_exist_message col table_name))
      | None \<Rightarrow>
      (case find (\<lambda>column. Oid column \<notin> specified \<and> \<not> Nullable column
                     \<and> StoredExpression column = None) schema of
         Some column \<Rightarrow>
           Visit_InsertStatement accessor op st =
             Inl (CATALOG_EXCEPTION (not_null_message_columns (Name column)))
       | None \<Rightarrow>
           (\<exists>col_ids. set col_ids = specified \<and> distinct col_ids
              \<and> Visit_InsertStatement accessor op st =
                  Inr (st\<lparr>output_expr := OperatorExpression
                         (LogicalInsert (GetDatabaseOid accessor (GetDatabaseName (GetInsertionTable op)))
                            (GetDefaultNamespace accessor) table col_ids (GetValues op)) []\<rparr>))))"
proof -
  let ?col_ids = "fold (\<lambda>col. List.insert (Oid (the (GetColumn schema col)))) (GetInsertColumns op) []"
  have col_ids: "set ?col_ids = specified" "distinct ?col_ids"
    using assms(6) by (simp_all add: set_fold_insert distinct_fold_insert)
  show ?thesis
    using assms(1-5) col_ids
    by (auto simp: Visit_InsertStatement_def Let_def CheckTupleSizes_result ResolveColumns_result
          CheckUnspecifiedColumns_result
          split: option.splits)
qed

text \<open>
  On the table \<open>t\<close> (\<open>a\<close> not null; \<open>b\<close> nullable; \<open>c\<close> not null with a default): the
  columns \<open>(a, b)\<close> with a row of two values are accepted; a row of three values and a
  row of one value are refused for their size; the column \<open>z\<close> does not exist; and the
  column list \<open>(b)\<close> leaves out \<open>a\<close>, which is not null and has no default.
\<close>

theorem insert_values_with_columns_witness:
  "(\<exists>col_ids. set col_ids = {1, 2} \<and> distinct col_ids
      \<and> Visit_InsertStatement example_accessor
          (insert_into_t [''a'', ''b''] [replicate 2 (ConstantValueExpression (- 1))]) initial_state
        = Inr (initial_state\<lparr>output_expr := OperatorExpression
                 (LogicalInsert 1 2 10 col_ids [replicate 2 (ConstantValueExpression (- 1))]) []\<rparr>))
   \<and> Visit_InsertStatement example_accessor
        (insert_into_t [''a'', ''b''] [replicate 3 (ConstantValueExpression (- 1))]) initial_state
      = Inl (CATALOG_EXCEPTION more_expressions_message)
   \<and> Visit_InsertStatement example_accessor
        (insert_into_t [''a'', ''b''] [replicate 1 (ConstantValueExpression (- 1))]) initial_state
      = Inl (CATALOG_EXCEPTION more_target_columns_message)
   \<and> Visit_InsertStatement example_accessor
        (insert_into_t [''a'', ''z''] [replicate 2 (ConstantValueExpression (- 1))]) initial_state
      = Inl (CATALOG_EXCEPTION (does_not_exist_message ''z'' ''t''))
   \<and> Visit_InsertStatement example_accessor
        (insert_into_t [''b''] [replicate 1 (ConstantValueExpression (- 1))]) initial_state
      = Inl (CATALOG_EXCEPTION (not_null_message_columns ''a''))"
proof -
  note result = insert_values_with_columns [OF _ _ refl refl refl refl, of _ example_accessor initial_state]
  have accepted: "\<exists>col_ids. set col_ids = {1, 2} \<and> distinct col_ids
      \<and> Visit_InsertStatement example_accessor
          (insert_into_t [''a'', ''b''] [replicate 2 (ConstantValueExpression (- 1))]) initial_state
        = Inr (initial_state\<lparr>output_expr := OperatorExpression
                 (LogicalInsert 1 2 10 col_ids [replicate 2 (ConstantValueExpression (- 1))]) []\<rparr>)"
    using result [of "insert_into_t [''a'', ''b''] [replicate 2 (ConstantValueExpression (- 1))]"]
    by (simp add: insert_into_t_def example_accessor_def BaseTable_def GetColumn_def
          numeral_2_eq_2 insert_commute)
  have wider: "Visit_InsertStatement example_accessor
        (insert_into_t [''a'', ''b''] [replicate 3 (ConstantValueExpression (- 1))]) initial_state
      = Inl (CATALOG_EXCEPTION more_expressions_message)"
    using result [of "insert_into_t [''a'', ''b''] [replicate 3 (ConstantValueExpression (- 1))]"]
    by (simp add: insert_into_t_def)
  have narrower: "Visit_InsertStatement example_accessor
        (insert_into_t [''a'', ''b''] [replicate 1 (ConstantValueExpression (- 1))]) initial_state
      = Inl (CATALOG_EXCEPTION more_target_columns_message)"
    using result [of "insert_into_t [''a'', ''b''] [replicate 1 (ConstantValueExpression (- 1))]"]
    by (simp add: insert_into_t_def)
  have unknown: "Visit_InsertStatement example_accessor
        (insert_into_t [''a'', ''z''] [replicate 2 (ConstantValueExpression (- 1))]) initial_state
      = Inl (CATALOG_EXCEPTION (does_not_exist_message ''z'' ''t''))"
    using result [of "insert_into_t [''a'', ''z''] [replicate 2 (ConstantValueExpression (- 1))]"]
    by (simp add: insert_into_t_def example_accessor_def BaseTable_def GetColumn_def numeral_2_eq_2)
  have not_null: "Visit_InsertStatement example_accessor
        (insert_into_t [''b''] [replicate 1 (ConstantValueExpression (- 1))]) initial_state
      = Inl (CATALOG_EXCEPTION (not_null_message_columns ''a''))"
    using result [of "insert_into_t [''b''] [replicate 1 (ConstantValueExpression (- 1))]"]
    by (simp add: insert_into_t_def example_accessor_def BaseTable_def GetColumn_def)
  from accepted wider narrower unknown not_null show ?thesis by (intro conjI)
qed

section \<open>Claim C5: INSERT ... VALUES without a column list\<close>

definition can_be_omitted :: "Column \<Rightarrow> bool" where
  "can_be_omitted column \<longleftrightarrow> Nullable column \<or> StoredExpression column \<noteq> None"

lemma CheckMissingColumns_result:
  "CheckMissingColumns columns =
     (case find (\<lambda>column. \<not> can_be_omitted column) columns of
        None \<Rightarrow> Inr ()
      | Some column \<Rightarrow> Inl (CATALOG_EXCEPTION (not_null_message_values (Name column))))"
  by (induction columns) (auto simp: can_be_omitted_def)

lemma CheckMissingColumns_Inr:
  "CheckMissingColumns columns = Inr () \<longleftrightarrow> (\<forall>column \<in> set columns. can_be_omitted column)"
  by (induction columns) (auto simp: can_be_omitted_def)

lemma CheckMissingColumns_Inl:
  "CheckMissingColumns columns = Inl e \<Longrightarrow>
     \<exists>column \<in> set columns. \<not> can_be_omitted column
        \<and> e = CATALOG_EXCEPTION (not_null_message_values (Name column))"
  by (induction columns) (auto simp: can_be_omitted_def split: if_splits)

text \<open>
  What one row is refused with: the too-many-values error when it is wider than the
  table, and otherwise the not-null violation of the first column that it leaves out
  and that cannot be left out.
\<close>

definition row_error :: "Column list \<Rightarrow> AbstractExpression list \<Rightarrow> error option" where
  "row_error column_objects row =
     (if length row > length column_objects then Some (CATALOG_EXCEPTION more_expressions_message)
      else
        case find (\<lambda>column. \<not> can_be_omitted column) (drop (length row) column_objects) of
          Some column \<Rightarrow> Some (CATALOG_EXCEPTION (not_null_message_values (Name column)))
        | None \<Rightarrow> None)"

lemma CheckValues_result:
  "CheckValues column_objects rows =
     (case find (\<lambda>row. row_error column_objects row \<noteq> None) rows of
        None \<Rightarrow> Inr ()
      | Some row \<Rightarrow> Inl (the (row_error column_objects row)))"
proof (induction rows)
  case Nil
  show ?case by simp
next
  case (Cons row rows)
  have drop_nil: "drop (length row) column_objects = []"
    if "\<not> length row < length column_objects"
    using that by simp
  show ?case
    using Cons.IH
    by (auto simp: row_error_def CheckMissingColumns_result drop_nil split: option.splits)
qed

lemma CheckValues_Inr:
  "CheckValues column_objects rows = Inr () \<longleftrightarrow>
     (\<forall>row \<in> set rows. length row \<le> length column_objects
        \<and> (\<forall>column \<in> set (drop (length row) column_objects). can_be_omitted column))"
proof (induction rows)
  case Nil
  show ?case by simp
next
  case (Cons row rows)
  show ?case
  proof (cases "length row < length column_objects")
    case True
    then show ?thesis
      using Cons.IH
      by (cases "CheckMissingColumns (drop (length row) column_objects)")
         (auto simp: CheckMissingColumns_Inr [symmetric])
  next
    case False
    then show ?thesis using Cons.IH by auto
  qed
qed

lemma CheckValues_wider:
  "\<exists>row \<in> set rows. length row > length column_objects \<Longrightarrow>
     \<exists>e. CheckValues column_objects rows = Inl e"
  using CheckValues_Inr [of column_objects rows]
  by (cases "CheckValues column_objects rows") (auto simp: not_le [symmetric])

lemma CheckValues_Inl:
  assumes "\<forall>row \<in> set rows. length row \<le> length column_objects"
      and "CheckValues column_objects rows = Inl e"
  shows "\<exists>row \<in> set rows. \<exists>column \<in> set (drop (length row) column_objects).
           \<not> can_be_omitted column
           \<and> e = CATALOG_EXCEPTION (not_null_message_values (Name column))"
  using assms
proof (induction rows)
  case Nil
  then show ?case by simp
next
  case (Cons row rows)
  show ?case
  proof (cases "length row < length column_objects")
    case True
    show ?thesis
    proof (cases "CheckMissingColumns (drop (length row) column_objects)")
      case (Inl e')
      with Cons.prems True have "e' = e" by simp
      with CheckMissingColumns_Inl [OF Inl] show ?thesis by auto
    next
      case (Inr u)
      with Cons True show ?thesis by auto
    qed
  next
    case False
    with Cons show ?thesis by auto
  qed
qed

text \<open>
  Claim C5. For an INSERT with VALUES and without a column list, over a table with the
  columns \<open>column_objects\<close>: a row wider than the table makes the statement fail; when no
  row is wider, the statement is accepted if and only if every column that some row
  leaves out at its end is nullable or has a default expression, and it fails with the
  not-null violation of such a column otherwise; and a statement that is accepted has all
  columns of the table, in the order of the schema, as its \<open>col_ids\<close>. Over several
  rows, the first row that is refused decides the error.
\<close>

theorem insert_values_without_columns:
  assumes "GetInsertType op = INSERT_VALUES" and "GetInsertColumns op = []"
      and "table = GetTableOid accessor (GetTableRefName (GetInsertionTable op))"
      and "column_objects = GetSchema accessor table"
      and "inserted = st\<lparr>output_expr := OperatorExpression
             (LogicalInsert (GetDatabaseOid accessor (GetDatabaseName (GetInsertionTable op)))
                (GetDefaultNamespace accessor) table (map Oid column_objects) (GetValues op)) []\<rparr>"
  shows "((\<exists>row \<in> set (GetValues op). length row > length column_objects)
            \<longrightarrow> (\<exists>e. Visit_InsertStatement accessor op st = Inl e))
       \<and> ((\<forall>row \<in> set (GetValues op). length row \<le> length column_objects) \<longrightarrow>
            (Visit_InsertStatement accessor op st = Inr inserted
               \<longleftrightarrow> (\<forall>row \<in> set (GetValues op).
                      \<forall>column \<in> set (drop (length row) column_objects). can_be_omitted column))
          \<and> (\<forall>e. Visit_InsertStatement accessor op st = Inl e \<longrightarrow>
                 (\<exists>row \<in> set (GetValues op). \<exists>column \<in> set (drop (length row) column_objects).
                    \<not> can_be_omitted column
                    \<and> e = CATALOG_EXCEPTION (not_null_message_values (Name column)))))
       \<and> (\<forall>st'. Visit_InsertStatement accessor op st = Inr st' \<longrightarrow> st' = inserted)
       \<and> Visit_InsertStatement accessor op st =
           (case find (\<lambda>row. row_error column_objects row \<noteq> None) (GetValues op) of
              None \<Rightarrow> Inr inserted
            | Some row \<Rightarrow> Inl (the (row_error column_objects row)))"
proof -
  have visit: "Visit_InsertStatement accessor op st =
      (case CheckValues column_objects (GetValues op) of
         Inl e \<Rightarrow> Inl e
       | Inr u \<Rightarrow> Inr inserted)"
    using assms by (simp add: Visit_InsertStatement_def Let_def split: sum.splits)
  have first_refused: "Visit_InsertStatement accessor op st =
           (case find (\<lambda>row. row_error column_objects row \<noteq> None) (GetValues op) of
              None \<Rightarrow> Inr inserted
            | Some row \<Rightarrow> Inl (the (row_error column_objects row)))"
    by (simp add: visit CheckValues_result split: option.splits)
  have rest: "((\<exists>row \<in> set (GetValues op). length row > length column_objects)
            \<longrightarrow> (\<exists>e. Visit_InsertStatement accessor op st = Inl e))
       \<and> ((\<forall>row \<in> set (GetValues op). length row \<le> length column_objects) \<longrightarrow>
            (Visit_InsertStatement accessor op st = Inr inserted
               \<longleftrightarrow> (\<forall>row \<in> set (GetValues op).
                      \<forall>column \<in> set (drop (length row) column_objects). can_be_omitted column))
          \<and> (\<forall>e. Visit_InsertStatement accessor op st = Inl e \<longrightarrow>
                 (\<exists>row \<in> set (GetValues op). \<exists>column \<in> set (drop (length row) column_objects).
                    \<not> can_be_omitted column
                    \<and> e = CATALOG_EXCEPTION (not_null_message_values (Name column)))))
       \<and> (\<forall>st'. Visit_InsertStatement accessor op st = Inr st' \<longrightarrow> st' = inserted)"
  proof (cases "CheckValues column_objects (GetValues op)")
    case (Inl e)
    then show ?thesis
      using visit CheckValues_Inl [of "GetValues op" column_objects e]
        CheckValues_Inr [of column_objects "GetValues op"]
      by auto
  next
    case (Inr u)
    then show ?thesis
      using visit CheckValues_wider [of "GetValues op" column_objects]
        CheckValues_Inr [of column_objects "GetValues op"]
      by auto
  qed
  show ?thesis using rest first_refused by (elim conjE, intro conjI) assumption+
qed

text \<open>
  The table \<open>t\<close> has the columns \<open>a\<close> (not null, no default), \<open>b\<close> (nullable) and \<open>c\<close>
  (not null, with a default). A row of one value is accepted; a row of four values is
  refused.
\<close>

theorem insert_values_without_columns_witness:
  "Visit_InsertStatement example_accessor
     (insert_into_t [] [[ConstantValueExpression (- 1)]]) initial_state
   = Inr (initial_state\<lparr>output_expr :=
       OperatorExpression (LogicalInsert 1 2 10 [1, 2, 3] [[ConstantValueExpression (- 1)]]) []\<rparr>)
   \<and> (\<exists>e. Visit_InsertStatement example_accessor
         (insert_into_t [] [replicate 4 (ConstantValueExpression (- 1))]) initial_state = Inl e)"
proof -
  note facts = insert_values_without_columns [OF _ _ refl refl refl, of _ example_accessor]
  have "Visit_InsertStatement example_accessor
     (insert_into_t [] [[ConstantValueExpression (- 1)]]) initial_state
   = Inr (initial_state\<lparr>output_expr :=
       OperatorExpression (LogicalInsert 1 2 10 [1, 2, 3] [[ConstantValueExpression (- 1)]]) []\<rparr>)"
    using facts [of "insert_into_t [] [[ConstantValueExpression (- 1)]]" initial_state,
        THEN conjunct2, THEN conjunct1]
    by (simp add: insert_evaluation can_be_omitted_def)
  moreover have "\<exists>e. Visit_InsertStatement example_accessor
         (insert_into_t [] [replicate 4 (ConstantValueExpression (- 1))]) initial_state = Inl e"
    by (rule facts [THEN conjunct1, rule_format]) (simp_all add: insert_evaluation can_be_omitted_def)
  ultimately show ?thesis by (intro conjI)
qed

section \<open>Claim C6: conjunctive decomposition\<close>

text \<open>
  Claim C6. \<^verbatim>\<open>SplitPredicates\<close> appends to its output the conjuncts of the expression:
  nothing for a null expression, the expression itself when its root is not
  \<open>CONJUNCTION_AND\<close>, and otherwise the conjuncts of each child in child order. No
  element it emits has a \<open>CONJUNCTION_AND\<close> root. Consequently no predicate list that the
  transformer emits holds a predicate with a \<open>CONJUNCTION_AND\<close> root: not the list that
  \<open>ExtractPredicates\<close> builds, not the list that \<open>CollectPredicates\<close> pushes (it splits
  the expression after the visit, and the visit turns no root into \<open>CONJUNCTION_AND\<close>),
  and so no Filter and no scan anywhere in the tree that the visit of a SELECT, INSERT,
  DELETE or UPDATE statement leaves in the output, the trees of sub-selects and of
  derived tables included.
\<close>

theorem SplitPredicates_conjunctive_decomposition:
  "SplitPredicates None [] = []
   \<and> SplitPredicates (Some expr) [] =
       (if GetExpressionType expr = CONJUNCTION_AND
        then concat (map (\<lambda>child. SplitPredicates (Some child) []) (GetChildren expr))
        else [expr])
   \<and> SplitPredicates (Some expr) out = out @ conjuncts expr
   \<and> (\<forall>p \<in> set (SplitPredicates e []). GetExpressionType p \<noteq> CONJUNCTION_AND)
   \<and> conjunctive (ExtractPredicates e [])
   \<and> (\<forall>st' pushed. CollectPredicates accessor expr st = Inr (st', pushed) \<longrightarrow> conjunctive pushed)
   \<and> (\<forall>st'. Visit_SelectStatement accessor select_op st = Inr st' \<longrightarrow> decomposed (output_expr st'))
   \<and> (\<forall>st'. Visit_InsertStatement accessor insert_op st = Inr st' \<longrightarrow> decomposed (output_expr st'))
   \<and> decomposed (output_expr (Visit_DeleteStatement accessor delete_op st))
   \<and> decomposed (output_expr (Visit_UpdateStatement accessor update_op st))"
proof -
  have "\<forall>p \<in> set (SplitPredicates e []). GetExpressionType p \<noteq> CONJUNCTION_AND"
    by (cases e) (auto simp: SplitPredicates_Some dest: conjuncts_no_and)
  moreover have "SplitPredicates (Some expr) [] =
       (if GetExpressionType expr = CONJUNCTION_AND
        then concat (map (\<lambda>child. SplitPredicates (Some child) []) (GetChildren expr))
        else [expr])"
    by (simp add: SplitPredicates_Some conjuncts.simps [of expr])
  moreover have "\<forall>st' pushed. CollectPredicates accessor expr st = Inr (st', pushed)
      \<longrightarrow> conjunctive pushed"
    using visit_invariants(5) [of accessor expr st] by blast
  moreover have "\<forall>st'. Visit_SelectStatement accessor select_op st = Inr st'
      \<longrightarrow> decomposed (output_expr st')"
    using visit_invariants(1) [of accessor select_op st] by blast
  moreover have "\<forall>st'. Visit_InsertStatement accessor insert_op st = Inr st'
      \<longrightarrow> decomposed (output_expr st')"
  proof (intro allI impI)
    fix st'
    assume run: "Visit_InsertStatement accessor insert_op st = Inr st'"
    show "decomposed (output_expr st')"
    proof (cases "GetInsertType insert_op = INSERT_SELECT")
      case True
      with run obtain select sub_st where
        "Visit_SelectStatement accessor select st = Inr sub_st"
        "output_expr st' =
           OperatorExpression
             (LogicalInsertSelect
                (GetDatabaseOid accessor (GetDatabaseName (GetInsertionTable insert_op)))
                (GetDefaultNamespace accessor)
                (GetTableOid accessor (GetTableRefName (GetInsertionTable insert_op))))
             [output_expr sub_st]"
        by (auto simp: Visit_InsertStatement_def Let_def case_sum_Inr_iff split: option.splits)
      with visit_invariants(1) [of accessor select st] show ?thesis
        by (simp add: decomposed_node)
    next
      case False
      with run show ?thesis
        by (auto simp: Visit_InsertStatement_def Let_def case_sum_Inr_iff decomposed_node)
    qed
  qed
  moreover have "decomposed (output_expr (Visit_DeleteStatement accessor delete_op st))"
    by (simp add: Visit_DeleteStatement_def Let_def decomposed_node split: option.splits)
  moreover have "decomposed (output_expr (Visit_UpdateStatement accessor update_op st))"
    by (simp add: Visit_UpdateStatement_def Let_def decomposed_node split: option.splits)
  ultimately show ?thesis by (simp add: SplitPredicates_Some)
qed

text \<open>
  A nested conjunction is split into its three conjuncts. The WHERE clause
  \<^verbatim>\<open>a = 1 AND a IN (SELECT b FROM u)\<close> of a query on \<open>t\<close> gives a Filter that holds the two
  conjuncts, the second one rewritten.
\<close>

definition conjunction_select :: SelectStatement where
  "conjunction_select =
     SelectStatement [ColumnValueExpression ''t'' ''a'' 0] False
       (Some (BaseTable ''t'' ''t'' ''db''))
       (Some (ConjunctionExpression CONJUNCTION_AND [example_where, in_subquery] 0))
       None None None 0"

definition conjunction_tree :: OperatorExpression where
  "conjunction_tree =
     OperatorExpression
       (LogicalFilter
          [AnnotatedExpression example_where {''t''},
           AnnotatedExpression
             (ComparisonExpression COMPARE_EQUAL
                [ColumnValueExpression ''t'' ''a'' 0, ColumnValueExpression ''u'' ''b'' 1] 0)
             {''u'', ''t''}])
       [OperatorExpression LogicalMarkJoin
          [OperatorExpression (LogicalGet 1 2 10 [] ''t'' False) [],
           OperatorExpression (LogicalGet 1 2 11 [] ''u'' False) []]]"

theorem SplitPredicates_conjunctive_decomposition_witness:
  "SplitPredicates (Some (ConjunctionExpression CONJUNCTION_AND
       [ColumnValueExpression ''t'' ''a'' 0,
        ConjunctionExpression CONJUNCTION_AND
          [ColumnValueExpression ''t'' ''b'' 0, ConstantValueExpression 0] 0] 0)) []
     = [ColumnValueExpression ''t'' ''a'' 0, ColumnValueExpression ''t'' ''b'' 0,
        ConstantValueExpression 0]
   \<and> list_all (\<lambda>p. GetExpressionType p \<noteq> CONJUNCTION_AND)
       (SplitPredicates (Some (ConjunctionExpression CONJUNCTION_AND
          [ColumnValueExpression ''t'' ''a'' 0,
           ConjunctionExpression CONJUNCTION_AND
             [ColumnValueExpression ''t'' ''b'' 0, ConstantValueExpression 0] 0] 0)) [])
   \<and> Visit_SelectStatement example_accessor conjunction_select initial_state
       = Inr \<lparr>output_expr = conjunction_tree, predicates = []\<rparr>
   \<and> decomposed conjunction_tree"
proof -
  have split: "SplitPredicates (Some (ConjunctionExpression CONJUNCTION_AND
       [ColumnValueExpression ''t'' ''a'' 0,
        ConjunctionExpression CONJUNCTION_AND
          [ColumnValueExpression ''t'' ''b'' 0, ConstantValueExpression 0] 0] 0)) []
     = [ColumnValueExpression ''t'' ''a'' 0, ColumnValueExpression ''t'' ''b'' 0,
        ConstantValueExpression 0]
   \<and> list_all (\<lambda>p. GetExpressionType p \<noteq> CONJUNCTION_AND)
       (SplitPredicates (Some (ConjunctionExpression CONJUNCTION_AND
          [ColumnValueExpression ''t'' ''a'' 0,
           ConjunctionExpression CONJUNCTION_AND
             [ColumnValueExpression ''t'' ''b'' 0, ConstantValueExpression 0] 0] 0)) [])"
    using SplitPredicates_conjunctive_decomposition
      [of "ConjunctionExpression CONJUNCTION_AND
         [ColumnValueExpression ''t'' ''a'' 0,
          ConjunctionExpression CONJUNCTION_AND
            [ColumnValueExpression ''t'' ''b'' 0, ConstantValueExpression 0] 0] 0"
          "[]"
          "Some (ConjunctionExpression CONJUNCTION_AND
         [ColumnValueExpression ''t'' ''a'' 0,
          ConjunctionExpression CONJUNCTION_AND
            [ColumnValueExpression ''t'' ''b'' 0, ConstantValueExpression 0] 0] 0)"]
    by (simp add: expression_constructors SplitPredicates_node conjuncts_node list_all_iff)
  have run: "Visit_SelectStatement example_accessor conjunction_select initial_state
       = Inr \<lparr>output_expr = conjunction_tree, predicates = []\<rparr>"
    by (simp add: conjunction_select_def conjunction_tree_def in_subquery_def
          example_subselect_def example_where_def example_accessor_def initial_state_def
          evaluation)
  from SplitPredicates_conjunctive_decomposition
    [where accessor = example_accessor and select_op = conjunction_select
       and st = initial_state,
     THEN conjunct2, THEN conjunct2, THEN conjunct2, THEN conjunct2, THEN conjunct2,
     THEN conjunct2, THEN conjunct1, rule_format, OF run]
  have "decomposed conjunction_tree" by simp
  with split run show ?thesis by (elim conjE, intro conjI)
qed

section \<open>Claim C7: admissible sub-selects\<close>

text \<open>
  The test that the loop of \<open>IsSupportedSubSelect\<close> makes on a correlated conjunct: it is
  an equality of which one side is a column reference and the other side is at the depth
  of the sub-select.
\<close>

definition correlated_equality :: "SelectStatement \<Rightarrow> AbstractExpression \<Rightarrow> bool" where
  "correlated_equality op pred \<longleftrightarrow>
     GetExpressionType pred = COMPARE_EQUAL \<and>
     ((GetDepth (GetChildren pred ! 1) = GetSelectDepth op
         \<and> GetExpressionType (GetChildren pred ! 0) = COLUMN_VALUE) \<or>
      (GetDepth (GetChildren pred ! 0) = GetSelectDepth op
         \<and> GetExpressionType (GetChildren pred ! 1) = COLUMN_VALUE))"

text \<open>
  The shape as the claim words it: the column reference is, moreover, at an outer depth.
\<close>

definition outer_column_equality :: "SelectStatement \<Rightarrow> AbstractExpression \<Rightarrow> bool" where
  "outer_column_equality op pred \<longleftrightarrow>
     GetExpressionType pred = COMPARE_EQUAL \<and>
     ((GetDepth (GetChildren pred ! 1) = GetSelectDepth op
         \<and> GetExpressionType (GetChildren pred ! 0) = COLUMN_VALUE
         \<and> GetDepth (GetChildren pred ! 0) < GetSelectDepth op) \<or>
      (GetDepth (GetChildren pred ! 0) = GetSelectDepth op
         \<and> GetExpressionType (GetChildren pred ! 1) = COLUMN_VALUE
         \<and> GetDepth (GetChildren pred ! 1) < GetSelectDepth op))"

text \<open>
  Depth is set upstream by the binder, which gives an expression the least depth of its
  operands. What the theorem needs of it: an equality that is correlated has its two
  sides, and one of them is below the depth of the sub-select.
\<close>

definition has_outer_side :: "SelectStatement \<Rightarrow> AbstractExpression \<Rightarrow> bool" where
  "has_outer_side op pred \<longleftrightarrow>
     2 \<le> length (GetChildren pred) \<and>
     (GetDepth (GetChildren pred ! 0) < GetSelectDepth op \<or>
      GetDepth (GetChildren pred ! 1) < GetSelectDepth op)"

lemma IsSupportedSubSelect_loop_result:
  assumes "\<forall>pred \<in> set preds.
             GetDepth pred < GetSelectDepth op \<and> GetExpressionType pred = COMPARE_EQUAL
               \<longrightarrow> 2 \<le> length (GetChildren pred)"
  shows "IsSupportedSubSelect_loop op preds =
           Inr (\<forall>pred \<in> set preds. GetDepth pred < GetSelectDepth op \<longrightarrow> correlated_equality op pred)"
  using assms
proof (induction preds)
  case Nil
  show ?case by simp
next
  case (Cons pred preds)
  then have IH: "IsSupportedSubSelect_loop op preds =
      Inr (\<forall>pred \<in> set preds. GetDepth pred < GetSelectDepth op \<longrightarrow> correlated_equality op pred)"
    by simp
  show ?case
  proof (cases "GetDepth pred < GetSelectDepth op \<and> GetExpressionType pred = COMPARE_EQUAL")
    case True
    with Cons.prems have "2 \<le> length (GetChildren pred)" by simp
    then have children: "GetChild pred (Suc 0) = Inr (GetChildren pred ! Suc 0)"
      "GetChild pred 0 = Inr (GetChildren pred ! 0)"
      by (auto simp: GetChild_def)
    show ?thesis
      using True by (auto simp: children IH correlated_equality_def)
  next
    case False
    then show ?thesis by (auto simp: IH correlated_equality_def)
  qed
qed

lemma correlated_equality_with_outer_side:
  "has_outer_side op pred \<Longrightarrow> correlated_equality op pred \<longleftrightarrow> outer_column_equality op pred"
  by (auto simp: correlated_equality_def outer_column_equality_def has_outer_side_def)

text \<open>
  Claim C7. \<open>IsSupportedSubSelect\<close> returns true when the sub-select requires no
  aggregation. When it requires aggregation, and the depths are as the binder sets them,
  it returns true if and only if every conjunct of the WHERE clause whose depth is less
  than the depth of the sub-select is a \<open>COMPARE_EQUAL\<close> of which one side is a bare
  \<open>COLUMN_VALUE\<close> at an outer depth and the other side is at the depth of the sub-select;
  any other correlated conjunct makes it return false.
\<close>

theorem IsSupportedSubSelect_cases:
  "(RequireAggregation op = Inr False \<longrightarrow> IsSupportedSubSelect op = Inr True)
   \<and> (RequireAggregation op = Inr True
        \<and> (\<forall>pred \<in> set (SplitPredicates (GetSelectCondition op) []).
              GetDepth pred < GetSelectDepth op \<and> GetExpressionType pred = COMPARE_EQUAL
                \<longrightarrow> has_outer_side op pred)
      \<longrightarrow> IsSupportedSubSelect op =
            Inr (\<forall>pred \<in> set (SplitPredicates (GetSelectCondition op) []).
                   GetDepth pred < GetSelectDepth op \<longrightarrow> outer_column_equality op pred))"
proof -
  have "IsSupportedSubSelect op =
          Inr (\<forall>pred \<in> set (SplitPredicates (GetSelectCondition op) []).
                 GetDepth pred < GetSelectDepth op \<longrightarrow> outer_column_equality op pred)"
    if require: "RequireAggregation op = Inr True"
      and sides: "\<forall>pred \<in> set (SplitPredicates (GetSelectCondition op) []).
              GetDepth pred < GetSelectDepth op \<and> GetExpressionType pred = COMPARE_EQUAL
                \<longrightarrow> has_outer_side op pred"
  proof -
    from sides have "\<forall>pred \<in> set (SplitPredicates (GetSelectCondition op) []).
             GetDepth pred < GetSelectDepth op \<and> GetExpressionType pred = COMPARE_EQUAL
               \<longrightarrow> 2 \<le> length (GetChildren pred)"
      by (auto simp: has_outer_side_def)
    then have "IsSupportedSubSelect op =
          Inr (\<forall>pred \<in> set (SplitPredicates (GetSelectCondition op) []).
                 GetDepth pred < GetSelectDepth op \<longrightarrow> correlated_equality op pred)"
      using require by (simp add: IsSupportedSubSelect_def IsSupportedSubSelect_loop_result)
    moreover have "correlated_equality op pred \<longleftrightarrow> outer_column_equality op pred"
      if "pred \<in> set (SplitPredicates (GetSelectCondition op) [])"
        and "GetDepth pred < GetSelectDepth op" for pred
    proof (cases "GetExpressionType pred = COMPARE_EQUAL")
      case True
      with sides that show ?thesis by (intro correlated_equality_with_outer_side) blast
    next
      case False
      then show ?thesis by (simp add: correlated_equality_def outer_column_equality_def)
    qed
    ultimately show ?thesis by auto
  qed
  then show ?thesis by (simp add: IsSupportedSubSelect_def)
qed

text \<open>
  A sub-select without aggregation; and sub-selects with GROUP BY whose WHERE clause is
  \<^verbatim>\<open>t.a = u.b\<close> with \<open>t\<close> of the outer query (accepted), \<^verbatim>\<open>t.a < u.b\<close> (refused) and
  \<^verbatim>\<open>t.a = 1\<close> (refused).
\<close>

definition grouped_subselect :: "AbstractExpression \<Rightarrow> SelectStatement" where
  "grouped_subselect cond =
     SelectStatement [ColumnValueExpression ''u'' ''b'' 1] False
       (Some (BaseTable ''u'' ''u'' ''db'')) (Some cond)
       (Some (GroupByDescription [ColumnValueExpression ''u'' ''b'' 1] None)) None None 1"

theorem IsSupportedSubSelect_cases_witness:
  "IsSupportedSubSelect example_subselect = Inr True
   \<and> IsSupportedSubSelect (grouped_subselect
        (ComparisonExpression COMPARE_EQUAL
           [ColumnValueExpression ''t'' ''a'' 0, ColumnValueExpression ''u'' ''b'' 1] 0)) = Inr True
   \<and> IsSupportedSubSelect (grouped_subselect
        (ComparisonExpression COMPARE_LESS_THAN
           [ColumnValueExpression ''t'' ''a'' 0, ColumnValueExpression ''u'' ''b'' 1] 0)) = Inr False
   \<and> IsSupportedSubSelect (grouped_subselect
        (ComparisonExpression COMPARE_EQUAL
           [ColumnValueExpression ''t'' ''a'' 0, ConstantValueExpression (- 1)] 0)) = Inr False"
proof -
  have "IsSupportedSubSelect example_subselect = Inr True"
    by (rule IsSupportedSubSelect_cases [THEN conjunct1, rule_format])
       (simp add: example_subselect_def evaluation)
  moreover have "IsSupportedSubSelect (grouped_subselect
        (ComparisonExpression COMPARE_EQUAL
           [ColumnValueExpression ''t'' ''a'' 0, ColumnValueExpression ''u'' ''b'' 1] 0)) = Inr True"
    using IsSupportedSubSelect_cases [THEN conjunct2, rule_format,
        of "grouped_subselect (ComparisonExpression COMPARE_EQUAL
           [ColumnValueExpression ''t'' ''a'' 0, ColumnValueExpression ''u'' ''b'' 1] 0)"]
    by (simp add: grouped_subselect_def outer_column_equality_def has_outer_side_def evaluation)
  moreover have "IsSupportedSubSelect (grouped_subselect
        (ComparisonExpression COMPARE_LESS_THAN
           [ColumnValueExpression ''t'' ''a'' 0, ColumnValueExpression ''u'' ''b'' 1] 0)) = Inr False"
    using IsSupportedSubSelect_cases [THEN conjunct2, rule_format,
        of "grouped_subselect (ComparisonExpression COMPARE_LESS_THAN
           [ColumnValueExpression ''t'' ''a'' 0, ColumnValueExpression ''u'' ''b'' 1] 0)"]
    by (simp add: grouped_subselect_def outer_column_equality_def has_outer_side_def evaluation)
  moreover have "IsSupportedSubSelect (grouped_subselect
        (ComparisonExpression COMPARE_EQUAL
           [ColumnValueExpression ''t'' ''a'' 0, ConstantValueExpression (- 1)] 0)) = Inr False"
    using IsSupportedSubSelect_cases [THEN conjunct2, rule_format,
        of "grouped_subselect (ComparisonExpression COMPARE_EQUAL
           [ColumnValueExpression ''t'' ''a'' 0, ConstantValueExpression (- 1)] 0)"]
    by (simp add: grouped_subselect_def outer_column_equality_def has_outer_side_def evaluation)
  ultimately show ?thesis by (intro conjI)
qed

section \<open>Claim C8: IN with a sub-query becomes an equality over a mark join\<close>

text \<open>
  \<^verbatim>\<open>a IN (SELECT b FROM u)\<close> is visited when the output is the scan of \<open>t\<close>; so is
  \<^verbatim>\<open>(a > (SELECT c FROM v)) IN (SELECT b FROM u)\<close>, whose left operand holds a sub-query
  of its own.
\<close>

definition scan_of_t :: State where
  "scan_of_t = \<lparr>output_expr = OperatorExpression (LogicalGet 1 2 10 [] ''t'' False) [],
                predicates = []\<rparr>"

definition scalar_subselect :: SelectStatement where
  "scalar_subselect =
     SelectStatement [ColumnValueExpression ''v'' ''c'' 1] False
       (Some (BaseTable ''v'' ''v'' ''db'')) None None None None 1"

definition nested_in_subquery :: AbstractExpression where
  "nested_in_subquery =
     ComparisonExpression COMPARE_IN
       [ComparisonExpression COMPARE_GREATER_THAN
          [ColumnValueExpression ''t'' ''a'' 0, SubqueryExpression scalar_subselect 1] 0,
        SubqueryExpression example_subselect 1] 0"

text \<open>
  Claim C8, as stated, fails when an operand of the predicate holds a sub-query of its
  own. The predicate below is a \<open>COMPARE_IN\<close> whose right child is a row sub-query with an
  admissible sub-select of one column, and it is a conjunct that \<open>CollectPredicates\<close>
  admits. Its visit rewrites it and puts the mark join into the output slot, and then
  visits the operands: the sub-query of the left operand puts a single join on top. After
  the visit the output slot holds the single join; the mark join is its first child.
\<close>

theorem in_subquery_with_nested_subquery:
  "GetClass nested_in_subquery = parser_ComparisonExpression
   \<and> GetExpressionType nested_in_subquery = COMPARE_IN
   \<and> GetChild nested_in_subquery 1 = Inr (SubqueryExpression example_subselect 1)
   \<and> GetExpressionType (SubqueryExpression example_subselect 1) = ROW_SUBQUERY
   \<and> GetSubselect (SubqueryExpression example_subselect 1) = Some example_subselect
   \<and> IsSupportedSubSelect example_subselect = Inr True
   \<and> GetSelectColumns example_subselect = [ColumnValueExpression ''u'' ''b'' 1]
   \<and> IsSupportedConjunctivePredicate nested_in_subquery = Inr True
   \<and> Visit_SelectStatement example_accessor example_subselect scan_of_t
       = Inr \<lparr>output_expr = OperatorExpression (LogicalGet 1 2 11 [] ''u'' False) [],
              predicates = []\<rparr>
   \<and> Accept example_accessor nested_in_subquery scan_of_t
       = Inr (ComparisonExpression COMPARE_EQUAL
                [ComparisonExpression COMPARE_GREATER_THAN
                   [ColumnValueExpression ''t'' ''a'' 0, ColumnValueExpression ''v'' ''c'' 1] 0,
                 ColumnValueExpression ''u'' ''b'' 1] 0,
              \<lparr>output_expr =
                 OperatorExpression LogicalSingleJoin
                   [OperatorExpression LogicalMarkJoin
                      [OperatorExpression (LogicalGet 1 2 10 [] ''t'' False) [],
                       OperatorExpression (LogicalGet 1 2 11 [] ''u'' False) []],
                    OperatorExpression (LogicalGet 1 2 0 [] ''v'' False) []],
               predicates = []\<rparr>)
   \<and> OperatorExpression LogicalSingleJoin
         [OperatorExpression LogicalMarkJoin
            [OperatorExpression (LogicalGet 1 2 10 [] ''t'' False) [],
             OperatorExpression (LogicalGet 1 2 11 [] ''u'' False) []],
          OperatorExpression (LogicalGet 1 2 0 [] ''v'' False) []]
       \<noteq> OperatorExpression LogicalMarkJoin
           [OperatorExpression (LogicalGet 1 2 10 [] ''t'' False) [],
            OperatorExpression (LogicalGet 1 2 11 [] ''u'' False) []]"
  by (simp add: nested_in_subquery_def scalar_subselect_def example_subselect_def scan_of_t_def
        example_accessor_def evaluation)

text \<open>
  Claim C8, amended. Let \<open>expr\<close> be a comparison of kind \<open>COMPARE_IN\<close> whose second child is
  a row sub-query that holds an admissible sub-select with the single select-list column
  \<open>column\<close>, and let the visit of the sub-select from the state \<open>st\<close> return \<open>sub_st\<close>.

  \<^item> \<open>GenerateSubqueryTree\<close> replaces the second child by \<open>column\<close> and the output by a
    mark join of the previous output and the tree of the sub-select; the visit of \<open>expr\<close>
    sets the kind to \<open>COMPARE_EQUAL\<close> and goes on to visit the operands of the rewritten
    node from that state.
  \<^item> Whatever the visit returns has the kind \<open>COMPARE_EQUAL\<close>, its operands are the
    visited operands of the rewritten node, the accumulator is as before, and the output
    is the mark join with the joins of the sub-queries of the operands on top of it.
  \<^item> When no operand of the rewritten node holds a sub-query, the visit returns nothing
    but the rewritten node and the mark join; it does return them when, moreover, every
    comparison in the operands has its two operands and every \<open>OPERATOR_EXISTS\<close> its
    operand.
\<close>

theorem in_subquery_becomes_mark_join:
  assumes "GetClass expr = parser_ComparisonExpression"
      and "GetExpressionType expr = COMPARE_IN"
      and "GetChild expr 1 = Inr subquery_expr"
      and "GetExpressionType subquery_expr = ROW_SUBQUERY"
      and "GetSubselect subquery_expr = Some sub_select"
      and "IsSupportedSubSelect sub_select = Inr True"
      and "GetSelectColumns sub_select = [column]"
      and "Visit_SelectStatement accessor sub_select st = Inr sub_st"
      and "rewritten = SetExpressionType (SetChild expr 1 column) COMPARE_EQUAL"
      and "joined = sub_st\<lparr>output_expr :=
             OperatorExpression LogicalMarkJoin [output_expr st, output_expr sub_st]\<rparr>"
  shows "GenerateSubqueryTree accessor expr 1 False st = Inr (Some (SetChild expr 1 column, joined))
       \<and> Accept accessor expr st = AcceptChildren accessor rewritten joined
       \<and> GetChildren rewritten = (GetChildren expr)[1 := column]
       \<and> (\<forall>expr' st'. Accept accessor expr st = Inr (expr', st') \<longrightarrow>
             GetExpressionType expr' = COMPARE_EQUAL
           \<and> AcceptChildren_loop accessor (GetChildren rewritten) joined = Inr (GetChildren expr', st')
           \<and> joins_over (OperatorExpression LogicalMarkJoin [output_expr st, output_expr sub_st])
                 (output_expr st')
           \<and> predicates st' = predicates st)
       \<and> ((\<forall>child \<in> set (GetChildren rewritten). \<not> HasSubquery child) \<longrightarrow>
             (\<forall>expr' st'. Accept accessor expr st = Inr (expr', st')
                \<longrightarrow> expr' = rewritten \<and> st' = joined))
       \<and> ((\<forall>child \<in> set (GetChildren rewritten). \<not> HasSubquery child \<and> operands_present child)
             \<longrightarrow> Accept accessor expr st = Inr (rewritten, joined))"
proof -
  have generate: "GenerateSubqueryTree accessor expr 1 False st =
      Inr (Some (SetChild expr 1 column, joined))"
    using assms(3-8,10) by (simp add: GenerateSubqueryTree.simps)
  have visit: "Accept accessor expr st = AcceptChildren accessor rewritten joined"
    using assms(1,2,9) generate
    by (simp add: Accept.simps Visit_ComparisonExpression.simps)
  have children: "GetChildren rewritten = (GetChildren expr)[1 := column]"
    unfolding assms(9) by (cases expr) (simp add: SetChild_def SetExpressionType_def)
  have joined: "output_expr joined =
      OperatorExpression LogicalMarkJoin [output_expr st, output_expr sub_st]"
    "predicates joined = predicates st"
    using Visit_SelectStatement_predicates [OF assms(8)] by (simp_all add: assms(10))
  have general: "GetExpressionType expr' = COMPARE_EQUAL
           \<and> AcceptChildren_loop accessor (GetChildren rewritten) joined = Inr (GetChildren expr', st')
           \<and> joins_over (OperatorExpression LogicalMarkJoin [output_expr st, output_expr sub_st])
                 (output_expr st')
           \<and> predicates st' = predicates st"
    if "Accept accessor expr st = Inr (expr', st')" for expr' st'
  proof -
    from that have run: "AcceptChildren accessor rewritten joined = Inr (expr', st')"
      by (simp add: visit)
    from AcceptChildren_keeps_type [OF run] have "GetExpressionType expr' = COMPARE_EQUAL"
      by (simp add: assms(9))
    moreover from run
    have "AcceptChildren_loop accessor (GetChildren rewritten) joined = Inr (GetChildren expr', st')"
      by (auto simp: AcceptChildren.simps case_sum_Inr_iff)
    moreover from visit_invariants(9) [of accessor rewritten joined] run
    have "adds_joins joined st'" by simp
    ultimately show ?thesis by (simp add: adds_joins_def joined)
  qed
  have unchanged: "expr' = rewritten \<and> st' = joined"
    if free: "\<forall>child \<in> set (GetChildren rewritten). \<not> HasSubquery child"
      and run: "Accept accessor expr st = Inr (expr', st')" for expr' st'
  proof -
    from run obtain cs' where
      loop: "AcceptChildren_loop accessor (GetChildren rewritten) joined = Inr (cs', st')"
      and expr': "expr' = SetChildren rewritten cs'"
      by (auto simp: visit AcceptChildren.simps case_sum_Inr_iff)
    have "cs' = GetChildren rewritten \<and> st' = joined"
      using _ loop
    proof (rule AcceptChildren_loop_unchanged)
      fix c s c' s'
      assume "c \<in> set (GetChildren rewritten)" and "Accept accessor c s = Inr (c', s')"
      with free Accept_no_subquery [of c accessor s] show "c' = c \<and> s' = s" by blast
    qed
    with expr' show ?thesis by simp
  qed
  have returns: "Accept accessor expr st = Inr (rewritten, joined)"
    if "\<forall>child \<in> set (GetChildren rewritten). \<not> HasSubquery child \<and> operands_present child"
  proof -
    have "AcceptChildren_loop accessor (GetChildren rewritten) joined
            = Inr (GetChildren rewritten, joined)"
    proof (rule AcceptChildren_loop_returns)
      fix c s
      assume "c \<in> set (GetChildren rewritten)"
      with that Accept_no_subquery [of c accessor s] show "Accept accessor c s = Inr (c, s)"
        by blast
    qed
    then show ?thesis by (simp add: visit AcceptChildren.simps)
  qed
  from generate visit children general unchanged returns show ?thesis by blast
qed

text \<open>
  The visit of \<^verbatim>\<open>a IN (SELECT b FROM u)\<close> returns \<^verbatim>\<open>a = u.b\<close> and the mark join of the
  scans of \<open>t\<close> and \<open>u\<close>.
\<close>

theorem in_subquery_becomes_mark_join_witness:
  "Accept example_accessor in_subquery scan_of_t =
     Inr (ComparisonExpression COMPARE_EQUAL
            [ColumnValueExpression ''t'' ''a'' 0, ColumnValueExpression ''u'' ''b'' 1] 0,
          \<lparr>output_expr =
             OperatorExpression LogicalMarkJoin
               [OperatorExpression (LogicalGet 1 2 10 [] ''t'' False) [],
                OperatorExpression (LogicalGet 1 2 11 [] ''u'' False) []],
           predicates = []\<rparr>)"
proof -
  have sub: "Visit_SelectStatement example_accessor example_subselect scan_of_t =
      Inr \<lparr>output_expr = OperatorExpression (LogicalGet 1 2 11 [] ''u'' False) [],
           predicates = []\<rparr>"
    by (simp add: example_subselect_def scan_of_t_def example_accessor_def evaluation)
  have supported: "IsSupportedSubSelect example_subselect = Inr True"
    by (simp add: example_subselect_def evaluation)
  have operands: "\<forall>child \<in> set (GetChildren (SetExpressionType
        (SetChild in_subquery 1 (ColumnValueExpression ''u'' ''b'' 1)) COMPARE_EQUAL)).
      \<not> HasSubquery child \<and> operands_present child"
    by (simp add: in_subquery_def expression_constructors SetChild_def SetExpressionType_def
          HasSubquery_node operands_present_node)
  have "Accept example_accessor in_subquery scan_of_t =
     Inr (SetExpressionType (SetChild in_subquery 1 (ColumnValueExpression ''u'' ''b'' 1)) COMPARE_EQUAL,
          \<lparr>output_expr = OperatorExpression (LogicalGet 1 2 11 [] ''u'' False) [],
            predicates = []\<rparr>
          \<lparr>output_expr := OperatorExpression LogicalMarkJoin
             [output_expr scan_of_t,
              output_expr \<lparr>output_expr = OperatorExpression (LogicalGet 1 2 11 [] ''u'' False) [],
                           predicates = []\<rparr>]\<rparr>)"
    by (rule in_subquery_becomes_mark_join
          [where subquery_expr = "SubqueryExpression example_subselect 1"
             and sub_select = example_subselect,
           OF _ _ _ _ _ supported _ sub refl refl,
           THEN conjunct2, THEN conjunct2, THEN conjunct2, THEN conjunct2, THEN conjunct2,
           rule_format])
       (use operands in \<open>auto simp: in_subquery_def example_subselect_def evaluation\<close>)
  then show ?thesis
    by (simp add: in_subquery_def scan_of_t_def evaluation)
qed

section \<open>Claim C9: the predicate accumulator is saved and restored\<close>

definition with_predicates :: "AnnotatedExpression list \<Rightarrow> error + State \<Rightarrow> error + State" where
  "with_predicates ps r =
     (case r of Inl e \<Rightarrow> Inl e | Inr st \<Rightarrow> Inr (st\<lparr>predicates := ps\<rparr>))"

lemma with_predicates_step:
  assumes "\<And>y. f' y = with_predicates ps (f y)"
  shows "(case x of Inl e \<Rightarrow> Inl e | Inr y \<Rightarrow> f' y) =
         with_predicates ps (case x of Inl e \<Rightarrow> Inl e | Inr y \<Rightarrow> f y)"
  using assms by (cases x) (simp_all add: with_predicates_def)

lemma Visit_SelectStatement_ignores_predicates:
  "Visit_SelectStatement accessor op (st\<lparr>predicates := ps\<rparr>) =
     with_predicates ps (Visit_SelectStatement accessor op st)"
proof -
  have s0: "(st\<lparr>predicates := ps\<rparr>)\<lparr>predicates := []\<rparr> = st\<lparr>predicates := []\<rparr>"
    and p: "predicates (st\<lparr>predicates := ps\<rparr>) = ps" by simp_all
  show ?thesis
    unfolding Visit_SelectStatement.simps [of accessor op] Let_def s0 p
    apply (rule with_predicates_step)+
    apply (simp add: with_predicates_def)
    done
qed

text \<open>
  Claim C9. A visit of a SELECT statement that returns leaves the predicate accumulator
  as it found it. The visit itself works on an empty accumulator: started with any
  other accumulator \<open>ps\<close> in place of the caller's it builds the same state and hands
  \<open>ps\<close> back.
\<close>

theorem select_restores_predicates:
  assumes "Visit_SelectStatement accessor op st = Inr st'"
  shows "predicates st' = predicates st
       \<and> Visit_SelectStatement accessor op (st\<lparr>predicates := ps\<rparr>) = Inr (st'\<lparr>predicates := ps\<rparr>)"
proof -
  have "predicates st' = predicates st"
    using assms
    unfolding Visit_SelectStatement.simps [of accessor op st] Let_def case_sum_Inr_iff
    by auto
  then show ?thesis
    by (simp add: Visit_SelectStatement_ignores_predicates assms with_predicates_def)
qed

theorem select_restores_predicates_witness:
  "Visit_SelectStatement example_accessor example_select
     \<lparr>output_expr = nullptr,
      predicates = [AnnotatedExpression (ConstantValueExpression 0) {}]\<rparr>
   = Inr \<lparr>output_expr =
           OperatorExpression
             (LogicalFilter [AnnotatedExpression example_where {''t''}])
             [OperatorExpression (LogicalGet 1 2 10 [] ''t'' False) []],
         predicates = [AnnotatedExpression (ConstantValueExpression 0) {}]\<rparr>
   \<and> Visit_SelectStatement example_accessor example_select \<lparr>output_expr = nullptr, predicates = []\<rparr>
   = Inr \<lparr>output_expr =
           OperatorExpression
             (LogicalFilter [AnnotatedExpression example_where {''t''}])
             [OperatorExpression (LogicalGet 1 2 10 [] ''t'' False) []],
         predicates = []\<rparr>"
proof -
  have run: "Visit_SelectStatement example_accessor example_select
       \<lparr>output_expr = nullptr, predicates = [AnnotatedExpression (ConstantValueExpression 0) {}]\<rparr>
     = Inr \<lparr>output_expr =
           OperatorExpression
             (LogicalFilter [AnnotatedExpression example_where {''t''}])
             [OperatorExpression (LogicalGet 1 2 10 [] ''t'' False) []],
         predicates = [AnnotatedExpression (ConstantValueExpression 0) {}]\<rparr>"
    by (simp add: example_select_def example_where_def example_accessor_def evaluation)
  from select_restores_predicates [OF run, of "[]"] run show ?thesis by simp
qed

section \<open>Claim C10: the WHERE clause of DELETE and UPDATE\<close>

text \<open>
  Claim C10. For a DELETE and for an UPDATE with a WHERE clause, the child of the result
  is a scan for update whose predicate list is \<open>ExtractPredicates\<close> of the clause: its
  expressions are the conjuncts of the clause as they stand, one by one. The two
  functions return a state, never an error, and run neither the admissibility check nor
  a visit of the expression.
\<close>

theorem dml_where_is_extracted_only:
  assumes "GetDeleteCondition delete_op = Some delete_cond"
      and "GetUpdateCondition update_op = Some update_cond"
  shows "Visit_DeleteStatement accessor delete_op st =
           st\<lparr>output_expr :=
             OperatorExpression
               (LogicalDelete (GetDatabaseOid accessor (GetDatabaseName (GetDeletionTable delete_op)))
                  (GetDefaultNamespace accessor)
                  (GetTableOid accessor (GetTableRefName (GetDeletionTable delete_op))))
               [OperatorExpression
                  (LogicalGet (GetDatabaseOid accessor (GetDatabaseName (GetDeletionTable delete_op)))
                     (GetDefaultNamespace accessor)
                     (GetTableOid accessor (GetTableRefName (GetDeletionTable delete_op)))
                     (ExtractPredicates (Some delete_cond) [])
                     (GetTableAlias (GetDeletionTable delete_op)) True) []]\<rparr>
       \<and> map GetExpr (ExtractPredicates (Some delete_cond) []) = SplitPredicates (Some delete_cond) []
       \<and> Visit_UpdateStatement accessor update_op st =
           st\<lparr>output_expr :=
             OperatorExpression
               (LogicalUpdate (GetDatabaseOid accessor (GetDatabaseName (GetUpdateTable update_op)))
                  (GetDefaultNamespace accessor)
                  (GetTableAlias (GetUpdateTable update_op))
                  (GetTableOid accessor (GetTableRefName (GetUpdateTable update_op)))
                  (GetUpdateClauses update_op))
               [OperatorExpression
                  (LogicalGet (GetDatabaseOid accessor (GetDatabaseName (GetUpdateTable update_op)))
                     (GetDefaultNamespace accessor)
                     (GetTableOid accessor (GetTableRefName (GetUpdateTable update_op)))
                     (ExtractPredicates (Some update_cond) [])
                     (GetTableAlias (GetUpdateTable update_op)) True) []]\<rparr>
       \<and> map GetExpr (ExtractPredicates (Some update_cond) []) = SplitPredicates (Some update_cond) []"
  using assms
  by (simp add: Visit_DeleteStatement_def Visit_UpdateStatement_def Let_def
        ExtractPredicates_conjuncts)

text \<open>
  \<^verbatim>\<open>b = 1 OR a IN (SELECT b FROM u)\<close> is a conjunct of a shape that
  \<open>CollectPredicates\<close> refuses. As the WHERE clause of a DELETE and of an UPDATE on \<open>t\<close>
  it lands in the scan as it is.
\<close>

definition unsupported_where :: AbstractExpression where
  "unsupported_where =
     ConjunctionExpression CONJUNCTION_OR
       [ComparisonExpression COMPARE_EQUAL
          [ColumnValueExpression ''t'' ''b'' 0, ConstantValueExpression (- 1)] 0,
        ComparisonExpression COMPARE_IN
          [ColumnValueExpression ''t'' ''a'' 0, SubqueryExpression example_subselect 1] 0] 0"

theorem dml_where_is_extracted_only_witness:
  "Visit_DeleteStatement example_accessor
     \<lparr>GetDeletionTable = BaseTable ''t'' ''t'' ''db'', GetDeleteCondition = Some unsupported_where\<rparr>
     initial_state
   = \<lparr>output_expr =
        OperatorExpression (LogicalDelete 1 2 10)
          [OperatorExpression
             (LogicalGet 1 2 10 [AnnotatedExpression unsupported_where {''t''}] ''t'' True) []],
      predicates = []\<rparr>
   \<and> Visit_UpdateStatement example_accessor
     \<lparr>GetUpdateTable = BaseTable ''t'' ''t'' ''db'',
      GetUpdateClauses = [(''b'', ConstantValueExpression (- 1))],
      GetUpdateCondition = Some unsupported_where\<rparr>
     initial_state
   = \<lparr>output_expr =
        OperatorExpression (LogicalUpdate 1 2 ''t'' 10 [(''b'', ConstantValueExpression (- 1))])
          [OperatorExpression
             (LogicalGet 1 2 10 [AnnotatedExpression unsupported_where {''t''}] ''t'' True) []],
      predicates = []\<rparr>
   \<and> CollectPredicates example_accessor unsupported_where initial_state
   = Inl (NOT_IMPLEMENTED_EXCEPTION ''Predicate type not supported yet'')"
proof -
  have extracted: "ExtractPredicates (Some unsupported_where) [] =
      [AnnotatedExpression unsupported_where {''t''}]"
    by (simp add: unsupported_where_def evaluation)
  have refused: "CollectPredicates example_accessor unsupported_where initial_state
      = Inl (NOT_IMPLEMENTED_EXCEPTION ''Predicate type not supported yet'')"
    by (simp add: unsupported_where_def example_subselect_def evaluation)
  from dml_where_is_extracted_only
    [of "\<lparr>GetDeletionTable = BaseTable ''t'' ''t'' ''db'', GetDeleteCondition = Some unsupported_where\<rparr>"
        unsupported_where
        "\<lparr>GetUpdateTable = BaseTable ''t'' ''t'' ''db'',
          GetUpdateClauses = [(''b'', ConstantValueExpression (- 1))],
          GetUpdateCondition = Some unsupported_where\<rparr>"
        unsupported_where example_accessor initial_state]
    refused
  show ?thesis
    by (simp add: extracted example_accessor_def initial_state_def BaseTable_def)
qed

end
